(* ===== verification/Prelude.thy ===== *)
theory Prelude
  imports Main "HOL-Library.Word"
begin

text \<open>
  Shared vocabulary of the development: the outcome of running a piece of C code, machine
  integers, and the part of the C string library that the sources under src/ use.

  A C string is modelled by the list of its bytes before the terminating NUL; a \<open>char *\<close>
  that may be NULL by a \<open>string option\<close>; a fixed \<open>char[n]\<close> member of a struct by a list of
  exactly \<open>n\<close> bytes, NULs included.
\<close>

named_theorems outcome_simps \<open>how outcomes are taken apart\<close>
named_theorems cstr_simps \<open>the C string functions on concrete shapes\<close>

section \<open>Outcomes\<close>

text \<open>
  \<open>Ret x\<close>: the code returns \<open>x\<close>. \<open>Fault f\<close>: it performs an access or a calculation that C leaves
  undefined (\<open>BadArith\<close>: a shift by a count out of range, a signed overflow, a division by zero).
  \<open>Blocked\<close>: it waits for an external event that the given schedule never delivers.
\<close>

datatype fault = NullDeref | OutOfBounds | UninitRead | BadArith | UseAfterFree

datatype 'a outcome = Ret 'a | Fault fault | Blocked

fun obind :: "'a outcome \<Rightarrow> ('a \<Rightarrow> 'b outcome) \<Rightarrow> 'b outcome" where
  "obind (Ret x) f = f x"
| "obind (Fault e) f = Fault e"
| "obind Blocked f = Blocked"

definition returns :: "'a outcome \<Rightarrow> bool" where
  "returns m = (case m of Ret _ \<Rightarrow> True | _ \<Rightarrow> False)"

lemma returns_simps [simp]: "returns (Ret x)" "\<not> returns (Fault e)" "\<not> returns Blocked"
  by (simp_all add: returns_def)

lemma obind_eq_Ret [outcome_simps]:
  "obind m f = Ret y \<longleftrightarrow> (\<exists>x. m = Ret x \<and> f x = Ret y)"
  by (cases m) auto

lemma obind_eq_Fault [outcome_simps]:
  "obind m f = Fault e \<longleftrightarrow> m = Fault e \<or> (\<exists>x. m = Ret x \<and> f x = Fault e)"
  by (cases m) auto

lemma obind_assoc: "obind (obind m f) g = obind m (\<lambda>x. obind (f x) g)"
  by (cases m) auto

lemma obind_Ret_right [simp]: "obind m Ret = m"
  by (cases m) auto

lemma obind_cong [fundef_cong]:
  "m = m' \<Longrightarrow> (\<And>x. m' = Ret x \<Longrightarrow> f x = g x) \<Longrightarrow> obind m f = obind m' g"
  by (cases m') auto

section \<open>Machine integers\<close>

type_synonym size_t = "64 word"
type_synonym u8 = "8 word"

text \<open>The conversion \<open>(int) x\<close> of a wider integer: two's complement truncation to 32 bits.\<close>

definition c_int :: "int \<Rightarrow> int" where
  "c_int x = (x + 2 ^ 31) mod 2 ^ 32 - 2 ^ 31"

lemma c_int_bounds: "- (2 ^ 31) \<le> c_int x" "c_int x < 2 ^ 31"
proof -
  have "0 \<le> (x + 2 ^ 31) mod 2 ^ 32" "(x + 2 ^ 31) mod 2 ^ 32 < 2 ^ 31 + 2 ^ 31" by simp_all
  then show "- (2 ^ 31) \<le> c_int x" "c_int x < 2 ^ 31" unfolding c_int_def by linarith+
qed

lemma c_int_id: "- (2 ^ 31) \<le> x \<Longrightarrow> x < 2 ^ 31 \<Longrightarrow> c_int x = x"
  unfolding c_int_def by (subst mod_pos_pos_trivial) simp_all

section \<open>Characters and C strings\<close>

abbreviation NUL :: char where "NUL \<equiv> CHR 0x00"
abbreviation LF :: char where "LF \<equiv> CHR 0x0A"
abbreviation CR :: char where "CR \<equiv> CHR 0x0D"
abbreviation QUOTE :: char where "QUOTE \<equiv> CHR 0x22"

text \<open>\<open>isspace\<close> and \<open>isdigit\<close> of the C locale.\<close>

definition isspace :: "char \<Rightarrow> bool" where
  "isspace c = (c = CHR '' '' \<or> c = CHR 0x09 \<or> c = CHR 0x0A \<or> c = CHR 0x0B
     \<or> c = CHR 0x0C \<or> c = CHR 0x0D)"

definition isdigit :: "char \<Rightarrow> bool" where
  "isdigit c = (48 \<le> (of_char c :: nat) \<and> (of_char c :: nat) \<le> 57)"

text \<open>\<open>strncmp(s, lit, strlen(lit)) == 0\<close>.\<close>

definition starts_with :: "string \<Rightarrow> string \<Rightarrow> bool" where
  "starts_with s lit = (take (length lit) s = lit)"

lemma starts_with_iff: "starts_with s lit \<longleftrightarrow> (\<exists>r. s = lit @ r)"
proof
  assume "starts_with s lit"
  then have "s = lit @ drop (length lit) s"
    unfolding starts_with_def by (metis append_take_drop_id)
  then show "\<exists>r. s = lit @ r" by blast
qed (auto simp: starts_with_def)

lemma starts_with_append [simp]: "starts_with (lit @ r) lit"
  by (simp add: starts_with_def)

text \<open>The bytes of a fixed array up to its first NUL, and whether it has one.\<close>

definition arr_str :: "string \<Rightarrow> string" where
  "arr_str a = takeWhile (\<lambda>c. c \<noteq> NUL) a"

definition terminated :: "string \<Rightarrow> bool" where
  "terminated a = (NUL \<in> set a)"

text \<open>\<open>strncpy(dst, src, n)\<close> where \<open>n\<close> is the size of the destination array.\<close>

definition strncpy_arr :: "nat \<Rightarrow> string \<Rightarrow> string" where
  "strncpy_arr n src =
     (if n \<le> length src then take n src else src @ replicate (n - length src) NUL)"

lemma length_strncpy_arr [simp]: "length (strncpy_arr n src) = n"
  by (simp add: strncpy_arr_def)

lemma split_at_delim [cstr_simps]:
  "d \<notin> set f \<Longrightarrow> takeWhile (\<lambda>c. c \<noteq> d) (f @ d # r) = f"
  "d \<notin> set f \<Longrightarrow> dropWhile (\<lambda>c. c \<noteq> d) (f @ d # r) = d # r"
  by (induction f) auto

lemma split_no_delim [cstr_simps]:
  "d \<notin> set f \<Longrightarrow> takeWhile (\<lambda>c. c \<noteq> d) f = f"
  "d \<notin> set f \<Longrightarrow> dropWhile (\<lambda>c. c \<noteq> d) f = []"
  by (induction f) auto

lemma takeWhile_all: "(\<And>x. x \<in> set xs \<Longrightarrow> P x) \<Longrightarrow> takeWhile P xs = xs"
  by simp

lemma arr_str_append: "NUL \<notin> set a \<Longrightarrow> arr_str (a @ b) = a @ arr_str b"
  by (simp add: arr_str_def takeWhile_append)

lemma arr_str_strncpy:
  assumes "NUL \<notin> set src"
  shows "arr_str (strncpy_arr n src) = take n src"
proof (cases "n \<le> length src")
  case True
  have "takeWhile (\<lambda>c. c \<noteq> NUL) (take n src) = take n src"
    using assms by (intro takeWhile_all) (auto dest: in_set_takeD)
  with True show ?thesis by (simp add: arr_str_def strncpy_arr_def)
next
  case False
  have "takeWhile (\<lambda>c. c \<noteq> NUL) (src @ replicate (n - length src) NUL) = src"
    using assms False by (subst takeWhile_append2) (auto simp: takeWhile_eq_Nil_iff)
  with False show ?thesis by (simp add: arr_str_def strncpy_arr_def)
qed

lemma terminated_strncpy:
  assumes "NUL \<notin> set src"
  shows "terminated (strncpy_arr n src) \<longleftrightarrow> length src < n"
  using assms by (auto simp: terminated_def strncpy_arr_def dest: in_set_takeD)

text \<open>
  The guard \<open>strlen(s) - 1 < sizeof(field)\<close> that the sources put before a copy, in
  \<open>size_t\<close> arithmetic: an empty string makes the subtraction wrap.
\<close>

definition len_guard :: "string \<Rightarrow> nat \<Rightarrow> bool" where
  "len_guard s n = ((of_nat (length s) - 1 :: size_t) < of_nat n)"

lemma len_guard_iff:
  assumes "length s < 2 ^ 64" "n < 2 ^ 64 - 1"
  shows "len_guard s n \<longleftrightarrow> s \<noteq> [] \<and> length s \<le> n"
proof (cases s)
  case Nil
  have n: "unat (of_nat n :: size_t) = n"
    using assms(2) by (simp add: unat_of_nat take_bit_nat_eq_self)
  have "unat (- 1 :: size_t) = 2 ^ 64 - 1"
    by (simp add: unsigned_minus_1_eq_mask mask_eq_exp_minus_1)
  with n assms(2) show ?thesis
    using Nil by (simp add: len_guard_def word_less_nat_alt)
next
  case (Cons c cs)
  have m: "unat (of_nat (length cs) :: size_t) = length cs"
    using assms(1) Cons by (simp add: unat_of_nat take_bit_nat_eq_self)
  have n: "unat (of_nat n :: size_t) = n"
    using assms(2) by (simp add: unat_of_nat take_bit_nat_eq_self)
  have "(of_nat (length s) - 1 :: size_t) = of_nat (length cs)"
    using Cons by simp
  then show ?thesis
    using Cons m n by (simp add: len_guard_def word_less_nat_alt Suc_le_eq)
qed

end
