(* ===== verification/CNum.thy ===== *)
theory CNum
  imports Prelude
begin

text \<open>
  The number conversions of the C library that the sources call: \<open>strtol\<close> and \<open>strtoul\<close>
  (C11 7.22.1.4, with a 64-bit \<open>long\<close>) and the \<open>%d\<close> conversion of the \<open>printf\<close> family,
  with the round trip between them.
\<close>

section \<open>Reading numbers\<close>

definition digit_of :: "char \<Rightarrow> nat" where
  "digit_of c = (let n = (of_char c :: nat) in
     if 48 \<le> n \<and> n \<le> 57 then n - 48
     else if 97 \<le> n \<and> n \<le> 122 then n - 87
     else if 65 \<le> n \<and> n \<le> 90 then n - 55
     else 99)"

definition is_base_digit :: "nat \<Rightarrow> char \<Rightarrow> bool" where
  "is_base_digit b c = (digit_of c < b)"

definition digits_value :: "nat \<Rightarrow> string \<Rightarrow> nat" where
  "digits_value b ds = foldl (\<lambda>a c. a * b + digit_of c) 0 ds"

definition split_sign :: "string \<Rightarrow> bool \<times> string" where
  "split_sign s = (case s of
       [] \<Rightarrow> (False, [])
     | c # r \<Rightarrow> if c = CHR ''-'' then (True, r) else if c = CHR ''+'' then (False, r) else (False, s))"

definition skip_0x :: "nat \<Rightarrow> string \<Rightarrow> string" where
  "skip_0x b s = (case s of
       z # x # d # r \<Rightarrow>
         if b = 16 \<and> z = CHR ''0'' \<and> (x = CHR ''x'' \<or> x = CHR ''X'') \<and> is_base_digit 16 d
         then d # r else s
     | _ \<Rightarrow> s)"

text \<open>The sign and the digits of the subject sequence; no digit means no conversion.\<close>

definition subject_seq :: "nat \<Rightarrow> string \<Rightarrow> bool \<times> string" where
  "subject_seq b s = (let (neg, r) = split_sign (dropWhile isspace s)
     in (neg, takeWhile (is_base_digit b) (skip_0x b r)))"

text \<open>The converted value and whether \<open>*end == s\<close>, that is, nothing was converted.\<close>

definition strtol :: "nat \<Rightarrow> string \<Rightarrow> int \<times> bool" where
  "strtol b s = (let (neg, ds) = subject_seq b s; v = int (digits_value b ds) in
     if ds = [] then (0, True)
     else (if neg then max (- (2 ^ 63)) (- v) else min (2 ^ 63 - 1) v, False))"

definition strtol_erange :: "nat \<Rightarrow> string \<Rightarrow> bool" where
  "strtol_erange b s = (let (neg, ds) = subject_seq b s; v = int (digits_value b ds) in
     if neg then v > 2 ^ 63 else v > 2 ^ 63 - 1)"

definition strtoul :: "nat \<Rightarrow> string \<Rightarrow> int \<times> bool" where
  "strtoul b s = (let (neg, ds) = subject_seq b s; v = int (digits_value b ds) in
     if ds = [] then (0, True)
     else (if v > 2 ^ 64 - 1 then 2 ^ 64 - 1
           else if neg then (- v) mod 2 ^ 64 else v, False))"

section \<open>Printing numbers\<close>

fun show_nat :: "nat \<Rightarrow> string" where
  "show_nat n = (if n < 10 then [char_of (48 + n)]
     else show_nat (n div 10) @ [char_of (48 + n mod 10)])"

declare show_nat.simps [simp del]

definition show_int :: "int \<Rightarrow> string" where
  "show_int i = (if i < 0 then CHR ''-'' # show_nat (nat (- i)) else show_nat (nat i))"

section \<open>The round trip\<close>

lemma of_char_digit [simp]: "(d::nat) < 10 \<Longrightarrow> (of_char (char_of (48 + d) :: char) :: nat) = 48 + d"
  by simp

lemma digit_of_digit [simp]: "(d::nat) < 10 \<Longrightarrow> digit_of (char_of (48 + d)) = d"
  by (simp add: digit_of_def Let_def)

lemma base_digit_digit [simp]: "(d::nat) < 10 \<Longrightarrow> is_base_digit 10 (char_of (48 + d))"
  by (simp add: is_base_digit_def)

lemma length_show_nat: "n < 10 ^ Suc k \<Longrightarrow> length (show_nat n) \<le> Suc k"
proof (induction k arbitrary: n)
  case 0
  then show ?case by (simp add: show_nat.simps)
next
  case (Suc k)
  have "n div 10 < 10 ^ Suc k" using Suc.prems by simp
  from Suc.IH [OF this] show ?case by (subst show_nat.simps) simp
qed

lemma show_nat_digits: "\<forall>c \<in> set (show_nat n). is_base_digit 10 c"
proof (induction n rule: show_nat.induct)
  case (1 n)
  then show ?case by (subst show_nat.simps) (auto simp del: of_char_digit)
qed

lemma show_nat_not_Nil [simp]: "show_nat n \<noteq> []"
  by (subst show_nat.simps) simp

lemma digits_value_snoc: "digits_value b (ds @ [c]) = digits_value b ds * b + digit_of c"
  by (simp add: digits_value_def)

lemma digits_value_show_nat: "digits_value 10 (show_nat n) = n"
proof (induction n rule: show_nat.induct)
  case (1 n)
  show ?case
  proof (cases "n < 10")
    case True
    then show ?thesis by (subst show_nat.simps) (simp add: digits_value_def)
  next
    case False
    with 1 show ?thesis by (subst show_nat.simps) (simp add: digits_value_snoc)
  qed
qed

lemma base_digit_not_space: "is_base_digit 10 c \<Longrightarrow> \<not> isspace c"
  by (auto simp: is_base_digit_def isspace_def digit_of_def)

lemma base_digit_not_sign: "is_base_digit 10 c \<Longrightarrow> c \<noteq> CHR ''-'' \<and> c \<noteq> CHR ''+''"
  by (auto simp: is_base_digit_def digit_of_def)

lemma show_nat_Cons: "\<exists>c cs. show_nat n = c # cs \<and> is_base_digit 10 c"
  using show_nat_digits [of n] by (cases "show_nat n") auto

lemma skip_0x_10 [simp]: "skip_0x 10 s = s"
  by (simp add: skip_0x_def split: list.splits)

definition no_digit_first :: "string \<Rightarrow> bool" where
  "no_digit_first s = (case s of [] \<Rightarrow> True | c # _ \<Rightarrow> \<not> is_base_digit 10 c)"

lemma takeWhile_digits:
  assumes "no_digit_first rest"
  shows "takeWhile (is_base_digit 10) (show_nat n @ rest) = show_nat n"
  using assms show_nat_digits [of n]
  by (subst takeWhile_append2) (auto simp: no_digit_first_def split: list.splits)

lemma subject_seq_show_int:
  assumes "no_digit_first rest"
  shows "subject_seq 10 (show_int i @ rest) = (i < 0, show_nat (nat \<bar>i\<bar>))"
proof (cases "i < 0")
  case True
  then show ?thesis using takeWhile_digits [OF assms, of "nat (- i)"]
    by (simp add: subject_seq_def show_int_def split_sign_def isspace_def)
next
  case False
  obtain c cs where c: "show_nat (nat i) = c # cs" "is_base_digit 10 c"
    using show_nat_Cons by blast
  have "dropWhile isspace (show_nat (nat i) @ rest) = show_nat (nat i) @ rest"
    using c base_digit_not_space by simp
  with False c base_digit_not_sign [OF c(2)] takeWhile_digits [OF assms, of "nat i"]
  show ?thesis by (simp add: subject_seq_def show_int_def split_sign_def)
qed

lemma strtol_show_int:
  assumes "no_digit_first rest" "- (2 ^ 63) \<le> i" "i < 2 ^ 63"
  shows "strtol 10 (show_int i @ rest) = (i, False)"
  using assms(2,3) subject_seq_show_int [OF assms(1), of i]
  by (auto simp: strtol_def digits_value_show_nat Let_def)

end
