(* ===== verification/AtTok.thy ===== *)
theory AtTok
  imports CNum
begin

text \<open>
  The AT response tokenizer, src/src/modem/at/at_tok.c, and the prefix test of
  src/src/modem/at/misc.c.

  The tokenizer walks a \<open>char *\<close> cursor over a writable copy of the line. Here the cursor is
  the rest of the line, or None for NULL; the NULs that \<open>strsep\<close> writes fall on cells that the
  cursor has passed and that end the returned token. Theory AtTokMem gives the same functions
  over the bytes of the buffer and proves that this view is exact.
\<close>

type_synonym cursor = "string option"

section \<open>misc.c\<close>

fun strStartsWith :: "string \<Rightarrow> string \<Rightarrow> bool" where
  "strStartsWith (l # line) (p # prefix) = (if l \<noteq> p then False else strStartsWith line prefix)"
| "strStartsWith line prefix = (prefix = [])"

lemma strStartsWith_iff: "strStartsWith line pre \<longleftrightarrow> starts_with line pre"
  by (induction line pre rule: strStartsWith.induct) (auto simp: starts_with_def)

section \<open>Tokens\<close>

definition strsep :: "char \<Rightarrow> cursor \<Rightarrow> string option \<times> cursor" where
  "strsep d p = (case p of
       None \<Rightarrow> (None, None)
     | Some s \<Rightarrow> (Some (takeWhile (\<lambda>c. c \<noteq> d) s),
         (case dropWhile (\<lambda>c. c \<noteq> d) s of [] \<Rightarrow> None | _ # r \<Rightarrow> Some r)))"

definition at_tok_start :: "cursor \<Rightarrow> int \<times> cursor" where
  "at_tok_start p = (case p of
       None \<Rightarrow> (-1, None)
     | Some s \<Rightarrow> (case dropWhile (\<lambda>c. c \<noteq> CHR '':'') s of
           [] \<Rightarrow> (-1, None)
         | _ # r \<Rightarrow> (0, Some r)))"

definition skipWhiteSpace :: "cursor \<Rightarrow> cursor" where
  "skipWhiteSpace p = map_option (dropWhile isspace) p"

definition skipNextComma :: "cursor \<Rightarrow> cursor" where
  "skipNextComma p = map_option
     (\<lambda>s. case dropWhile (\<lambda>c. c \<noteq> CHR '','') s of [] \<Rightarrow> [] | _ # r \<Rightarrow> r) p"

definition nextTok :: "cursor \<Rightarrow> string option \<times> cursor" where
  "nextTok p = (case skipWhiteSpace p of
       None \<Rightarrow> (None, None)
     | Some s \<Rightarrow>
         if s \<noteq> [] \<and> hd s = QUOTE
         then let (ret, q) = strsep QUOTE (Some (tl s)) in (ret, skipNextComma q)
         else strsep (CHR '','') (Some s))"

section \<open>Integers, booleans and strings\<close>

text \<open>
  The result is the return code, the value stored through \<open>p_out\<close> (None when nothing is
  stored) and the cursor. A token without digits stores 0 and returns -1.
\<close>

definition at_tok_nextint_base :: "cursor \<Rightarrow> nat \<Rightarrow> bool \<Rightarrow> int \<times> int option \<times> cursor" where
  "at_tok_nextint_base p base uns = (case p of
       None \<Rightarrow> (-1, None, None)
     | Some _ \<Rightarrow> (case nextTok p of
           (None, q) \<Rightarrow> (-1, None, q)
         | (Some ret, q) \<Rightarrow>
             let (l, no_conv) = (if uns then strtoul base ret else strtol base ret)
             in (if no_conv then -1 else 0, Some (c_int l), q)))"

definition at_tok_nextint :: "cursor \<Rightarrow> int \<times> int option \<times> cursor" where
  "at_tok_nextint p = at_tok_nextint_base p 10 False"

definition at_tok_nexthexint :: "cursor \<Rightarrow> int \<times> int option \<times> cursor" where
  "at_tok_nexthexint p = at_tok_nextint_base p 16 True"

text \<open>\<open>want\<close> is whether the caller passes a \<open>p_out\<close> that is not NULL.\<close>

definition at_tok_nextbool :: "cursor \<Rightarrow> bool \<Rightarrow> int \<times> int option \<times> cursor" where
  "at_tok_nextbool p want = (case at_tok_nextint p of (ret, result, q) \<Rightarrow>
     if ret < 0 then (-1, None, q)
     else if \<not> (result = Some 0 \<or> result = Some 1) then (-1, None, q)
     else (ret, if want then result else None, q))"

definition at_tok_nextstr :: "cursor \<Rightarrow> int \<times> string option \<times> cursor" where
  "at_tok_nextstr p = (case p of
       None \<Rightarrow> (-1, None, None)
     | Some _ \<Rightarrow> (case nextTok p of (tok, q) \<Rightarrow> (0, tok, q)))"

definition at_tok_hasmore :: "cursor \<Rightarrow> bool" where
  "at_tok_hasmore p = (\<not> (p = None \<or> p = Some []))"

lemmas tok_defs = strsep_def at_tok_start_def skipWhiteSpace_def skipNextComma_def nextTok_def
  at_tok_nextint_base_def at_tok_nextint_def at_tok_nexthexint_def at_tok_nextstr_def

section \<open>Every branch\<close>

lemma at_tok_NULL [simp]:
  "at_tok_start None = (-1, None)" "nextTok None = (None, None)"
  "at_tok_nextint None = (-1, None, None)" "at_tok_nexthexint None = (-1, None, None)"
  "at_tok_nextstr None = (-1, None, None)" "at_tok_nextbool None w = (-1, None, None)"
  by (simp_all add: tok_defs at_tok_nextbool_def)

lemma strsep_some: "\<exists>t q. strsep d (Some s) = (Some t, q)"
  by (simp add: strsep_def)

lemma nextTok_some: "\<exists>t q. nextTok (Some s) = (Some t, q)"
  by (auto simp: nextTok_def skipWhiteSpace_def strsep_def split: prod.splits)

text \<open>A successful string token is never NULL: the callers use it without a test.\<close>

lemma at_tok_nextstr_ok:
  assumes "at_tok_nextstr p = (0, tok, q)"
  shows "\<exists>s t. p = Some s \<and> tok = Some t"
proof (cases p)
  case None
  with assms show ?thesis by simp
next
  case (Some s)
  obtain t q' where "nextTok (Some s) = (Some t, q')" using nextTok_some by blast
  with Some assms show ?thesis by (auto simp: at_tok_nextstr_def)
qed

lemma at_tok_nextstr_code: "fst (at_tok_nextstr p) = (if p = None then -1 else 0)"
  by (cases p) (auto simp: at_tok_nextstr_def split: prod.splits)

lemma at_tok_nextint_ok:
  assumes "at_tok_nextint p = (0, v, q)"
  shows "\<exists>i. v = Some i \<and> - (2 ^ 31) \<le> i \<and> i < 2 ^ 31"
proof (cases p)
  case None
  with assms show ?thesis by simp
next
  case (Some s)
  obtain t q' where "nextTok (Some s) = (Some t, q')" using nextTok_some by blast
  with Some assms have "v = Some (c_int (fst (strtol 10 t)))"
    by (simp add: at_tok_nextint_def at_tok_nextint_base_def split: prod.splits)
  then show ?thesis using c_int_bounds by simp
qed

lemma at_tok_nextint_code: "fst (at_tok_nextint p) \<in> {0, -1}"
  by (cases p) (auto simp: at_tok_nextint_def at_tok_nextint_base_def
      split: prod.splits if_splits option.splits)

lemma at_tok_start_colon:
  assumes "CHR '':'' \<notin> set pre"
  shows "at_tok_start (Some (pre @ CHR '':'' # r)) = (0, Some r)"
  using assms by (simp add: at_tok_start_def cstr_simps)

lemma at_tok_start_no_colon: "CHR '':'' \<notin> set s \<Longrightarrow> at_tok_start (Some s) = (-1, None)"
  by (simp add: at_tok_start_def cstr_simps)

lemma at_tok_start_code: "at_tok_start (Some s) = (if CHR '':'' \<in> set s then (0, snd (at_tok_start (Some s))) else (-1, None))"
proof (cases "CHR '':'' \<in> set s")
  case True
  then obtain a b where "s = a @ CHR '':'' # b" "CHR '':'' \<notin> set a"
    by (meson split_list_first)
  then show ?thesis by (simp add: at_tok_start_colon)
qed (simp add: at_tok_start_no_colon)

section \<open>Reading back what a modem prints\<close>

fun commas :: "string list \<Rightarrow> string" where
  "commas [] = []"
| "commas [f] = f"
| "commas (f # g # fs) = f @ CHR '','' # commas (g # fs)"

text \<open>A field that needs no quoting: no comma in it, no blank and no quote in front.\<close>

definition plain_field :: "string \<Rightarrow> bool" where
  "plain_field f = (CHR '','' \<notin> set f
     \<and> (f = [] \<or> (\<not> isspace (hd f) \<and> hd f \<noteq> QUOTE)))"

definition blanks :: "string \<Rightarrow> bool" where
  "blanks w = (\<forall>c \<in> set w. isspace c)"

text \<open>Reading \<open>n\<close> fields in a row, as the callers of the tokenizer do.\<close>

fun read_strs :: "nat \<Rightarrow> cursor \<Rightarrow> string option list \<times> cursor" where
  "read_strs 0 p = ([], p)"
| "read_strs (Suc n) p = (case at_tok_nextstr p of (_, t, q) \<Rightarrow>
     case read_strs n q of (ts, r) \<Rightarrow> (t # ts, r))"

fun read_ints :: "nat \<Rightarrow> cursor \<Rightarrow> (int \<times> int option) list \<times> cursor" where
  "read_ints 0 p = ([], p)"
| "read_ints (Suc n) p = (case at_tok_nextint p of (e, v, q) \<Rightarrow>
     case read_ints n q of (vs, r) \<Rightarrow> ((e, v) # vs, r))"

lemma isspace_comma [simp]: "\<not> isspace (CHR '','')"
  by (simp add: isspace_def)

lemma drop_blanks: "blanks w \<Longrightarrow> dropWhile isspace (w @ s) = dropWhile isspace s"
  by (auto simp: blanks_def dropWhile_append2)

lemma drop_plain: "plain_field f \<Longrightarrow> dropWhile isspace (f @ CHR '','' # r) = f @ CHR '','' # r"
  and drop_plain_last: "plain_field f \<Longrightarrow> dropWhile isspace f = f"
  by (cases f; simp add: plain_field_def)+

lemma strsep_comma:
  assumes "d \<notin> set f"
  shows "strsep d (Some (f @ d # r)) = (Some f, Some r)"
    and "strsep d (Some f) = (Some f, None)"
  using assms by (simp_all add: strsep_def cstr_simps)

lemma plain_not_quote: "plain_field f \<Longrightarrow> \<not> (f @ CHR '','' # r \<noteq> [] \<and> hd (f @ CHR '','' # r) = QUOTE)"
  and plain_not_quote_last: "plain_field f \<Longrightarrow> \<not> (f \<noteq> [] \<and> hd f = QUOTE)"
  by (cases f; auto simp: plain_field_def)+

lemma nextTok_plain:
  assumes "plain_field f" "blanks w"
  shows "nextTok (Some (w @ f @ CHR '','' # r)) = (Some f, Some r)"
    and "nextTok (Some (w @ f)) = (Some f, None)"
proof -
  have c: "CHR '','' \<notin> set f" using assms(1) by (simp add: plain_field_def)
  show "nextTok (Some (w @ f @ CHR '','' # r)) = (Some f, Some r)"
    using plain_not_quote [OF assms(1), of r]
    by (simp add: nextTok_def skipWhiteSpace_def drop_blanks [OF assms(2)] drop_plain [OF assms(1)]
        strsep_comma [OF c] del: hd_append)
  show "nextTok (Some (w @ f)) = (Some f, None)"
    using plain_not_quote_last [OF assms(1)]
    by (auto simp add: nextTok_def skipWhiteSpace_def drop_blanks [OF assms(2)] drop_plain_last [OF assms(1)]
        strsep_comma [OF c])
qed

lemma at_tok_nextstr_quoted:
  assumes "QUOTE \<notin> set t" "CHR '','' \<notin> set junk" "blanks w"
  shows "at_tok_nextstr (Some (w @ QUOTE # t @ QUOTE # junk @ CHR '','' # r)) = (0, Some t, Some r)"
    and "at_tok_nextstr (Some (w @ QUOTE # t @ QUOTE # junk)) = (0, Some t, Some [])"
proof -
  have q: "\<not> isspace QUOTE" by (simp add: isspace_def)
  have j: "dropWhile (\<lambda>c. c \<noteq> CHR '','') (junk @ CHR '','' # r) = CHR '','' # r"
    using assms(2) by (simp add: cstr_simps)
  have k: "skipNextComma (Some junk) = Some []"
    using assms(2) by (simp add: skipNextComma_def cstr_simps)
  note s = strsep_comma(1) [OF assms(1)]
  show "at_tok_nextstr (Some (w @ QUOTE # t @ QUOTE # junk @ CHR '','' # r)) = (0, Some t, Some r)"
    by (simp add: at_tok_nextstr_def nextTok_def skipWhiteSpace_def drop_blanks [OF assms(3)] q s
        skipNextComma_def j)
  show "at_tok_nextstr (Some (w @ QUOTE # t @ QUOTE # junk)) = (0, Some t, Some [])"
    by (simp add: at_tok_nextstr_def nextTok_def skipWhiteSpace_def drop_blanks [OF assms(3)] q s k)
qed

lemma show_int_plain: "plain_field (show_int i)"
proof -
  obtain c cs where c: "show_nat (nat \<bar>i\<bar>) = c # cs" "is_base_digit 10 c"
    using show_nat_Cons by blast
  have "CHR '','' \<notin> set (show_nat n)" for n
    using show_nat_digits [of n] by (auto simp: is_base_digit_def digit_of_def)
  moreover have "c \<noteq> QUOTE" using c(2) by (auto simp: is_base_digit_def digit_of_def)
  ultimately show ?thesis
    using c base_digit_not_space [OF c(2)]
    by (auto simp: plain_field_def show_int_def isspace_def abs_if split: if_splits)
qed

lemma at_tok_nextint_show:
  assumes "- (2 ^ 31) \<le> i" "i < 2 ^ 31" "blanks w"
  shows "at_tok_nextint (Some (w @ show_int i @ CHR '','' # r)) = (0, Some i, Some r)"
    and "at_tok_nextint (Some (w @ show_int i)) = (0, Some i, None)"
proof -
  have "strtol 10 (show_int i @ []) = (i, False)"
    using assms by (intro strtol_show_int) (simp_all add: no_digit_first_def)
  then have s: "strtol 10 (show_int i) = (i, False)" by simp
  note n = nextTok_plain [OF show_int_plain assms(3), of i]
  show "at_tok_nextint (Some (w @ show_int i @ CHR '','' # r)) = (0, Some i, Some r)"
    "at_tok_nextint (Some (w @ show_int i)) = (0, Some i, None)"
    using assms by (simp_all add: at_tok_nextint_def at_tok_nextint_base_def n s c_int_id)
qed

lemma blanks_Nil [simp]: "blanks []" by (simp add: blanks_def)

lemma read_strs_step:
  "at_tok_nextstr p = (e, t, q) \<Longrightarrow> read_strs n q = (ts, r) \<Longrightarrow> read_strs (Suc n) p = (t # ts, r)"
  by simp

lemma read_strs_commas:
  "fs \<noteq> [] \<Longrightarrow> \<forall>f \<in> set fs. plain_field f \<Longrightarrow>
     read_strs (length fs) (Some (commas fs)) = (map Some fs, None)"
proof (induction fs rule: commas.induct)
  case (2 f)
  then show ?case using nextTok_plain(2) [of f "[]"] by (simp add: at_tok_nextstr_def)
next
  case (3 f g fs)
  have n: "at_tok_nextstr (Some (f @ CHR '','' # commas (g # fs))) = (0, Some f, Some (commas (g # fs)))"
    using nextTok_plain(1) [of f "[]"] 3(3) by (simp add: at_tok_nextstr_def)
  have IH: "read_strs (length (g # fs)) (Some (commas (g # fs))) = (map Some (g # fs), None)"
    using 3 by simp
  show ?case using read_strs_step [OF n IH] by (simp del: read_strs.simps)
qed simp

lemma read_ints_commas:
  "is \<noteq> [] \<Longrightarrow> \<forall>i \<in> set is. - (2 ^ 31) \<le> i \<and> i < 2 ^ 31 \<Longrightarrow> blanks w \<Longrightarrow>
     read_ints (length is) (Some (w @ commas (map show_int is))) = (map (\<lambda>i. (0, Some i)) is, None)"
proof (induction "is" arbitrary: w)
  case (Cons i js)
  have i: "- (2 ^ 31) \<le> i" "i < 2 ^ 31" using Cons.prems by auto
  show ?case
  proof (cases js)
    case Nil
    then show ?thesis using at_tok_nextint_show(2) [OF i Cons.prems(3)] by simp
  next
    case (Cons j ks)
    have "read_ints (length js) (Some (commas (map show_int js))) = (map (\<lambda>i. (0, Some i)) js, None)"
      using Cons.IH [of "[]"] Cons.prems Cons by simp
    then show ?thesis
      using at_tok_nextint_show(1) [OF i Cons.prems(3), of "commas (map show_int js)"] Cons by simp
  qed
qed simp

section \<open>Progress\<close>

text \<open>Every token read makes the cursor shorter, so a loop over tokens ends.\<close>

definition cursor_left :: "cursor \<Rightarrow> nat" where
  "cursor_left p = (case p of None \<Rightarrow> 0 | Some s \<Rightarrow> Suc (length s))"

lemma length_dropWhile_Cons: "dropWhile P s = c # r \<Longrightarrow> length r < length s"
  by (metis Suc_le_lessD length_Cons length_dropWhile_le)

lemma strsep_progress: "strsep d (Some s) = (t, q) \<Longrightarrow> cursor_left q < Suc (length s)"
  by (auto simp: strsep_def cursor_left_def dest!: length_dropWhile_Cons split: list.splits)

lemma skipNextComma_le: "cursor_left (skipNextComma q) \<le> cursor_left q"
  by (auto simp: skipNextComma_def cursor_left_def dest!: length_dropWhile_Cons
      split: list.splits option.splits)

lemma nextTok_progress:
  assumes "nextTok (Some s) = (t, q)"
  shows "cursor_left q < cursor_left (Some s)"
proof -
  let ?s = "dropWhile isspace s"
  have le: "length ?s \<le> length s" by (rule length_dropWhile_le)
  show ?thesis
  proof (cases "?s \<noteq> [] \<and> hd ?s = QUOTE")
    case True
    obtain t' q' where s: "strsep QUOTE (Some (tl ?s)) = (t', q')" by fastforce
    have "q = skipNextComma q'"
      using assms True s by (simp add: nextTok_def skipWhiteSpace_def)
    moreover have "cursor_left q' < Suc (length (tl ?s))" by (rule strsep_progress [OF s])
    ultimately show ?thesis
      using skipNextComma_le [of q'] le by (simp add: cursor_left_def [of "Some s"])
  next
    case False
    then have "strsep (CHR '','') (Some ?s) = (t, q)"
      using assms by (auto simp: nextTok_def skipWhiteSpace_def)
    from strsep_progress [OF this] show ?thesis
      using le by (simp add: cursor_left_def [of "Some s"])
  qed
qed

section \<open>Round trips\<close>

text \<open>How a modem may print a field: in double quotes or plain.\<close>

definition show_field :: "bool \<times> string \<Rightarrow> string" where
  "show_field f = (if fst f then QUOTE # snd f @ [QUOTE] else snd f)"

definition field_ok :: "bool \<times> string \<Rightarrow> bool" where
  "field_ok f = (if fst f then QUOTE \<notin> set (snd f) else plain_field (snd f))"

lemma nextstr_field:
  assumes "field_ok f" "blanks w"
  shows "at_tok_nextstr (Some (w @ show_field f @ CHR '','' # r)) = (0, Some (snd f), Some r)"
    and "\<exists>q. at_tok_nextstr (Some (w @ show_field f)) = (0, Some (snd f), q) \<and> \<not> at_tok_hasmore q"
  using assms at_tok_nextstr_quoted(1) [of "snd f" "[]" w r]
    at_tok_nextstr_quoted(2) [of "snd f" "[]" w] nextTok_plain(1) [of "snd f" w r]
    nextTok_plain(2) [of "snd f" w]
  by (cases "fst f"; simp add: field_ok_def show_field_def at_tok_nextstr_def at_tok_hasmore_def)+

text \<open>
  What a modem prints as a comma-separated list of fields, each of them plain or in double
  quotes (where commas may stand inside), is read back field by field, and nothing is left.
\<close>

theorem read_strs_fields:
  assumes "fs \<noteq> []" "\<forall>f \<in> set fs. field_ok f" "blanks w"
  shows "\<exists>q. read_strs (length fs) (Some (w @ commas (map show_field fs))) = (map (Some \<circ> snd) fs, q)
    \<and> \<not> at_tok_hasmore q"
  using assms
proof (induction fs arbitrary: w)
  case (Cons f gs)
  show ?case
  proof (cases gs)
    case Nil
    then show ?thesis using nextstr_field(2) [of f w] Cons.prems by auto
  next
    case (Cons g hs)
    obtain q where "read_strs (length gs) (Some (commas (map show_field gs))) = (map (Some \<circ> snd) gs, q)"
      "\<not> at_tok_hasmore q"
      using Cons.IH [of "[]"] Cons.prems Cons by auto
    then show ?thesis
      using nextstr_field(1) [of f w "commas (map show_field gs)"] Cons.prems Cons by simp
  qed
qed simp

text \<open>
  A comma-separated list of decimal integers that fit an \<open>int\<close>, with blanks in front, is read
  back as these integers, each with return code 0, and the cursor is NULL afterwards.
\<close>

theorem read_ints_roundtrip:
  assumes "is \<noteq> []" "\<forall>i \<in> set is. - (2 ^ 31) \<le> i \<and> i < 2 ^ 31" "blanks w"
  shows "read_ints (length is) (Some (w @ commas (map show_int is))) = (map (\<lambda>i. (0, Some i)) is, None)"
  by (rule read_ints_commas [OF assms])

end
