(* ===== verification/CMem.thy ===== *)
theory CMem
  imports Prelude
begin

text \<open>
  Memory of the C code as the bytes of one array: checked reads and writes, the scans for a
  character, the copies of \<open>string.h\<close>, and what it means that a C string stands at an address.
\<close>

type_synonym mem = "char list"
type_synonym ptr = "nat option"

section \<open>Access\<close>

definition rd :: "mem \<Rightarrow> nat \<Rightarrow> char outcome" where
  "rd m i = (if i < length m then Ret (m ! i) else Fault OutOfBounds)"

definition wr :: "mem \<Rightarrow> nat \<Rightarrow> char \<Rightarrow> mem outcome" where
  "wr m i c = (if i < length m then Ret (m[i := c]) else Fault OutOfBounds)"

text \<open>\<open>while (*p != 0 && P(*p)) p++\<close>.\<close>

function scan :: "(char \<Rightarrow> bool) \<Rightarrow> mem \<Rightarrow> nat \<Rightarrow> nat outcome" where
  "scan P m i = (if i < length m
     then if m ! i \<noteq> NUL \<and> P (m ! i) then scan P m (Suc i) else Ret i
     else Fault OutOfBounds)"
  by pat_completeness auto
termination
  by (relation "measure (\<lambda>(P, m, i). length m - i)") auto

declare scan.simps [simp del]

text \<open>The C string that starts at an address.\<close>

definition str_at :: "mem \<Rightarrow> nat \<Rightarrow> string outcome" where
  "str_at m i = obind (scan (\<lambda>c. True) m i) (\<lambda>j. Ret (take (j - i) (drop i m)))"

definition mem_fill :: "mem \<Rightarrow> nat \<Rightarrow> string \<Rightarrow> mem outcome" where
  "mem_fill m i bs =
     (if i + length bs \<le> length m then Ret (take i m @ bs @ drop (i + length bs) m) else Fault OutOfBounds)"

definition mem_copy :: "mem \<Rightarrow> nat \<Rightarrow> nat \<Rightarrow> nat \<Rightarrow> mem outcome" where
  "mem_copy m dst src n =
     (if src + n \<le> length m then mem_fill m dst (take n (drop src m)) else Fault OutOfBounds)"

section \<open>Strings in memory\<close>

definition holds_at :: "mem \<Rightarrow> nat \<Rightarrow> string \<Rightarrow> bool" where
  "holds_at m i s = (NUL \<notin> set s \<and> i + length s < length m
     \<and> take (Suc (length s)) (drop i m) = s @ [NUL])"

lemma holds_at_iff:
  "holds_at m i s \<longleftrightarrow> NUL \<notin> set s \<and> (\<exists>pre post. m = pre @ s @ NUL # post \<and> length pre = i)"
proof
  assume h: "holds_at m i s"
  then have "m = take i m @ (s @ [NUL]) @ drop (Suc (length s)) (drop i m)"
    unfolding holds_at_def by (metis append_take_drop_id)
  moreover have "length (take i m) = i" using h by (simp add: holds_at_def)
  ultimately show "NUL \<notin> set s \<and> (\<exists>pre post. m = pre @ s @ NUL # post \<and> length pre = i)"
    using h unfolding holds_at_def by (metis append.assoc append_Cons append_Nil)
next
  assume "NUL \<notin> set s \<and> (\<exists>pre post. m = pre @ s @ NUL # post \<and> length pre = i)"
  then show "holds_at m i s" by (auto simp: holds_at_def)
qed

lemma holds_at_rd: "holds_at m i s \<Longrightarrow> rd m i = Ret (if s = [] then NUL else hd s)"
  by (cases s) (auto simp: holds_at_iff rd_def nth_append)

lemma holds_at_drop:
  assumes "holds_at m i (a @ b)"
  shows "holds_at m (i + length a) b"
proof -
  from assms obtain pre post where "m = (pre @ a) @ b @ NUL # post" "length pre = i" "NUL \<notin> set b"
    unfolding holds_at_iff by auto
  then show ?thesis unfolding holds_at_iff by (metis length_append)
qed

lemma holds_at_Cons: "holds_at m i (c # s) \<Longrightarrow> i < length m \<and> m ! i = c \<and> c \<noteq> NUL \<and> holds_at m (Suc i) s"
  using holds_at_drop [of m i "[c]" s] by (auto simp: holds_at_iff nth_append)

lemma holds_at_Nil: "holds_at m i [] \<Longrightarrow> i < length m \<and> m ! i = NUL"
  by (auto simp: holds_at_iff nth_append)

lemma scan_holds: "holds_at m i s \<Longrightarrow> scan P m i = Ret (i + length (takeWhile P s))"
proof (induction s arbitrary: i)
  case Nil
  then show ?case by (simp add: scan.simps [of P m i] holds_at_Nil)
next
  case (Cons c s)
  from holds_at_Cons [OF Cons.prems] Cons.IH [of "Suc i"] show ?case
    by (simp add: scan.simps [of P m i])
qed

lemma scan_holds_rest:
  "holds_at m i s \<Longrightarrow> holds_at m (i + length (takeWhile P s)) (dropWhile P s)"
  using holds_at_drop [of m i "takeWhile P s" "dropWhile P s"] by simp

lemma holds_at_cut:
  assumes "holds_at m i (a @ d # r)"
  defines "m' \<equiv> m[i + length a := NUL]"
  shows "holds_at m' i a" "holds_at m' (Suc (i + length a)) r" "take i m' = take i m"
proof -
  from assms(1) obtain pre post where
    m: "m = pre @ (a @ d # r) @ NUL # post" "length pre = i" "NUL \<notin> set (a @ d # r)"
    unfolding holds_at_iff by blast
  have "m' = pre @ a @ NUL # r @ NUL # post"
    unfolding m'_def m(1) using m(2) by (simp add: list_update_append)
  then show "holds_at m' i a" "take i m' = take i m" using m by (auto simp: holds_at_iff)
  have "m' = (pre @ a @ [NUL]) @ r @ NUL # post" "length (pre @ a @ [NUL]) = Suc (i + length a)"
    using \<open>m' = pre @ a @ NUL # r @ NUL # post\<close> m(2) by simp_all
  moreover have "NUL \<notin> set r" using m(3) by simp
  ultimately show "holds_at m' (Suc (i + length a)) r" unfolding holds_at_iff by blast
qed

lemma takeWhile_True [simp]: "takeWhile (\<lambda>c. True) s = s"
  by (induction s) auto

lemma str_at_holds: "holds_at m i s \<Longrightarrow> str_at m i = Ret s"
  by (auto simp: str_at_def scan_holds holds_at_iff)

section \<open>Refinement\<close>

text \<open>What a call may do to the buffer: keep its length and the bytes before the cursor.\<close>

end
