(* ===== verification/AtTokMem.thy ===== *)
theory AtTokMem
  imports AtTok CMem
begin

text \<open>
  src/src/modem/at/at_tok.c over the bytes of the line buffer. A cursor is an index into the
  buffer or None for NULL; every read and write is checked against the length of the buffer,
  and \<open>strsep\<close> really overwrites the delimiter. The refinement lemmas show that on a
  terminated buffer no access is out of bounds and that the result is the one of theory AtTok.
\<close>

section \<open>The code over memory\<close>

definition strsep_mem :: "char \<Rightarrow> mem \<Rightarrow> ptr \<Rightarrow> (ptr \<times> mem \<times> ptr) outcome" where
  "strsep_mem d m p = (case p of
       None \<Rightarrow> Ret (None, m, None)
     | Some i \<Rightarrow> obind (scan (\<lambda>c. c \<noteq> d) m i) (\<lambda>j. obind (rd m j) (\<lambda>c.
         if c = NUL then Ret (Some i, m, None)
         else obind (wr m j NUL) (\<lambda>m'. Ret (Some i, m', Some (Suc j))))))"

definition at_tok_start_mem :: "mem \<Rightarrow> ptr \<Rightarrow> (int \<times> ptr) outcome" where
  "at_tok_start_mem m p = (case p of
       None \<Rightarrow> Ret (-1, None)
     | Some i \<Rightarrow> obind (scan (\<lambda>c. c \<noteq> CHR '':'') m i) (\<lambda>j. obind (rd m j) (\<lambda>c.
         if c = NUL then Ret (-1, None) else Ret (0, Some (Suc j)))))"

definition skipWhiteSpace_mem :: "mem \<Rightarrow> ptr \<Rightarrow> ptr outcome" where
  "skipWhiteSpace_mem m p = (case p of
       None \<Rightarrow> Ret None
     | Some i \<Rightarrow> obind (scan isspace m i) (\<lambda>j. Ret (Some j)))"

definition skipNextComma_mem :: "mem \<Rightarrow> ptr \<Rightarrow> ptr outcome" where
  "skipNextComma_mem m p = (case p of
       None \<Rightarrow> Ret None
     | Some i \<Rightarrow> obind (scan (\<lambda>c. c \<noteq> CHR '','') m i) (\<lambda>j. obind (rd m j) (\<lambda>c.
         Ret (Some (if c = CHR '','' then Suc j else j)))))"

definition nextTok_mem :: "mem \<Rightarrow> ptr \<Rightarrow> (ptr \<times> mem \<times> ptr) outcome" where
  "nextTok_mem m p = obind (skipWhiteSpace_mem m p) (\<lambda>p1. case p1 of
       None \<Rightarrow> Ret (None, m, None)
     | Some i \<Rightarrow> obind (rd m i) (\<lambda>c.
         if c = QUOTE
         then obind (strsep_mem QUOTE m (Some (Suc i))) (\<lambda>(ret, m', q).
                obind (skipNextComma_mem m' q) (\<lambda>q'. Ret (ret, m', q')))
         else strsep_mem (CHR '','') m (Some i)))"

definition at_tok_nextint_base_mem ::
    "mem \<Rightarrow> ptr \<Rightarrow> nat \<Rightarrow> bool \<Rightarrow> (int \<times> int option \<times> mem \<times> ptr) outcome" where
  "at_tok_nextint_base_mem m p base uns = (case p of
       None \<Rightarrow> Ret (-1, None, m, None)
     | Some _ \<Rightarrow> obind (nextTok_mem m p) (\<lambda>(ret, m', q). case ret of
           None \<Rightarrow> Ret (-1, None, m', q)
         | Some t \<Rightarrow> obind (str_at m' t) (\<lambda>s.
             let (l, no_conv) = (if uns then strtoul base s else strtol base s)
             in Ret (if no_conv then -1 else 0, Some (c_int l), m', q))))"

definition at_tok_nextstr_mem :: "mem \<Rightarrow> ptr \<Rightarrow> (int \<times> ptr \<times> mem \<times> ptr) outcome" where
  "at_tok_nextstr_mem m p = (case p of
       None \<Rightarrow> Ret (-1, None, m, None)
     | Some _ \<Rightarrow> obind (nextTok_mem m p) (\<lambda>(tok, m', q). Ret (0, tok, m', q)))"

definition at_tok_hasmore_mem :: "mem \<Rightarrow> ptr \<Rightarrow> bool outcome" where
  "at_tok_hasmore_mem m p = (case p of
       None \<Rightarrow> Ret False
     | Some i \<Rightarrow> obind (rd m i) (\<lambda>c. Ret (c \<noteq> NUL)))"

section \<open>Strings in memory\<close>

definition ptr_rel :: "mem \<Rightarrow> ptr \<Rightarrow> cursor \<Rightarrow> bool" where
  "ptr_rel m p c = (case (p, c) of
       (None, None) \<Rightarrow> True
     | (Some i, Some s) \<Rightarrow> holds_at m i s
     | _ \<Rightarrow> False)"

lemma ptr_rel_simps [simp]:
  "ptr_rel m None c \<longleftrightarrow> c = None" "ptr_rel m (Some i) (Some s) \<longleftrightarrow> holds_at m i s"
  "\<not> ptr_rel m (Some i) None"
  by (auto simp: ptr_rel_def split: option.splits)

definition frame :: "nat \<Rightarrow> mem \<Rightarrow> mem \<Rightarrow> bool" where
  "frame i m m' = (length m' = length m \<and> take i m' = take i m)"

lemma frame_refl [simp]: "frame i m m" by (simp add: frame_def)

lemma frame_le: "frame j m m' \<Longrightarrow> i \<le> j \<Longrightarrow> frame i m m'"
  by (auto simp: frame_def) (metis min.absorb1 take_take)

lemma strsep_mem_refines:
  assumes "holds_at m i s" "strsep d (Some s) = (Some tok, c)"
  shows "\<exists>m' q. strsep_mem d m (Some i) = Ret (Some i, m', q) \<and> holds_at m' i tok
           \<and> ptr_rel m' q c \<and> frame i m m'"
proof (cases "dropWhile (\<lambda>c. c \<noteq> d) s")
  case Nil
  have tw: "takeWhile (\<lambda>c. c \<noteq> d) s = s" using Nil by (metis append_Nil2 takeWhile_dropWhile_id)
  then have eq: "tok = s" "c = None"
    using assms(2) Nil by (simp_all add: strsep_def del: dropWhile_eq_Nil_conv takeWhile_eq_all_conv)
  have "scan (\<lambda>c. c \<noteq> d) m i = Ret (i + length s)" using scan_holds [OF assms(1)] tw by metis
  moreover have "rd m (i + length s) = Ret NUL"
    using holds_at_rd [OF holds_at_drop [of m i s "[]"]] assms(1) by simp
  ultimately have "strsep_mem d m (Some i) = Ret (Some i, m, None)" by (simp add: strsep_mem_def)
  then show ?thesis using assms(1) eq by simp
next
  case (Cons e r)
  let ?a = "takeWhile (\<lambda>c. c \<noteq> d) s"
  have s: "s = ?a @ e # r" using Cons takeWhile_dropWhile_id [of "\<lambda>c. c \<noteq> d" s] by simp
  have tok: "tok = ?a" "c = Some r" using assms(2) Cons by (auto simp: strsep_def)
  have h: "holds_at m i (?a @ e # r)" using assms(1) s by simp
  have e: "holds_at m (i + length ?a) (e # r)" by (rule holds_at_drop [OF h])
  note cut = holds_at_cut [OF h]
  have "strsep_mem d m (Some i) = Ret (Some i, m[i + length ?a := NUL], Some (Suc (i + length ?a)))"
    using assms(1) holds_at_Cons [OF e] holds_at_rd [OF e]
    by (simp add: strsep_mem_def scan_holds wr_def)
  then show ?thesis using cut tok by (auto simp: frame_def)
qed

lemma skipNextComma_mem_refines:
  assumes "ptr_rel m q c"
  shows "\<exists>q'. skipNextComma_mem m q = Ret q' \<and> ptr_rel m q' (skipNextComma c)"
proof (cases q)
  case None
  with assms show ?thesis by (simp add: skipNextComma_mem_def skipNextComma_def)
next
  case (Some j)
  with assms obtain s where c: "c = Some s" and h: "holds_at m j s" by (cases c) auto
  let ?P = "\<lambda>c. c \<noteq> CHR '',''"
  note rest = scan_holds_rest [OF h, of ?P]
  show ?thesis
  proof (cases "dropWhile ?P s")
    case Nil
    with rest h Some c holds_at_rd [OF rest] show ?thesis
      by (simp add: skipNextComma_mem_def skipNextComma_def scan_holds del: dropWhile_eq_Nil_conv)
  next
    case (Cons e r)
    then have e: "e = CHR '',''" using hd_dropWhile [of ?P s] by auto
    from Cons rest have "holds_at m (j + length (takeWhile ?P s)) (e # r)" by simp
    from holds_at_Cons [OF this] holds_at_rd [OF this] e h Some c Cons show ?thesis
      by (simp add: skipNextComma_mem_def skipNextComma_def scan_holds)
  qed
qed

lemma nextTok_mem_refines:
  assumes h: "holds_at m i s" and t: "nextTok (Some s) = (Some tok, c)"
  shows "\<exists>m' j q. nextTok_mem m (Some i) = Ret (Some j, m', q) \<and> holds_at m' j tok
           \<and> ptr_rel m' q c \<and> frame i m m'"
proof -
  let ?s = "dropWhile isspace s" and ?k = "i + length (takeWhile isspace s)"
  have k: "holds_at m ?k ?s" by (rule scan_holds_rest [OF h])
  have ws: "skipWhiteSpace_mem m (Some i) = Ret (Some ?k)"
    by (simp add: skipWhiteSpace_mem_def scan_holds [OF h])
  have le: "i \<le> ?k" "i \<le> Suc ?k" by simp_all
  show ?thesis
  proof (cases "?s \<noteq> [] \<and> hd ?s = QUOTE")
    case True
    then obtain r where r: "?s = QUOTE # r" by (cases ?s) auto
    have sk: "holds_at m (Suc ?k) r" using holds_at_Cons [of m ?k QUOTE r] k r by simp
    obtain c0 where c0: "strsep QUOTE (Some r) = (Some tok, c0)" "c = skipNextComma c0"
      using t r by (auto simp: nextTok_def skipWhiteSpace_def split: prod.splits)
    obtain m' q where m': "strsep_mem QUOTE m (Some (Suc ?k)) = Ret (Some (Suc ?k), m', q)"
      "holds_at m' (Suc ?k) tok" "ptr_rel m' q c0" "frame (Suc ?k) m m'"
      using strsep_mem_refines [OF sk c0(1)] by blast
    obtain q' where q': "skipNextComma_mem m' q = Ret q'" "ptr_rel m' q' c"
      using skipNextComma_mem_refines [OF m'(3)] c0(2) by blast
    have "nextTok_mem m (Some i) = Ret (Some (Suc ?k), m', q')"
      using m'(1) q'(1) holds_at_rd [OF k] r by (simp add: nextTok_mem_def ws)
    then show ?thesis using m' q' frame_le [OF m'(4) le(2)] by blast
  next
    case False
    then have c: "strsep (CHR '','') (Some ?s) = (Some tok, c)"
      using t by (auto simp: nextTok_def skipWhiteSpace_def)
    obtain m' q where m': "strsep_mem (CHR '','') m (Some ?k) = Ret (Some ?k, m', q)"
      "holds_at m' ?k tok" "ptr_rel m' q c" "frame ?k m m'"
      using strsep_mem_refines [OF k c] by blast
    have "rd m ?k \<noteq> Ret QUOTE" using holds_at_rd [OF k] False by auto
    then have "nextTok_mem m (Some i) = Ret (Some ?k, m', q)"
      using m'(1) holds_at_rd [OF k] by (simp add: nextTok_mem_def ws)
    then show ?thesis using m' frame_le [OF m'(4) le(1)] by blast
  qed
qed

lemma at_tok_start_mem_refines:
  assumes "holds_at m i s"
  shows "\<exists>p. at_tok_start_mem m (Some i) = Ret (fst (at_tok_start (Some s)), p)
           \<and> ptr_rel m p (snd (at_tok_start (Some s)))"
proof -
  let ?P = "\<lambda>c. c \<noteq> CHR '':''"
  note rest = scan_holds_rest [OF assms, of ?P]
  show ?thesis
  proof (cases "dropWhile ?P s")
    case Nil
    with rest assms holds_at_rd [OF rest] show ?thesis
      by (simp add: at_tok_start_mem_def at_tok_start_def scan_holds del: dropWhile_eq_Nil_conv)
  next
    case (Cons e r)
    then have "holds_at m (i + length (takeWhile ?P s)) (e # r)" using rest by simp
    from holds_at_Cons [OF this] holds_at_rd [OF this] Cons assms show ?thesis
      by (simp add: at_tok_start_mem_def at_tok_start_def scan_holds)
  qed
qed


section \<open>Properties\<close>

text \<open>
  C5: reading a string token over the bytes of a terminated buffer never leaves the buffer,
  returns the token of the string-level tokenizer as a string in the buffer, leaves the cursor
  on the rest, and touches no byte before the cursor.
\<close>

theorem at_tok_nextstr_mem_refines:
  assumes "holds_at m i s" and "at_tok_nextstr (Some s) = (0, Some tok, c)"
  shows "\<exists>m' j q. at_tok_nextstr_mem m (Some i) = Ret (0, Some j, m', q) \<and> str_at m' j = Ret tok
           \<and> ptr_rel m' q c \<and> length m' = length m \<and> take i m' = take i m"
proof -
  have "nextTok (Some s) = (Some tok, c)"
    using assms(2) by (auto simp: at_tok_nextstr_def split: prod.splits)
  from nextTok_mem_refines [OF assms(1) this] show ?thesis
    by (auto simp: at_tok_nextstr_mem_def frame_def dest!: str_at_holds)
qed

theorem at_tok_nextstr_mem_refines_witness:
  "\<exists>m' j q. at_tok_nextstr_mem (''a,b'' @ [NUL]) (Some 0) = Ret (0, Some j, m', q)
     \<and> str_at m' j = Ret ''a'' \<and> ptr_rel m' q (Some ''b'') \<and> length m' = length (''a,b'' @ [NUL])
     \<and> take 0 m' = take 0 (''a,b'' @ [NUL])"
proof (rule at_tok_nextstr_mem_refines)
  show "holds_at (''a,b'' @ [NUL]) 0 ''a,b''" by (simp add: holds_at_def)
  show "at_tok_nextstr (Some ''a,b'') = (0, Some ''a'', Some ''b'')"
    by (simp add: at_tok_nextstr_def nextTok_def skipWhiteSpace_def isspace_def strsep_def)
qed

text \<open>
  The same for an integer token, decimal or hexadecimal: on a terminated buffer the code
  never leaves the buffer, and its return code, the stored value and the cursor are those of
  the string-level tokenizer.
\<close>

theorem at_tok_nextint_mem_refines:
  assumes "holds_at m i s" and "at_tok_nextint_base (Some s) base uns = (e, v, c)"
  shows "\<exists>m' q. at_tok_nextint_base_mem m (Some i) base uns = Ret (e, v, m', q)
           \<and> ptr_rel m' q c \<and> length m' = length m \<and> take i m' = take i m"
proof -
  obtain tok c' where t: "nextTok (Some s) = (Some tok, c')" using nextTok_some by blast
  obtain m' j q where n: "nextTok_mem m (Some i) = Ret (Some j, m', q)" "holds_at m' j tok"
    "ptr_rel m' q c'" "frame i m m'"
    using nextTok_mem_refines [OF assms(1) t] by blast
  have "c' = c" using assms(2) t by (auto simp: at_tok_nextint_base_def split: prod.splits)
  then show ?thesis using n assms(2) t str_at_holds [OF n(2)]
    by (auto simp: at_tok_nextint_base_mem_def at_tok_nextint_base_def frame_def split: prod.splits)
qed

end
