(* ===== verification/AtChannel.thy ===== *)
theory AtChannel
  imports AtTok "HOL-Library.Signed_Division"
begin

text \<open>
  The AT command channel, src/src/modem/at/atchannel.c, above the line reader (theory AtLines):
  the state that the command thread and the reader thread share under \<open>s_commandmutex\<close>, what the
  reader does with one line, what the command thread does with one command, and the wrappers.

  The record \<open>at_chan\<close> has one field per static variable, and four fields for the world around
  them: the bytes that \<open>write\<close> accepted (\<open>wire\<close>), the results of the coming \<open>write\<close> calls
  (\<open>writes\<close>), the calls made to \<open>s_unsolHandler\<close> in their order (\<open>unsol_log\<close>), and the schedule
  of what happens while the command thread sits in \<open>pthread_cond_wait\<close> (\<open>sched\<close>).
\<close>

section \<open>Data\<close>

datatype at_type = NO_RESULT | NUMERIC | SINGLELINE | MULTILINE

record at_response =
  success :: int
  finalResponse :: "string option"
  p_intermediates :: "string list"

text \<open>What \<open>write\<close> may answer: some bytes taken, interrupted, or an error.\<close>

datatype write_res = WOk nat | WEintr | WErr

text \<open>What the reader thread does with the lines it gets.\<close>

datatype reader_ev = ReaderLine string | ReaderSms string string | ReaderEof

text \<open>What a thread inside \<open>pthread_cond_wait\<close> sees: the reader runs, it is woken (by the signal
  or spuriously), or its timer expires.\<close>

datatype wait_ev = Reader reader_ev | Wake | TimedOut

record at_chan =
  s_fd :: int
  s_unsolHandler :: bool
  s_type :: at_type
  s_responsePrefix :: "string option"
  s_smsPDU :: "string option"
  sp_response :: "at_response option"
  s_onTimeout :: bool
  s_onReaderClosed :: bool
  s_readerClosed :: int
  wire :: string
  writes :: "write_res list"
  unsol_log :: "(string \<times> string option) list"
  sched :: "wait_ev list"
  timeout_calls :: nat
  closed_calls :: nat

definition AT_ERROR_GENERIC :: int where "AT_ERROR_GENERIC = -1"
definition AT_ERROR_COMMAND_PENDING :: int where "AT_ERROR_COMMAND_PENDING = -2"
definition AT_ERROR_CHANNEL_CLOSED :: int where "AT_ERROR_CHANNEL_CLOSED = -3"
definition AT_ERROR_TIMEOUT :: int where "AT_ERROR_TIMEOUT = -4"
definition AT_ERROR_INVALID_THREAD :: int where "AT_ERROR_INVALID_THREAD = -5"
definition AT_ERROR_INVALID_RESPONSE :: int where "AT_ERROR_INVALID_RESPONSE = -6"

lemmas at_error_defs = AT_ERROR_GENERIC_def AT_ERROR_COMMAND_PENDING_def AT_ERROR_CHANNEL_CLOSED_def
  AT_ERROR_TIMEOUT_def AT_ERROR_INVALID_THREAD_def AT_ERROR_INVALID_RESPONSE_def

section \<open>Time\<close>

text \<open>
  \<open>gettimeofday\<close> gives \<open>tv\<close> as seconds and microseconds, the result is the \<open>timespec\<close>; C division
  truncates towards zero.
\<close>

definition NS_PER_S :: int where "NS_PER_S = 1000000000"

definition setTimespecRelative :: "int \<times> int \<Rightarrow> int \<Rightarrow> int \<times> int" where
  "setTimespecRelative tv msec =
     (let tv_sec = fst tv + msec sdiv 1000;
          tv_nsec = (snd tv + (msec smod 1000) * 1000) * 1000
      in if tv_nsec \<ge> NS_PER_S then (tv_sec + 1, tv_nsec - NS_PER_S) else (tv_sec, tv_nsec))"

text \<open>
  \<open>nanosleep\<close> with its remaining time in nanoseconds: None sleeps to the end, \<open>Some k\<close> is an
  \<open>EINTR\<close> after \<open>k\<close> nanoseconds, which writes the rest back. The result is the time slept.
\<close>

fun nanosleep_loop :: "nat \<Rightarrow> nat option list \<Rightarrow> nat \<Rightarrow> nat outcome" where
  "nanosleep_loop ts [] slept = Blocked"
| "nanosleep_loop ts (None # evs) slept = Ret (slept + ts)"
| "nanosleep_loop ts (Some k # evs) slept = nanosleep_loop (ts - min k ts) evs (slept + min k ts)"

definition sleepMsec :: "nat \<Rightarrow> nat option list \<Rightarrow> nat outcome" where
  "sleepMsec msec evs =
     nanosleep_loop ((msec div 1000) * 1000000000 + (msec mod 1000) * 1000 * 1000) evs 0"

section \<open>Kinds of lines\<close>

definition s_finalResponsesError :: "string list" where
  "s_finalResponsesError = [''ERROR'', ''+CMS ERROR:'', ''+CME ERROR:'', ''NO CARRIER'',
     ''NO ANSWER'', ''NO DIALTONE'']"

definition s_finalResponsesSuccess :: "string list" where
  "s_finalResponsesSuccess = [''OK'', ''CONNECT'']"

definition s_smsUnsoliciteds :: "string list" where
  "s_smsUnsoliciteds = [''+CMT:'', ''+CDS:'', ''+CBM:'']"

definition isFinalResponseError :: "string \<Rightarrow> bool" where
  "isFinalResponseError line = list_ex (strStartsWith line) s_finalResponsesError"

definition isFinalResponseSuccess :: "string \<Rightarrow> bool" where
  "isFinalResponseSuccess line = list_ex (strStartsWith line) s_finalResponsesSuccess"

definition isFinalResponse :: "string \<Rightarrow> bool" where
  "isFinalResponse line = (isFinalResponseSuccess line \<or> isFinalResponseError line)"

definition isSMSUnsolicited :: "string \<Rightarrow> bool" where
  "isSMSUnsolicited line = list_ex (strStartsWith line) s_smsUnsoliciteds"

section \<open>Writing to the modem\<close>

text \<open>The main string: \<open>EINTR\<close> is retried, a short write continues with the rest.\<close>

fun write_main :: "string \<Rightarrow> write_res list \<Rightarrow> string \<Rightarrow> (int \<times> string \<times> write_res list) outcome" where
  "write_main [] ws out = Ret (0, out, ws)"
| "write_main (c # s) [] out = Blocked"
| "write_main (c # s) (WEintr # ws) out = write_main (c # s) ws out"
| "write_main (c # s) (WErr # ws) out = Ret (AT_ERROR_GENERIC, out, ws)"
| "write_main (c # s) (WOk k # ws) out = write_main (drop k (c # s)) ws (out @ take k (c # s))"

text \<open>The terminator: a write of zero bytes is retried too.\<close>

fun write_term :: "char \<Rightarrow> write_res list \<Rightarrow> string \<Rightarrow> (int \<times> string \<times> write_res list) outcome" where
  "write_term t [] out = Blocked"
| "write_term t (WEintr # ws) out = write_term t ws out"
| "write_term t (WErr # ws) out = Ret (AT_ERROR_GENERIC, out, ws)"
| "write_term t (WOk k # ws) out = (if k = 0 then write_term t ws out else Ret (0, out @ [t], ws))"

definition write_with :: "char \<Rightarrow> string \<Rightarrow> at_chan \<Rightarrow> (int \<times> at_chan) outcome" where
  "write_with t s st =
     (if s_fd st < 0 \<or> s_readerClosed st > 0 then Ret (AT_ERROR_CHANNEL_CLOSED, st)
      else obind (write_main s (writes st) (wire st)) (\<lambda>(e, out, ws).
        if e < 0 then Ret (e, st\<lparr>wire := out, writes := ws\<rparr>)
        else obind (write_term t ws out) (\<lambda>(e', out', ws').
          Ret (e', st\<lparr>wire := out', writes := ws'\<rparr>))))"

definition writeline :: "string \<Rightarrow> at_chan \<Rightarrow> (int \<times> at_chan) outcome" where
  "writeline s st = write_with CR s st"

definition writeCtrlZ :: "string \<Rightarrow> at_chan \<Rightarrow> (int \<times> at_chan) outcome" where
  "writeCtrlZ s st = write_with (CHR 0x1A) s st"

section \<open>The reader thread\<close>

definition addIntermediate :: "string \<Rightarrow> at_chan \<Rightarrow> at_chan outcome" where
  "addIntermediate line st = (case sp_response st of
       None \<Rightarrow> Fault NullDeref
     | Some r \<Rightarrow> Ret (st\<lparr>sp_response := Some (r\<lparr>p_intermediates := line # p_intermediates r\<rparr>)\<rparr>))"

definition handleFinalResponse :: "string \<Rightarrow> at_chan \<Rightarrow> at_chan outcome" where
  "handleFinalResponse line st = (case sp_response st of
       None \<Rightarrow> Fault NullDeref
     | Some r \<Rightarrow> Ret (st\<lparr>sp_response := Some (r\<lparr>finalResponse := Some line\<rparr>)\<rparr>))"

definition handleUnsolicited :: "string \<Rightarrow> at_chan \<Rightarrow> at_chan" where
  "handleUnsolicited line st =
     (if s_unsolHandler st then st\<lparr>unsol_log := unsol_log st @ [(line, None)]\<rparr> else st)"

text \<open>\<open>strStartsWith(line, s_responsePrefix)\<close> reads through the prefix pointer.\<close>

definition prefix_match :: "string \<Rightarrow> at_chan \<Rightarrow> bool outcome" where
  "prefix_match line st = (case s_responsePrefix st of
       None \<Rightarrow> Fault NullDeref
     | Some p \<Rightarrow> Ret (strStartsWith line p))"

definition line_by_type :: "string \<Rightarrow> at_response \<Rightarrow> at_chan \<Rightarrow> at_chan outcome" where
  "line_by_type line r st = (case s_type st of
       NO_RESULT \<Rightarrow> Ret (handleUnsolicited line st)
     | NUMERIC \<Rightarrow>
         if p_intermediates r = [] \<and> line \<noteq> [] \<and> isdigit (hd line)
         then addIntermediate line st else Ret (handleUnsolicited line st)
     | SINGLELINE \<Rightarrow>
         if p_intermediates r = []
         then obind (prefix_match line st) (\<lambda>b.
                if b then addIntermediate line st else Ret (handleUnsolicited line st))
         else Ret (handleUnsolicited line st)
     | MULTILINE \<Rightarrow>
         obind (prefix_match line st) (\<lambda>b.
           if b then addIntermediate line st else Ret (handleUnsolicited line st)))"

definition processLine :: "string \<Rightarrow> at_chan \<Rightarrow> at_chan outcome" where
  "processLine line st = (case sp_response st of
       None \<Rightarrow> Ret (handleUnsolicited line st)
     | Some r \<Rightarrow>
         if isFinalResponseSuccess line
         then handleFinalResponse line (st\<lparr>sp_response := Some (r\<lparr>success := 1\<rparr>)\<rparr>)
         else if isFinalResponseError line
         then handleFinalResponse line (st\<lparr>sp_response := Some (r\<lparr>success := 0\<rparr>)\<rparr>)
         else (case s_smsPDU st of
             Some pdu \<Rightarrow>
               if line = ''> ''
               then obind (writeCtrlZ pdu st) (\<lambda>(_, st'). Ret (st'\<lparr>s_smsPDU := None\<rparr>))
               else line_by_type line r st
           | None \<Rightarrow> line_by_type line r st))"

definition onReaderClosed :: "at_chan \<Rightarrow> at_chan" where
  "onReaderClosed st =
     (if s_onReaderClosed st \<and> s_readerClosed st = 0
      then st\<lparr>s_readerClosed := 1, closed_calls := Suc (closed_calls st)\<rparr> else st)"

text \<open>
  \<open>readerLoop\<close> as the sequence of things it does with the lines that \<open>readline\<close> yields before
  it returns NULL: an SMS header takes the next line as its PDU, and a missing second line ends
  the loop like the end of the input.
\<close>

fun readerLoop :: "string list \<Rightarrow> reader_ev list" where
  "readerLoop [] = [ReaderEof]"
| "readerLoop (line # ls) =
     (if isSMSUnsolicited line
      then (case ls of [] \<Rightarrow> [ReaderEof] | line2 # ls' \<Rightarrow> ReaderSms line line2 # readerLoop ls')
      else ReaderLine line # readerLoop ls)"

definition reader_step :: "reader_ev \<Rightarrow> at_chan \<Rightarrow> at_chan outcome" where
  "reader_step e st = (case e of
       ReaderLine line \<Rightarrow> processLine line st
     | ReaderSms line1 line2 \<Rightarrow>
         Ret (if s_unsolHandler st then st\<lparr>unsol_log := unsol_log st @ [(line1, Some line2)]\<rparr> else st)
     | ReaderEof \<Rightarrow> Ret (onReaderClosed st))"

section \<open>The command thread\<close>

definition clearPendingCommand :: "at_chan \<Rightarrow> at_chan" where
  "clearPendingCommand st = st\<lparr>sp_response := None, s_responsePrefix := None, s_smsPDU := None\<rparr>"

definition at_response_new :: at_response where
  "at_response_new = \<lparr>success = 0, finalResponse = None, p_intermediates = []\<rparr>"

text \<open>The pointer loop that flips the list of intermediate responses.\<close>

fun flip_lines :: "string list \<Rightarrow> string list \<Rightarrow> string list" where
  "flip_lines [] acc = acc"
| "flip_lines (pcur # pnext) acc = flip_lines pnext (pcur # acc)"

definition reverseIntermediates :: "at_response \<Rightarrow> at_response" where
  "reverseIntermediates r = r\<lparr>p_intermediates := flip_lines (p_intermediates r) []\<rparr>"

lemma flip_lines_rev: "flip_lines xs acc = rev xs @ acc"
  by (induction xs acc rule: flip_lines.induct) auto

text \<open>The condition of the wait loop; it reads through \<open>sp_response\<close>.\<close>

definition still_waiting :: "at_chan \<Rightarrow> bool outcome" where
  "still_waiting st = (case sp_response st of
       None \<Rightarrow> Fault NullDeref
     | Some r \<Rightarrow> Ret (finalResponse r = None \<and> s_readerClosed st = 0))"

text \<open>
  Inside \<open>pthread_cond_wait\<close>. On \<open>Wake\<close> the loop tests its condition again; an untimed wait
  never times out. The result is \<open>err\<close> and the state after the loop.
\<close>

fun in_wait :: "bool \<Rightarrow> wait_ev list \<Rightarrow> at_chan \<Rightarrow> (int \<times> at_chan) outcome" where
  "in_wait timed [] st = Blocked"
| "in_wait timed (Reader e # es) st = obind (reader_step e st) (in_wait timed es)"
| "in_wait timed (Wake # es) st = obind (still_waiting st) (\<lambda>b.
     if b then in_wait timed es st else Ret (0, st\<lparr>sched := es\<rparr>))"
| "in_wait timed (TimedOut # es) st =
     (if timed then Ret (AT_ERROR_TIMEOUT, st\<lparr>sched := es\<rparr>) else in_wait timed es st)"

definition wait_response :: "bool \<Rightarrow> at_chan \<Rightarrow> (int \<times> at_chan) outcome" where
  "wait_response timed st = obind (still_waiting st) (\<lambda>b.
     if b then in_wait timed (sched st) st else Ret (0, st))"

text \<open>Before the wait: the pending test, the write, and the new pending command. \<open>Some err\<close> is the
  error that jumps to the label \<open>error\<close>.\<close>

definition send_begin :: "string \<Rightarrow> at_type \<Rightarrow> string option \<Rightarrow> string option \<Rightarrow> at_chan
    \<Rightarrow> (int option \<times> at_chan) outcome" where
  "send_begin command ty responsePrefix smspdu st =
     (if sp_response st \<noteq> None then Ret (Some AT_ERROR_COMMAND_PENDING, st)
      else obind (writeline command st) (\<lambda>(err, st1).
        if err < 0 then Ret (Some err, st1)
        else Ret (None, st1\<lparr>s_type := ty, s_responsePrefix := responsePrefix, s_smsPDU := smspdu,
                          sp_response := Some at_response_new\<rparr>)))"

text \<open>After the wait: the response goes to the caller (\<open>want\<close>: \<open>pp_outResponse\<close> is not NULL).\<close>

definition send_end :: "bool \<Rightarrow> at_chan \<Rightarrow> int \<times> at_response option \<times> at_chan" where
  "send_end want st =
     (if s_readerClosed st > 0 then AT_ERROR_CHANNEL_CLOSED else 0,
      if want then map_option reverseIntermediates (sp_response st) else None,
      clearPendingCommand (st\<lparr>sp_response := None\<rparr>))"

definition at_send_command_full_nolock :: "string \<Rightarrow> at_type \<Rightarrow> string option \<Rightarrow> string option \<Rightarrow> int
    \<Rightarrow> bool \<Rightarrow> at_chan \<Rightarrow> (int \<times> at_response option \<times> at_chan) outcome" where
  "at_send_command_full_nolock command ty responsePrefix smspdu timeoutMsec want st =
     obind (send_begin command ty responsePrefix smspdu st) (\<lambda>(e, st1).
       case e of
         Some err \<Rightarrow> Ret (err, None, clearPendingCommand st1)
       | None \<Rightarrow> obind (wait_response (timeoutMsec \<noteq> 0) st1) (\<lambda>(err, st2).
           if err = AT_ERROR_TIMEOUT then Ret (AT_ERROR_TIMEOUT, None, clearPendingCommand st2)
           else Ret (send_end want st2)))"

text \<open>\<open>on_reader\<close>: the calling thread is the reader thread.\<close>

definition at_send_command_full :: "bool \<Rightarrow> string \<Rightarrow> at_type \<Rightarrow> string option \<Rightarrow> string option \<Rightarrow> int
    \<Rightarrow> bool \<Rightarrow> at_chan \<Rightarrow> (int \<times> at_response option \<times> at_chan) outcome" where
  "at_send_command_full on_reader command ty responsePrefix smspdu timeoutMsec want st =
     (if on_reader then Ret (AT_ERROR_INVALID_THREAD, None, st)
      else obind (at_send_command_full_nolock command ty responsePrefix smspdu timeoutMsec want st)
        (\<lambda>(err, resp, st1).
          Ret (err, resp, if err = AT_ERROR_TIMEOUT \<and> s_onTimeout st1
                          then st1\<lparr>timeout_calls := Suc (timeout_calls st1)\<rparr> else st1)))"

definition at_send_command :: "bool \<Rightarrow> string \<Rightarrow> bool \<Rightarrow> at_chan
    \<Rightarrow> (int \<times> at_response option \<times> at_chan) outcome" where
  "at_send_command on_reader command want st =
     at_send_command_full on_reader command NO_RESULT None None 0 want st"

text \<open>The check shared by the wrappers that need an intermediate response.\<close>

definition require_line :: "int \<times> at_response option \<times> at_chan \<Rightarrow> int \<times> at_response option \<times> at_chan" where
  "require_line res = (case res of
       (err, Some r, st) \<Rightarrow>
         if err = 0 \<and> success r > 0 \<and> p_intermediates r = []
         then (AT_ERROR_INVALID_RESPONSE, None, st) else res
     | _ \<Rightarrow> res)"

definition at_send_command_singleline :: "bool \<Rightarrow> string \<Rightarrow> string \<Rightarrow> bool \<Rightarrow> at_chan
    \<Rightarrow> (int \<times> at_response option \<times> at_chan) outcome" where
  "at_send_command_singleline on_reader command responsePrefix want st =
     obind (at_send_command_full on_reader command SINGLELINE (Some responsePrefix) None 0 want st)
       (\<lambda>res. Ret (require_line res))"

definition at_send_command_numeric :: "bool \<Rightarrow> string \<Rightarrow> bool \<Rightarrow> at_chan
    \<Rightarrow> (int \<times> at_response option \<times> at_chan) outcome" where
  "at_send_command_numeric on_reader command want st =
     obind (at_send_command_full on_reader command NUMERIC None None 0 want st)
       (\<lambda>res. Ret (require_line res))"

definition at_send_command_sms :: "bool \<Rightarrow> string \<Rightarrow> string \<Rightarrow> string \<Rightarrow> bool \<Rightarrow> at_chan
    \<Rightarrow> (int \<times> at_response option \<times> at_chan) outcome" where
  "at_send_command_sms on_reader command pdu responsePrefix want st =
     obind (at_send_command_full on_reader command SINGLELINE (Some responsePrefix) (Some pdu) 0 want st)
       (\<lambda>res. Ret (require_line res))"

definition at_send_command_multiline :: "bool \<Rightarrow> string \<Rightarrow> string \<Rightarrow> bool \<Rightarrow> at_chan
    \<Rightarrow> (int \<times> at_response option \<times> at_chan) outcome" where
  "at_send_command_multiline on_reader command responsePrefix want st =
     at_send_command_full on_reader command MULTILINE (Some responsePrefix) None 0 want st"

text \<open>The handshake: at most \<open>HANDSHAKE_RETRY_COUNT\<close> timed attempts.\<close>

definition HANDSHAKE_RETRY_COUNT :: nat where "HANDSHAKE_RETRY_COUNT = 8"
definition HANDSHAKE_TIMEOUT_MSEC :: int where "HANDSHAKE_TIMEOUT_MSEC = 250"

fun handshake_loop :: "nat \<Rightarrow> int \<Rightarrow> at_chan \<Rightarrow> (int \<times> at_chan) outcome" where
  "handshake_loop 0 err st = Ret (err, st)"
| "handshake_loop (Suc i) err st =
     obind (at_send_command_full_nolock ''ATE0Q0V1'' NO_RESULT None None HANDSHAKE_TIMEOUT_MSEC False st)
       (\<lambda>(err', _, st'). if err' = 0 then Ret (0, st') else handshake_loop i err' st')"

definition at_handshake :: "bool \<Rightarrow> at_chan \<Rightarrow> (int \<times> at_chan) outcome" where
  "at_handshake on_reader st =
     (if on_reader then Ret (AT_ERROR_INVALID_THREAD, st)
      else handshake_loop HANDSHAKE_RETRY_COUNT 0 st)"

section \<open>Opening and closing\<close>

text \<open>\<open>rc\<close> is what \<open>pthread_create\<close> returns.\<close>

definition at_open :: "int \<Rightarrow> bool \<Rightarrow> int \<Rightarrow> at_chan \<Rightarrow> int \<times> at_chan" where
  "at_open fd h rc st =
     (if rc < 0 then -1 else 0,
      st\<lparr>s_fd := fd, s_unsolHandler := h, s_readerClosed := 0, s_responsePrefix := None,
         s_smsPDU := None, sp_response := None\<rparr>)"

definition at_close :: "at_chan \<Rightarrow> at_chan" where
  "at_close st = st\<lparr>s_fd := -1, s_readerClosed := 1\<rparr>"

definition at_set_on_timeout :: "bool \<Rightarrow> at_chan \<Rightarrow> at_chan" where
  "at_set_on_timeout cb st = st\<lparr>s_onTimeout := cb\<rparr>"

definition at_set_on_reader_closed :: "bool \<Rightarrow> at_chan \<Rightarrow> at_chan" where
  "at_set_on_reader_closed cb st = st\<lparr>s_onReaderClosed := cb\<rparr>"

section \<open>CME error codes\<close>

definition at_get_cme_error :: "at_response \<Rightarrow> int" where
  "at_get_cme_error r =
     (if success r > 0 then 0
      else case finalResponse r of
          None \<Rightarrow> -1
        | Some f \<Rightarrow>
            if \<not> strStartsWith f ''+CME ERROR:'' then -1
            else (case at_tok_start (Some f) of (err, p) \<Rightarrow>
              if err < 0 then -1
              else (case at_tok_nextint p of (err', v, _) \<Rightarrow>
                if err' < 0 then -1 else (case v of None \<Rightarrow> -1 | Some ret \<Rightarrow> ret))))"

end
