(* ===== verification/AtLines.thy ===== *)
theory AtLines
  imports AtTokMem AtChannel
begin

text \<open>
  The line reader of src/src/modem/at/atchannel.c: \<open>findNextEOL\<close> and \<open>readline\<close> over the bytes of
  \<open>s_ATBuffer\<close>, every access checked against the array. The input is the sequence of results that
  \<open>read\<close> delivers; a result longer than the room that is asked for is delivered in parts.
\<close>

section \<open>The code\<close>

definition MAX_AT_RESPONSE :: nat where "MAX_AT_RESPONSE = 8 * 1024"

record at_buffer =
  s_ATBuffer :: mem
  s_ATBufferCur :: nat

definition at_buffer_start :: at_buffer where
  "at_buffer_start = \<lparr>s_ATBuffer = replicate (MAX_AT_RESPONSE + 1) NUL, s_ATBufferCur = 0\<rparr>"

text \<open>Bytes (none at the end of the input), an interrupted call, or an error.\<close>

datatype read_res = RBytes string | REintr | RErr

text \<open>\<open>do count = read(fd, p, n); while (count < 0 && errno == EINTR)\<close>: the bytes, or None on an
  error. The whole is None when the input has nothing more to say: the call does not return.\<close>

fun read_in :: "nat \<Rightarrow> read_res list \<Rightarrow> (string option \<times> read_res list) option" where
  "read_in n [] = None"
| "read_in n (REintr # r) = read_in n r"
| "read_in n (RErr # r) = Some (None, r)"
| "read_in n (RBytes bs # r) =
     (if length bs \<le> n then Some (Some bs, r) else Some (Some (take n bs), RBytes (drop n bs) # r))"

definition is_nl :: "char \<Rightarrow> bool" where
  "is_nl c = (c = CR \<or> c = LF)"

definition findNextEOL :: "mem \<Rightarrow> nat \<Rightarrow> ptr outcome" where
  "findNextEOL m cur =
     obind (rd m cur) (\<lambda>c0.
     obind (if c0 = CHR ''>'' then rd m (cur + 1) else Ret NUL) (\<lambda>c1.
     obind (if c0 = CHR ''>'' \<and> c1 = CHR '' '' then rd m (cur + 2) else Ret CR) (\<lambda>c2.
       if c0 = CHR ''>'' \<and> c1 = CHR '' '' \<and> c2 = NUL then Ret (Some (cur + 2))
       else obind (scan (\<lambda>c. c \<noteq> CR \<and> c \<noteq> LF) m cur) (\<lambda>i. obind (rd m i) (\<lambda>c.
         Ret (if c = NUL then None else Some i))))))"

text \<open>Leading newlines are skipped and the end of the line is looked for.\<close>

definition skip_and_find :: "mem \<Rightarrow> nat \<Rightarrow> (nat \<times> ptr) outcome" where
  "skip_and_find m cur = obind (scan is_nl m cur) (\<lambda>i. obind (findNextEOL m i) (\<lambda>e. Ret (i, e)))"

text \<open>A full line is in the buffer: the terminator becomes NUL and the line is returned.\<close>

definition line_found :: "mem \<Rightarrow> nat \<Rightarrow> nat \<Rightarrow> (string \<times> at_buffer) outcome" where
  "line_found m cur p_eol = obind (wr m p_eol NUL) (\<lambda>m'. obind (str_at m' cur) (\<lambda>ret.
     Ret (ret, \<lparr>s_ATBuffer = m', s_ATBufferCur = p_eol + 1\<rparr>)))"

text \<open>The bytes of one \<open>read\<close> go to \<open>p_read\<close>, with a NUL behind them.\<close>

definition read_step :: "mem \<Rightarrow> nat \<Rightarrow> nat \<Rightarrow> string \<Rightarrow> (mem \<times> nat \<times> ptr) outcome" where
  "read_step m cur p_read bs =
     obind (mem_fill m p_read bs) (\<lambda>m1. obind (wr m1 (p_read + length bs) NUL) (\<lambda>m2.
     obind (skip_and_find m2 cur) (\<lambda>(cur', e). Ret (m2, cur', e))))"

fun input_size :: "read_res list \<Rightarrow> nat" where
  "input_size [] = 0"
| "input_size (RBytes bs # r) = Suc (length bs) + input_size r"
| "input_size (_ # r) = Suc (input_size r)"

lemma read_in_smaller: "read_in n inp = Some (x, r) \<Longrightarrow> 0 < n \<Longrightarrow> input_size r < input_size inp"
  by (induction n inp rule: read_in.induct) (auto split: if_splits)

text \<open>
  \<open>while (p_eol == NULL)\<close>. When the buffer is full it is thrown away, so there is always room for
  at least one byte, and every turn takes something from the input.
\<close>

function read_loop :: "mem \<Rightarrow> nat \<Rightarrow> nat \<Rightarrow> read_res list
    \<Rightarrow> (string option \<times> at_buffer \<times> read_res list) outcome" where
  "read_loop m cur p_read inp =
     (let full = (MAX_AT_RESPONSE - p_read = 0);
          cur0 = (if full then 0 else cur); p0 = (if full then 0 else p_read)
      in obind (if full then wr m 0 NUL else Ret m) (\<lambda>m0.
      case read_in (MAX_AT_RESPONSE - p0) inp of
        None \<Rightarrow> Blocked
      | Some (None, r) \<Rightarrow> Ret (None, \<lparr>s_ATBuffer = m0, s_ATBufferCur = cur0\<rparr>, r)
      | Some (Some bs, r) \<Rightarrow>
          if bs = [] then Ret (None, \<lparr>s_ATBuffer = m0, s_ATBufferCur = cur0\<rparr>, r)
          else obind (read_step m0 cur0 p0 bs) (\<lambda>(m1, cur1, e). case e of
              None \<Rightarrow> read_loop m1 cur1 (p0 + length bs) r
            | Some p_eol \<Rightarrow> obind (line_found m1 cur1 p_eol) (\<lambda>(ret, b). Ret (Some ret, b, r)))))"
  by pat_completeness auto
termination
  by (relation "measure (\<lambda>(m, cur, p_read, inp). input_size inp)")
     (auto dest!: read_in_smaller simp: MAX_AT_RESPONSE_def)

declare read_loop.simps [simp del]

text \<open>
  \<open>readline\<close>: the line, or None for the NULL of an error or the end of the input. The first
  \<open>memset\<close> of an empty buffer starts at \<open>s_ATBufferCur\<close> and is as long as the whole array.
\<close>

definition readline :: "at_buffer \<Rightarrow> read_res list \<Rightarrow> (string option \<times> at_buffer \<times> read_res list) outcome" where
  "readline b inp = obind (rd (s_ATBuffer b) (s_ATBufferCur b)) (\<lambda>c.
     if c = NUL
     then obind (mem_fill (s_ATBuffer b) (s_ATBufferCur b) (replicate (MAX_AT_RESPONSE + 1) NUL)) (\<lambda>m1.
          obind (mem_fill m1 0 (replicate (MAX_AT_RESPONSE + 1) NUL)) (\<lambda>m2.
          obind (wr m2 0 NUL) (\<lambda>m3. read_loop m3 0 0 inp)))
     else obind (skip_and_find (s_ATBuffer b) (s_ATBufferCur b)) (\<lambda>(cur, e). case e of
            Some p_eol \<Rightarrow> obind (line_found (s_ATBuffer b) cur p_eol) (\<lambda>(ret, b'). Ret (Some ret, b', inp))
          | None \<Rightarrow> obind (str_at (s_ATBuffer b) cur) (\<lambda>s.
              obind (mem_copy (s_ATBuffer b) 0 cur (length s + 1)) (\<lambda>m1.
                read_loop m1 0 (length s) inp))))"

text \<open>\<open>k\<close> calls in a row, as the reader loop makes them.\<close>

fun readlines :: "nat \<Rightarrow> at_buffer \<Rightarrow> read_res list \<Rightarrow> (string list \<times> at_buffer \<times> read_res list) outcome" where
  "readlines 0 b inp = Ret ([], b, inp)"
| "readlines (Suc k) b inp = obind (readline b inp) (\<lambda>(l, b', r). case l of
       None \<Rightarrow> Ret ([], b', r)
     | Some s \<Rightarrow> obind (readlines k b' r) (\<lambda>(ls, b'', r'). Ret (s # ls, b'', r')))"

section \<open>The line reader on strings\<close>

text \<open>The first line of the pending bytes, and what is pending after it. After the SMS prompt the
  cursor stands behind the terminator, and nothing is known of what it points to.\<close>

definition eol_split :: "string \<Rightarrow> (string \<times> string option) option" where
  "eol_split s = (if s = ''> '' then Some (s, None)
     else case dropWhile (\<lambda>c. \<not> is_nl c) s of
         [] \<Rightarrow> None
       | _ # t \<Rightarrow> Some (takeWhile (\<lambda>c. \<not> is_nl c) s, Some t))"

text \<open>\<open>s\<close>: the pending bytes; \<open>p\<close>: how many bytes of the buffer are in use.\<close>

function line_loop :: "string \<Rightarrow> nat \<Rightarrow> read_res list
    \<Rightarrow> (string option \<times> string option \<times> read_res list) outcome" where
  "line_loop s p inp =
     (let full = (MAX_AT_RESPONSE - p = 0); s0 = (if full then [] else s); p0 = (if full then 0 else p)
      in case read_in (MAX_AT_RESPONSE - p0) inp of
        None \<Rightarrow> Blocked
      | Some (None, r) \<Rightarrow> Ret (None, Some s0, r)
      | Some (Some bs, r) \<Rightarrow>
          if bs = [] then Ret (None, Some s0, r)
          else (let s1 = dropWhile is_nl (s0 @ bs) in case eol_split s1 of
              None \<Rightarrow> line_loop s1 (p0 + length bs) r
            | Some (l, t) \<Rightarrow> Ret (Some l, t, r)))"
  by pat_completeness auto
termination
  by (relation "measure (\<lambda>(s, p, inp). input_size inp)")
     (auto dest!: read_in_smaller simp: MAX_AT_RESPONSE_def)

declare line_loop.simps [simp del]

definition next_line :: "string \<Rightarrow> read_res list \<Rightarrow> (string option \<times> string option \<times> read_res list) outcome" where
  "next_line rest inp =
     (if rest = [] then line_loop [] 0 inp
      else let s = dropWhile is_nl rest in case eol_split s of
          Some (l, t) \<Rightarrow> Ret (Some l, t, inp)
        | None \<Rightarrow> line_loop s (length s) inp)"

section \<open>Refinement\<close>

lemma nul_not_nl [simp]: "\<not> is_nl NUL"
  by (simp add: is_nl_def)

lemma scan_nl: "scan (\<lambda>c. c \<noteq> CR \<and> c \<noteq> LF) = scan (\<lambda>c. \<not> is_nl c)"
  by (simp add: is_nl_def)

lemma scan_eol:
  assumes "holds_at m i s"
  shows "obind (scan (\<lambda>c. \<not> is_nl c) m i) (\<lambda>i. obind (rd m i) (\<lambda>c. Ret (if c = NUL then None else Some i)))
    = Ret (if dropWhile (\<lambda>c. \<not> is_nl c) s = [] then None else Some (i + length (takeWhile (\<lambda>c. \<not> is_nl c) s)))"
proof -
  note rest = scan_holds_rest [OF assms, of "\<lambda>c. \<not> is_nl c"]
  show ?thesis
  proof (cases "dropWhile (\<lambda>c. \<not> is_nl c) s")
    case Nil
    with holds_at_rd [OF rest] scan_holds [OF assms] show ?thesis by simp
  next
    case (Cons c t)
    from Cons holds_at_Cons [of m "i + length (takeWhile (\<lambda>c. \<not> is_nl c) s)" c t] rest
    have "c \<noteq> NUL" by simp
    with Cons holds_at_rd [OF rest] scan_holds [OF assms] show ?thesis by simp
  qed
qed

lemma findNextEOL_holds:
  assumes "holds_at m i s"
  shows "findNextEOL m i = Ret (map_option (\<lambda>(l, t). i + length l) (eol_split s))"
proof -
  note e = scan_eol [OF assms]
  have e': "obind (scan (\<lambda>c. c \<noteq> CR \<and> c \<noteq> LF) m i) (\<lambda>i. obind (rd m i) (\<lambda>c. Ret (if c = NUL then None else Some i)))
    = Ret (if s = ''> '' then None else map_option (\<lambda>(l, t). i + length l) (eol_split s))"
  proof (cases "s = ''> ''")
    case True
    then have "dropWhile (\<lambda>c. \<not> is_nl c) s = []" by (simp add: is_nl_def)
    with True show ?thesis unfolding scan_nl e by simp
  next
    case False
    then show ?thesis unfolding scan_nl e
      by (cases "dropWhile (\<lambda>c. \<not> is_nl c) s") (simp_all add: eol_split_def del: dropWhile_eq_Nil_conv)
  qed
  show ?thesis
  proof (cases "\<exists>r. s = CHR ''>'' # r")
    case True
    then obtain r where s: "s = CHR ''>'' # r" by blast
    note h1 = holds_at_rd [OF assms] holds_at_Cons [OF assms [unfolded s]]
    then have h2: "holds_at m (Suc i) r" by simp
    show ?thesis
    proof (cases "\<exists>q. r = CHR '' '' # q")
      case True
      then obtain q where r: "r = CHR '' '' # q" by blast
      have h3: "holds_at m (Suc (Suc i)) q" using h2 r holds_at_Cons by blast
      note rds = h1 holds_at_rd [OF h2] holds_at_rd [OF h3]
      have n: "q \<noteq> [] \<Longrightarrow> hd q \<noteq> NUL" using h3 by (cases q) (auto simp: holds_at_def)
      show ?thesis
        using rds n e' by (auto simp: findNextEOL_def s r eol_split_def)
    next
      case False
      have "r \<noteq> [] \<Longrightarrow> hd r \<noteq> CHR '' ''" using False by (cases r) auto
      then show ?thesis
        using h1 holds_at_rd [OF h2] e' False by (auto simp: findNextEOL_def s split: if_splits)
    qed
  next
    case False
    then have "s \<noteq> [] \<Longrightarrow> hd s \<noteq> CHR ''>''" by (cases s) auto
    then show ?thesis
      using holds_at_rd [OF assms] e' False by (auto simp: findNextEOL_def)
  qed
qed

lemma skip_and_find_holds:
  assumes "holds_at m i s"
  shows "\<exists>j. skip_and_find m i = Ret (j, map_option (\<lambda>(l, t). j + length l) (eol_split (dropWhile is_nl s)))
    \<and> holds_at m j (dropWhile is_nl s) \<and> j + length (dropWhile is_nl s) = i + length s"
proof -
  note rest = scan_holds_rest [OF assms, of is_nl]
  have "length s = length (takeWhile is_nl s) + length (dropWhile is_nl s)"
    by (metis length_append takeWhile_dropWhile_id)
  then show ?thesis
    using rest findNextEOL_holds [OF rest] scan_holds [OF assms, of is_nl]
    by (simp add: skip_and_find_def)
qed

text \<open>The buffer after a call: as long as before, with the pending bytes at the cursor.\<close>

definition buf_holds :: "at_buffer \<Rightarrow> string option \<Rightarrow> bool" where
  "buf_holds b t = (length (s_ATBuffer b) = MAX_AT_RESPONSE + 1
     \<and> (\<forall>s. t = Some s \<longrightarrow> holds_at (s_ATBuffer b) (s_ATBufferCur b) s))"

lemma line_found_holds:
  assumes "holds_at m i s" "eol_split s = Some (l, t)" "length m = MAX_AT_RESPONSE + 1"
  shows "\<exists>b. line_found m i (i + length l) = Ret (l, b) \<and> buf_holds b t
    \<and> (t \<noteq> None \<longrightarrow> s_ATBufferCur b \<noteq> 0)"
proof (cases "s = ''> ''")
  case True
  then have l: "l = ''> ''" "t = None" using assms(2) by (auto simp: eol_split_def)
  have n: "holds_at m (i + 2) []" using holds_at_drop [of m i s "[]"] assms(1) True by simp
  have "m[i + 2 := NUL] = m" using holds_at_Nil [OF n] by (metis list_update_id)
  then show ?thesis
    using holds_at_Nil [OF n] str_at_holds [OF assms(1)] assms(3) True l
    by (simp add: line_found_def wr_def buf_holds_def)
next
  case False
  then obtain c u where d: "dropWhile (\<lambda>c. \<not> is_nl c) s = c # u" "t = Some u"
    "l = takeWhile (\<lambda>c. \<not> is_nl c) s"
    using assms(2) by (auto simp: eol_split_def split: list.splits)
  then have s: "s = l @ c # u" by (metis takeWhile_dropWhile_id)
  note cut = holds_at_cut [OF assms(1) [unfolded s]]
  have "i + length l < length m" using assms(1) s by (auto simp: holds_at_iff)
  then show ?thesis
    using cut str_at_holds [OF cut(1)] assms(3) d by (simp add: line_found_def wr_def buf_holds_def)
qed

lemma mem_fill_holds:
  assumes "holds_at m i s" "i + length s = p" "p + length bs < length m" "NUL \<notin> set bs"
  shows "\<exists>m1 m2. mem_fill m p bs = Ret m1 \<and> wr m1 (p + length bs) NUL = Ret m2 \<and> holds_at m2 i (s @ bs)
    \<and> length m2 = length m"
proof -
  obtain pre post where m: "m = pre @ s @ NUL # post" "length pre = i" "NUL \<notin> set s"
    using assms(1) holds_at_iff by blast
  let ?m1 = "take p m @ bs @ drop (p + length bs) m"
  have t: "take p m = pre @ s" using m assms(2) by simp
  have d: "drop (p + length bs) m \<noteq> []" using assms(3) by simp
  then obtain x xs where x: "drop (p + length bs) m = x # xs" by (cases "drop (p + length bs) m") auto
  have l1: "length ?m1 = length m" using assms(3) by simp
  have l: "p + length bs = length (pre @ s @ bs)" using m(2) assms(2) by simp
  have e: "?m1 = (pre @ s @ bs) @ x # xs" unfolding t x by simp
  have "?m1[p + length bs := NUL] = ((pre @ s @ bs) @ x # xs)[length (pre @ s @ bs) := NUL]"
    by (rule arg_cong2 [OF e l, of "\<lambda>a b. a[b := NUL]"])
  then have u: "?m1[p + length bs := NUL] = pre @ (s @ bs) @ NUL # xs"
    unfolding list_update_length by simp
  have "holds_at (?m1[p + length bs := NUL]) i (s @ bs)"
    unfolding u holds_at_iff using m assms(4) by auto
  then show ?thesis using assms(3) l1
    by (intro exI [of _ ?m1] exI [of _ "?m1[p + length bs := NUL]"]) (simp add: mem_fill_def wr_def)
qed

definition clean_input :: "read_res list \<Rightarrow> bool" where
  "clean_input inp = (\<forall>bs. RBytes bs \<in> set inp \<longrightarrow> NUL \<notin> set bs)"

lemma clean_input_Cons [simp]:
  "clean_input (RBytes bs # r) \<longleftrightarrow> NUL \<notin> set bs \<and> clean_input r"
  "clean_input (REintr # r) \<longleftrightarrow> clean_input r" "clean_input (RErr # r) \<longleftrightarrow> clean_input r" "clean_input []"
  by (auto simp: clean_input_def)

lemma read_in_clean:
  "read_in n inp = Some (x, r) \<Longrightarrow> clean_input inp \<Longrightarrow> clean_input r \<and>
     (case x of None \<Rightarrow> True | Some bs \<Rightarrow> NUL \<notin> set bs \<and> length bs \<le> n)"
proof (induction n inp rule: read_in.induct)
  case (4 n bs r)
  then show ?case by (auto split: if_splits dest: in_set_takeD in_set_dropD)
qed auto

definition loop_rel where
  "loop_rel a c = (case a of
       Blocked \<Rightarrow> c = Blocked
     | Fault f \<Rightarrow> False
     | Ret (l, t, r) \<Rightarrow> clean_input r \<and> (\<exists>b. c = Ret (l, b, r) \<and> buf_holds b t
         \<and> (l \<noteq> None \<and> t \<noteq> None \<longrightarrow> s_ATBufferCur b \<noteq> 0)))"

text \<open>Both loops first make room when the buffer is full, then read.\<close>

lemma loops_unfold:
  assumes "holds_at m cur s" "cur + length s = p" "p \<le> MAX_AT_RESPONSE" "length m = MAX_AT_RESPONSE + 1"
  defines "s0 \<equiv> (if MAX_AT_RESPONSE - p = 0 then [] else s)"
  defines "p0 \<equiv> (if MAX_AT_RESPONSE - p = 0 then 0 else p)"
  obtains m0 cur0 where "holds_at m0 cur0 s0" "length m0 = MAX_AT_RESPONSE + 1" "cur0 + length s0 = p0" "p0 < MAX_AT_RESPONSE"
    "line_loop s p inp = (case read_in (MAX_AT_RESPONSE - p0) inp of
        None \<Rightarrow> Blocked
      | Some (None, r) \<Rightarrow> Ret (None, Some s0, r)
      | Some (Some bs, r) \<Rightarrow>
          if bs = [] then Ret (None, Some s0, r)
          else (let s1 = dropWhile is_nl (s0 @ bs) in case eol_split s1 of
              None \<Rightarrow> line_loop s1 (p0 + length bs) r
            | Some (l, t) \<Rightarrow> Ret (Some l, t, r)))"
    "read_loop m cur p inp = (case read_in (MAX_AT_RESPONSE - p0) inp of
        None \<Rightarrow> Blocked
      | Some (None, r) \<Rightarrow> Ret (None, \<lparr>s_ATBuffer = m0, s_ATBufferCur = cur0\<rparr>, r)
      | Some (Some bs, r) \<Rightarrow>
          if bs = [] then Ret (None, \<lparr>s_ATBuffer = m0, s_ATBufferCur = cur0\<rparr>, r)
          else obind (read_step m0 cur0 p0 bs) (\<lambda>(m1, cur1, e). case e of
              None \<Rightarrow> read_loop m1 cur1 (p0 + length bs) r
            | Some p_eol \<Rightarrow> obind (line_found m1 cur1 p_eol) (\<lambda>(ret, b). Ret (Some ret, b, r))))"
proof -
  define full where "full = (MAX_AT_RESPONSE - p = 0)"
  define cur0 where "cur0 = (if full then 0 else cur)"
  define m0 where "m0 = (if full then m[0 := NUL] else m)"
  note folds = full_def [symmetric] p0_def [folded full_def, symmetric] s0_def [folded full_def, symmetric] cur0_def [symmetric]
  have m0: "(if full then wr m 0 NUL else Ret m) = Ret m0" "length m0 = MAX_AT_RESPONSE + 1"
    using assms by (simp_all add: m0_def wr_def)
  obtain x xs where "m = x # xs" using assms(4) by (cases m) auto
  then have h0: "holds_at m0 cur0 s0" using assms(1) by (auto simp: m0_def cur0_def s0_def full_def holds_at_def)
  have p0: "cur0 + length s0 = p0" "p0 < MAX_AT_RESPONSE"
    using assms(2,3) by (auto simp: s0_def p0_def cur0_def full_def MAX_AT_RESPONSE_def)
  show thesis
    by (rule that [OF h0 m0(2) p0]; (subst line_loop.simps | subst read_loop.simps); simp only: Let_def folds m0(1) obind.simps)
qed

text \<open>What is read goes behind the text, and the end of the line is looked for.\<close>

lemma read_step_holds:
  assumes "holds_at m cur s" "cur + length s = p" "length m = MAX_AT_RESPONSE + 1" "p + length bs \<le> MAX_AT_RESPONSE" "NUL \<notin> set bs"
  defines "s1 \<equiv> dropWhile is_nl (s @ bs)"
  obtains m2 j where "read_step m cur p bs = Ret (m2, j, map_option (\<lambda>(l, t). j + length l) (eol_split s1))"
    "holds_at m2 j s1" "j + length s1 = p + length bs" "length m2 = MAX_AT_RESPONSE + 1"
proof -
  have "p + length bs < length m" using assms(3,4) by simp
  then obtain m1 m2 where fill: "mem_fill m p bs = Ret m1" "wr m1 (p + length bs) NUL = Ret m2"
    "holds_at m2 cur (s @ bs)" "length m2 = MAX_AT_RESPONSE + 1"
    using mem_fill_holds [OF assms(1,2), of bs] assms(3,5) by auto
  obtain j where j: "skip_and_find m2 cur = Ret (j, map_option (\<lambda>(l, t). j + length l) (eol_split s1))"
    "holds_at m2 j s1" "j + length s1 = p + length bs"
    using skip_and_find_holds [OF fill(3)] assms(2) by (auto simp: s1_def)
  show thesis by (rule that [OF _ j(2,3) fill(4)]) (use fill(1,2) j(1) in \<open>simp add: read_step_def\<close>)
qed

lemma read_loop_refines:
  "holds_at m cur s \<Longrightarrow> cur + length s = p \<Longrightarrow> p \<le> MAX_AT_RESPONSE \<Longrightarrow> length m = MAX_AT_RESPONSE + 1
   \<Longrightarrow> clean_input inp \<Longrightarrow> loop_rel (line_loop s p inp) (read_loop m cur p inp)"
proof (induction s p inp arbitrary: m cur rule: line_loop.induct)
  case (1 s p inp)
  define s0 where "s0 = (if MAX_AT_RESPONSE - p = 0 then [] else s)"
  define p0 where "p0 = (if MAX_AT_RESPONSE - p = 0 then 0 else p)"
  obtain m0 cur0 where h0: "holds_at m0 cur0 s0" "length m0 = MAX_AT_RESPONSE + 1" "cur0 + length s0 = p0" "p0 < MAX_AT_RESPONSE"
    and L: "line_loop s p inp = (case read_in (MAX_AT_RESPONSE - p0) inp of None \<Rightarrow> Blocked | Some (None, r) \<Rightarrow> Ret (None, Some s0, r)
      | Some (Some bs, r) \<Rightarrow> if bs = [] then Ret (None, Some s0, r)
          else (let s1 = dropWhile is_nl (s0 @ bs) in case eol_split s1 of
              None \<Rightarrow> line_loop s1 (p0 + length bs) r | Some (l, t) \<Rightarrow> Ret (Some l, t, r)))"
    and R: "read_loop m cur p inp = (case read_in (MAX_AT_RESPONSE - p0) inp of None \<Rightarrow> Blocked
      | Some (None, r) \<Rightarrow> Ret (None, \<lparr>s_ATBuffer = m0, s_ATBufferCur = cur0\<rparr>, r)
      | Some (Some bs, r) \<Rightarrow> if bs = [] then Ret (None, \<lparr>s_ATBuffer = m0, s_ATBufferCur = cur0\<rparr>, r)
          else obind (read_step m0 cur0 p0 bs) (\<lambda>(m1, cur1, e). case e of
              None \<Rightarrow> read_loop m1 cur1 (p0 + length bs) r
            | Some p_eol \<Rightarrow> obind (line_found m1 cur1 p_eol) (\<lambda>(ret, b). Ret (Some ret, b, r))))"
    by (rule loops_unfold [OF 1(2-5), of inp, folded s0_def p0_def])
  have b0: "buf_holds \<lparr>s_ATBuffer = m0, s_ATBufferCur = cur0\<rparr> (Some s0)" using h0 by (simp add: buf_holds_def)
  show ?case
  proof (cases "read_in (MAX_AT_RESPONSE - p0) inp")
    case None
    with L R show ?thesis by (simp add: loop_rel_def)
  next
    case (Some y)
    obtain x r where y: "y = (x, r)" by fastforce
    note rc = read_in_clean [OF Some [unfolded y] 1(6)]
    show ?thesis
    proof (cases "x = None \<or> x = Some []")
      case True
      with L R Some y b0 rc show ?thesis by (auto simp: loop_rel_def)
    next
      case False
      then obtain bs where bs: "x = Some bs" "bs \<noteq> []" by auto
      let ?s1 = "dropWhile is_nl (s0 @ bs)"
      have le: "p0 + length bs \<le> MAX_AT_RESPONSE" "NUL \<notin> set bs" using rc bs(1) h0(4) by auto
      obtain m2 j where step: "read_step m0 cur0 p0 bs = Ret (m2, j, map_option (\<lambda>(l, t). j + length l) (eol_split ?s1))"
        and j: "holds_at m2 j ?s1" "j + length ?s1 = p0 + length bs" "length m2 = MAX_AT_RESPONSE + 1"
        by (rule read_step_holds [OF h0(1,3,2) le])
      show ?thesis
      proof (cases "eol_split ?s1")
        case None
        have "loop_rel (line_loop ?s1 (p0 + length bs) r) (read_loop m2 j (p0 + length bs) r)"
          using 1(1) [OF refl s0_def p0_def Some y [symmetric] bs(1,2) refl None j(1,2) le(1) j(3)] rc by blast
        with L R Some y bs step None show ?thesis by (simp add: Let_def)
      next
        case c: (Some z)
        obtain l t where z: "z = (l, t)" by fastforce
        obtain b where "line_found m2 j (j + length l) = Ret (l, b)" "buf_holds b t" "t \<noteq> None \<longrightarrow> s_ATBufferCur b \<noteq> 0"
          using line_found_holds [OF j(1) c [unfolded z] j(3)] by blast
        with L R Some y bs step c z rc show ?thesis by (simp add: Let_def loop_rel_def)
      qed
    qed
  qed
qed

lemma str_at_len: "holds_at m i s \<Longrightarrow> i + length s < length m"
  by (auto simp: holds_at_iff)

lemma mem_copy_holds:
  assumes "holds_at m i s"
  shows "\<exists>m'. mem_copy m 0 i (length s + 1) = Ret m' \<and> holds_at m' 0 s \<and> length m' = length m"
proof -
  obtain pre post where m: "m = pre @ s @ NUL # post" "length pre = i" "NUL \<notin> set s"
    using assms holds_at_iff by blast
  then have t: "take (length s + 1) (drop i m) = s @ [NUL]" by simp
  have "mem_copy m 0 i (length s + 1) = Ret ((s @ [NUL]) @ drop (length s + 1) m)"
    using t m by (simp add: mem_copy_def mem_fill_def)
  moreover have "holds_at ((s @ [NUL]) @ drop (length s + 1) m) 0 s" using m(3) by (simp add: holds_at_def)
  moreover have "length ((s @ [NUL]) @ drop (length s + 1) m) = length m" using str_at_len [OF assms] by simp
  ultimately show ?thesis by blast
qed

lemma mem_clear: "length m = n \<Longrightarrow> mem_fill m 0 (replicate n NUL) = Ret (replicate n NUL)"
  by (simp add: mem_fill_def)

lemma holds_at_clear: "0 < n \<Longrightarrow> holds_at (replicate n NUL) 0 []"
  by (cases n) (auto simp: holds_at_def)

lemma readline_refines:
  assumes "buf_holds b (Some rest)" "rest = [] \<Longrightarrow> s_ATBufferCur b = 0" "clean_input inp"
  shows "loop_rel (next_line rest inp) (readline b inp)"
proof -
  let ?m = "s_ATBuffer b" and ?i = "s_ATBufferCur b"
  have h: "holds_at ?m ?i rest" and len: "length ?m = MAX_AT_RESPONSE + 1"
    using assms(1) by (simp_all add: buf_holds_def)
  show ?thesis
  proof (cases "rest = []")
    case True
    let ?z = "replicate (MAX_AT_RESPONSE + 1) NUL"
    have z: "mem_fill ?m ?i ?z = Ret ?z" "mem_fill ?z 0 ?z = Ret ?z" "wr ?z 0 NUL = Ret ?z"
      using assms(2) [OF True] mem_clear [OF len] mem_clear [of ?z]
      by (simp_all add: wr_def del: replicate.simps) (simp add: replicate_Suc)
    have "rd ?m ?i = Ret NUL" using holds_at_rd [OF h] True by simp
    then have "readline b inp = read_loop ?z 0 0 inp" using z by (simp add: readline_def)
    moreover have "loop_rel (line_loop [] 0 inp) (read_loop ?z 0 0 inp)"
      by (rule read_loop_refines) (use assms(3) holds_at_clear [of "MAX_AT_RESPONSE + 1"] in simp_all)
    ultimately show ?thesis using True by (simp add: next_line_def)
  next
    case False
    let ?s = "dropWhile is_nl rest"
    obtain c q where c: "rest = c # q" using False by (cases rest) auto
    then have "rd ?m ?i = Ret c" "c \<noteq> NUL" using h holds_at_rd [OF h] holds_at_Cons by auto
    obtain j where j: "skip_and_find ?m ?i = Ret (j, map_option (\<lambda>(l, t). j + length l) (eol_split ?s))"
      "holds_at ?m j ?s" using skip_and_find_holds [OF h] by blast
    note start = \<open>rd ?m ?i = Ret c\<close> \<open>c \<noteq> NUL\<close> j(1)
    show ?thesis
    proof (cases "eol_split ?s")
      case None
      obtain m' where m': "mem_copy ?m 0 j (length ?s + 1) = Ret m'" "holds_at m' 0 ?s" "length m' = MAX_AT_RESPONSE + 1"
        using mem_copy_holds [OF j(2)] len by auto
      have "length ?s \<le> MAX_AT_RESPONSE" using str_at_len [OF m'(2)] m'(3) by simp
      then have "loop_rel (line_loop ?s (length ?s) inp) (read_loop m' 0 (length ?s) inp)"
        using read_loop_refines [OF m'(2) _ _ m'(3) assms(3)] by simp
      moreover have "readline b inp = read_loop m' 0 (length ?s) inp"
        using start None str_at_holds [OF j(2)] m'(1) by (simp add: readline_def)
      ultimately show ?thesis using False None by (simp add: next_line_def Let_def)
    next
      case (Some z)
      obtain l t where z: "z = (l, t)" by fastforce
      obtain b' where "line_found ?m j (j + length l) = Ret (l, b')" "buf_holds b' t"
        "t \<noteq> None \<longrightarrow> s_ATBufferCur b' \<noteq> 0"
        using line_found_holds [OF j(2) Some [unfolded z] len] by blast
      then show ?thesis
        using start Some z False assms(3) by (simp add: readline_def next_line_def Let_def loop_rel_def)
    qed
  qed
qed

lemma readline_overrun:
  assumes "buf_holds b (Some [])" "s_ATBufferCur b \<noteq> 0"
  shows "readline b inp = Fault OutOfBounds"
proof -
  have h: "holds_at (s_ATBuffer b) (s_ATBufferCur b) []" "length (s_ATBuffer b) = MAX_AT_RESPONSE + 1"
    using assms(1) by (simp_all add: buf_holds_def)
  then show ?thesis using assms(2) holds_at_rd [OF h(1)]
    by (simp add: readline_def mem_fill_def)
qed

section \<open>Lines of a stream\<close>

fun input_bytes :: "read_res list \<Rightarrow> string" where
  "input_bytes [] = []"
| "input_bytes (RBytes bs # r) = bs @ input_bytes r"
| "input_bytes (_ # r) = input_bytes r"

text \<open>An input without errors and without an end.\<close>

definition plain_input :: "read_res list \<Rightarrow> bool" where
  "plain_input inp = (\<forall>x \<in> set inp. x \<noteq> RErr \<and> x \<noteq> RBytes [])"

definition stream_split :: "string \<Rightarrow> (string \<times> string) option" where
  "stream_split S = (case dropWhile (\<lambda>c. \<not> is_nl c) (dropWhile is_nl S) of
       [] \<Rightarrow> None
     | _ # T \<Rightarrow> Some (takeWhile (\<lambda>c. \<not> is_nl c) (dropWhile is_nl S), T))"

lemma stream_splitD:
  assumes "stream_split S = Some (l, T)"
  obtains c where "dropWhile is_nl S = l @ c # T" "is_nl c" "\<forall>x \<in> set l. \<not> is_nl x" "l \<noteq> []"
proof -
  obtain c where c: "dropWhile (\<lambda>c. \<not> is_nl c) (dropWhile is_nl S) = c # T"
    "l = takeWhile (\<lambda>c. \<not> is_nl c) (dropWhile is_nl S)"
    using assms by (auto simp: stream_split_def split: list.splits)
  then have e: "dropWhile is_nl S = l @ c # T" by (metis takeWhile_dropWhile_id)
  have n: "is_nl c" using hd_dropWhile [of "\<lambda>c. \<not> is_nl c" "dropWhile is_nl S"] c(1) by simp
  moreover have "l \<noteq> []" using hd_dropWhile [of is_nl S] e n by auto
  moreover have "\<forall>x \<in> set l. \<not> is_nl x" using c(2) by (auto dest: set_takeWhileD)
  ultimately show ?thesis using that e by blast
qed

lemma read_in_plain:
  "plain_input inp \<Longrightarrow> input_bytes inp \<noteq> [] \<Longrightarrow> 0 < n \<Longrightarrow>
   \<exists>bs r. read_in n inp = Some (Some bs, r) \<and> bs \<noteq> [] \<and> bs @ input_bytes r = input_bytes inp \<and> plain_input r"
proof (induction n inp rule: read_in.induct)
  case (4 n bs r)
  have "bs \<noteq> []" using 4 by (auto simp: plain_input_def)
  with 4 show ?case by (auto simp: plain_input_def)
qed (auto simp: plain_input_def)

lemma dropWhile_append_cases:
  "dropWhile P (a @ b) = (if dropWhile P a = [] then dropWhile P b else dropWhile P a @ b)"
  by (induction a) auto

lemma drop_nl_again: "dropWhile is_nl (dropWhile is_nl a @ b) = dropWhile is_nl (a @ b)"
  by (simp add: dropWhile_append_cases)

lemma drop_nl_idem: "dropWhile is_nl (dropWhile is_nl a) = dropWhile is_nl a"
  by (induction a) auto

definition no_nl :: "string \<Rightarrow> bool" where
  "no_nl l = (\<forall>x \<in> set l. \<not> is_nl x)"

lemma cut_line:
  assumes "no_nl l" "is_nl c"
  shows "takeWhile (\<lambda>c. \<not> is_nl c) (l @ c # T) = l" "dropWhile (\<lambda>c. \<not> is_nl c) (l @ c # T) = c # T"
  using assms by (induction l) (auto simp: no_nl_def)

lemma line_unique:
  assumes "no_nl l" "is_nl c" "no_nl l'" "is_nl c'" "l @ c # T = l' @ c' # T'"
  shows "l = l'" "T = T'"
  using cut_line [OF assms(1,2), of T] cut_line [OF assms(3,4), of T'] assms(5) by simp_all

text \<open>The terminator of a line whose pending part has none is still to come.\<close>

lemma line_ahead:
  assumes "no_nl s" "dropWhile is_nl (s @ b) = l @ c # T" "is_nl c" "no_nl l"
  shows "length T < length b"
proof (cases "s = []")
  case True
  then have "length (l @ c # T) \<le> length b" using assms(2) length_dropWhile_le [of is_nl b] by simp
  then show ?thesis by simp
next
  case False
  then obtain x q where "s = x # q" by (cases s) auto
  then have e: "s @ b = l @ c # T" using assms(1,2) by (simp add: no_nl_def)
  have "takeWhile (\<lambda>c. \<not> is_nl c) (s @ b) = s @ takeWhile (\<lambda>c. \<not> is_nl c) b"
    using assms(1) by (auto simp: no_nl_def takeWhile_append2)
  then have "length s \<le> length l" using cut_line(1) [OF assms(4,3), of T] e by simp
  then show ?thesis using arg_cong [OF e, of length] by simp
qed

lemma eol_split_None: "eol_split s = None \<Longrightarrow> no_nl s"
  by (auto simp: eol_split_def no_nl_def split: if_splits list.splits)

lemma eol_split_line:
  assumes "dropWhile is_nl (s1 @ b) = l @ c # T" "dropWhile is_nl s1 = s1" "is_nl c" "no_nl l"
    "\<not> starts_with l ''> ''" "eol_split s1 = Some (l', t)"
  shows "l' = l \<and> (\<exists>t'. t = Some t' \<and> t' @ b = T)"
proof -
  have ne: "s1 \<noteq> []" using assms(6) by (auto simp: eol_split_def)
  then have e: "s1 @ b = l @ c # T" using assms(1,2) by (simp add: dropWhile_append_cases)
  have "s1 \<noteq> ''> ''"
  proof
    assume "s1 = ''> ''"
    with e assms(3,5) show False
      by (cases l rule: remdups_adj.cases) (auto simp: starts_with_def is_nl_def)
  qed
  then obtain x u where u: "dropWhile (\<lambda>c. \<not> is_nl c) s1 = x # u" "l' = takeWhile (\<lambda>c. \<not> is_nl c) s1" "t = Some u"
    using assms(6) by (auto simp: eol_split_def split: list.splits)
  have "s1 = l' @ x # u" using u by (metis takeWhile_dropWhile_id)
  moreover have "is_nl x" using hd_dropWhile [of "\<lambda>c. \<not> is_nl c" s1] u(1) by simp
  moreover have "no_nl l'" using u(2) by (auto simp: no_nl_def dest: set_takeWhileD)
  ultimately show ?thesis using line_unique [of l c l' x T "u @ b"] assms(3,4) e u(3) by simp
qed

text \<open>A line that lies in the pending bytes and the coming input, and fits, is the next line,
  however the input is cut.\<close>

lemma line_loop_stream:
  "plain_input inp \<Longrightarrow> dropWhile is_nl s = s \<Longrightarrow> eol_split s = None \<Longrightarrow>
   dropWhile is_nl (s @ input_bytes inp) = l @ c # T \<Longrightarrow> is_nl c \<Longrightarrow> no_nl l \<Longrightarrow>
   \<not> starts_with l ''> '' \<Longrightarrow> p + length (input_bytes inp) \<le> MAX_AT_RESPONSE + length T \<Longrightarrow>
   \<exists>t r. line_loop s p inp = Ret (Some l, Some t, r) \<and> t @ input_bytes r = T \<and> plain_input r"
proof (induction s p inp rule: line_loop.induct)
  case (1 s p inp)
  note prem = "1.prems"
  have ahead: "length T < length (input_bytes inp)"
    by (rule line_ahead [OF eol_split_None [OF prem(3)] prem(4,5,6)])
  then have p: "(MAX_AT_RESPONSE - p = 0) = False" using prem(8) by simp
  have "input_bytes inp \<noteq> []" "0 < MAX_AT_RESPONSE - p" using ahead p by auto
  from read_in_plain [OF prem(1) this] obtain bs r where r: "read_in (MAX_AT_RESPONSE - p) inp = Some (Some bs, r)"
    "bs \<noteq> []" "bs @ input_bytes r = input_bytes inp" "plain_input r" by blast
  let ?s1 = "dropWhile is_nl (s @ bs)"
  have s1: "dropWhile is_nl (?s1 @ input_bytes r) = l @ c # T" "dropWhile is_nl ?s1 = ?s1"
    using prem(4) r(3) by (simp_all add: drop_nl_again drop_nl_idem)
  have L: "line_loop s p inp = (case eol_split ?s1 of
      None \<Rightarrow> line_loop ?s1 (p + length bs) r | Some (l, t) \<Rightarrow> Ret (Some l, t, r))"
    using r(1,2) p by (subst line_loop.simps) (simp add: Let_def)
  show ?case
  proof (cases "eol_split ?s1")
    case None
    have "p + length bs + length (input_bytes r) \<le> MAX_AT_RESPONSE + length T"
      using prem(8) r(3) by (metis add.assoc length_append)
    then show ?thesis
      using 1(1) [OF refl refl refl, unfolded p if_False, OF r(1) refl refl r(2) refl None r(4) s1(2) None s1(1) prem(5-7)]
      unfolding L None by simp
  next
    case (Some z)
    then obtain l' t where z: "eol_split ?s1 = Some (l', t)" by fastforce
    from eol_split_line [OF s1 prem(5,6,7) z] r(4) show ?thesis unfolding L z by auto
  qed
qed

lemma next_line_stream:
  assumes "plain_input inp" "stream_split (rest @ input_bytes inp) = Some (l, T)"
    "\<not> starts_with l ''> ''" "length rest + length (input_bytes inp) \<le> MAX_AT_RESPONSE + length T"
  shows "\<exists>t r. next_line rest inp = Ret (Some l, Some t, r) \<and> t @ input_bytes r = T \<and> plain_input r"
proof -
  obtain c where c: "dropWhile is_nl (rest @ input_bytes inp) = l @ c # T" "is_nl c" "no_nl l"
    using stream_splitD [OF assms(2)] by (auto simp: no_nl_def)
  show ?thesis
  proof (cases "rest = []")
    case True
    with line_loop_stream [OF assms(1) _ _ _ c(2,3) assms(3), of "[]" T 0] c(1) assms(4) show ?thesis
      by (simp add: next_line_def eol_split_def)
  next
    case False
    let ?s = "dropWhile is_nl rest"
    have s: "dropWhile is_nl (?s @ input_bytes inp) = l @ c # T" using c(1) by (simp add: drop_nl_again)
    show ?thesis
    proof (cases "eol_split ?s")
      case None
      have "length ?s + length (input_bytes inp) \<le> MAX_AT_RESPONSE + length T"
        using assms(4) length_dropWhile_le [of is_nl rest] by linarith
      from line_loop_stream [OF assms(1) drop_nl_idem None s c(2,3) assms(3) this] False None
      show ?thesis by (simp add: next_line_def Let_def)
    next
      case (Some z)
      obtain l' t where z: "z = (l', t)" by fastforce
      from eol_split_line [OF s drop_nl_idem c(2,3) assms(3) Some [unfolded z]] False Some z assms(1)
      show ?thesis by (auto simp: next_line_def)
    qed
  qed
qed

text \<open>The first \<open>k\<close> lines of a stream of bytes and what follows them.\<close>

fun stream_lines :: "nat \<Rightarrow> string \<Rightarrow> (string list \<times> string) option" where
  "stream_lines 0 S = Some ([], S)"
| "stream_lines (Suc k) S = (case stream_split S of
       None \<Rightarrow> None
     | Some (l, T) \<Rightarrow> map_option (\<lambda>(ls, U). (l # ls, U)) (stream_lines k T))"

text \<open>Each of them, with the newlines around it, fits the buffer, and none looks like the prompt.\<close>

fun stream_ok :: "nat \<Rightarrow> string \<Rightarrow> bool" where
  "stream_ok 0 S = True"
| "stream_ok (Suc k) S = (case stream_split S of
       None \<Rightarrow> True
     | Some (l, T) \<Rightarrow> \<not> starts_with l ''> '' \<and> length S \<le> MAX_AT_RESPONSE + length T \<and> stream_ok k T)"

lemma readline_stream:
  assumes "buf_holds b (Some rest)" "rest = [] \<Longrightarrow> s_ATBufferCur b = 0" "clean_input inp" "plain_input inp"
    "stream_split (rest @ input_bytes inp) = Some (l, T)" "\<not> starts_with l ''> ''"
    "length (rest @ input_bytes inp) \<le> MAX_AT_RESPONSE + length T"
  shows "\<exists>b' t r. readline b inp = Ret (Some l, b', r) \<and> next_line rest inp = Ret (Some l, Some t, r)
    \<and> buf_holds b' (Some t) \<and> s_ATBufferCur b' \<noteq> 0 \<and> t @ input_bytes r = T \<and> clean_input r \<and> plain_input r"
proof -
  have "length rest + length (input_bytes inp) \<le> MAX_AT_RESPONSE + length T" using assms(7) by simp
  from next_line_stream [OF assms(4-6) this] obtain t r where
    t: "next_line rest inp = Ret (Some l, Some t, r)" "t @ input_bytes r = T" "plain_input r" by blast
  from readline_refines [OF assms(1-3)] t show ?thesis by (auto simp: loop_rel_def)
qed

lemma readlines_stream:
  "buf_holds b (Some rest) \<Longrightarrow> (rest = [] \<Longrightarrow> s_ATBufferCur b = 0) \<Longrightarrow> clean_input inp \<Longrightarrow> plain_input inp \<Longrightarrow>
   stream_lines k (rest @ input_bytes inp) = Some (ls, T) \<Longrightarrow> stream_ok k (rest @ input_bytes inp) \<Longrightarrow>
   readlines k b inp = Fault OutOfBounds \<or> (\<exists>b' r t. readlines k b inp = Ret (ls, b', r)
     \<and> buf_holds b' (Some t) \<and> t @ input_bytes r = T)"
proof (induction k arbitrary: b rest inp ls)
  case 0
  then show ?case by auto
next
  case (Suc k)
  obtain l T1 ls1 where l: "stream_split (rest @ input_bytes inp) = Some (l, T1)"
    "stream_lines k T1 = Some (ls1, T)" "ls = l # ls1"
    using Suc.prems(5) by (auto split: option.splits)
  have ok: "\<not> starts_with l ''> ''" "length (rest @ input_bytes inp) \<le> MAX_AT_RESPONSE + length T1" "stream_ok k T1"
    using Suc.prems(6) l(1) by auto
  from readline_stream [OF Suc.prems(1-4) l(1) ok(1,2)] obtain b' t r where
    r: "readline b inp = Ret (Some l, b', r)" "buf_holds b' (Some t)" "s_ATBufferCur b' \<noteq> 0"
    "t @ input_bytes r = T1" "clean_input r" "plain_input r" by blast
  show ?case
  proof (cases "t = []")
    case True
    with r(2,3) have "readline b' r = Fault OutOfBounds" by (auto intro: readline_overrun)
    with r l True show ?thesis by (cases k) auto
  next
    case False
    from Suc.IH [OF r(2) _ r(5,6), of ls1] False r(4) l(2) ok(3) have
      "readlines k b' r = Fault OutOfBounds \<or> (\<exists>b'' r' t'. readlines k b' r = Ret (ls1, b'', r')
        \<and> buf_holds b'' (Some t') \<and> t' @ input_bytes r' = T)" by simp
    with r(1) l(3) show ?thesis by auto
  qed
qed

section \<open>Answers that end with a carriage return and a line feed\<close>

definition ends_crlf :: "string \<Rightarrow> bool" where
  "ends_crlf s = (s = [LF] \<or> (\<exists>x. s = x @ [CR, LF]))"

definition framed :: "string \<Rightarrow> bool" where
  "framed c = ((\<exists>x. c = x @ [CR, LF]) \<and> dropWhile is_nl c \<noteq> [] \<and> NUL \<notin> set c \<and> length c \<le> MAX_AT_RESPONSE)"

lemma eol_split_crlf:
  assumes "eol_split s = Some (l, Some t)" "s = y @ [CR, LF]"
  shows "ends_crlf t"
proof -
  obtain x where x: "dropWhile (\<lambda>c. \<not> is_nl c) s = x # t" "l = takeWhile (\<lambda>c. \<not> is_nl c) s"
    using assms(1) by (auto simp: eol_split_def split: if_splits list.splits)
  have n: "no_nl l" using x(2) by (auto simp: no_nl_def dest: set_takeWhileD)
  have "s = l @ x # t" using x by (metis takeWhile_dropWhile_id)
  with assms(2) have e: "l @ x # t = (y @ [CR]) @ [LF]" by simp
  show ?thesis
  proof (cases t rule: rev_cases)
    case Nil
    with e have "l = y @ [CR]" by simp
    with n show ?thesis by (simp add: no_nl_def is_nl_def)
  next
    case (snoc u a)
    with e have "(l @ x # u) @ [a] = (y @ [CR]) @ [LF]" by simp
    then have a: "a = LF" "l @ x # u = y @ [CR]" by (simp_all only: append1_eq_conv)
    show ?thesis
    proof (cases u rule: rev_cases)
      case (snoc v b)
      with a(2) have "(l @ x # v) @ [b] = y @ [CR]" by simp
      then have "b = CR" by (simp only: append1_eq_conv)
      with snoc a \<open>t = u @ [a]\<close> show ?thesis by (simp add: ends_crlf_def)
    qed (simp add: ends_crlf_def a \<open>t = u @ [a]\<close>)
  qed
qed

lemma drop_crlf: "dropWhile is_nl (x @ [CR, LF]) \<noteq> [] \<Longrightarrow> \<exists>y. dropWhile is_nl (x @ [CR, LF]) = y @ [CR, LF]"
  by (auto simp: dropWhile_append_cases is_nl_def split: if_splits)

lemma framed_call:
  assumes "rest = [] \<or> ends_crlf rest" "\<forall>c \<in> set cs. framed c"
    and "next_line rest (map RBytes cs) = Ret (Some l, Some t, r)"
  shows "ends_crlf t \<and> (\<exists>cs'. r = map RBytes cs' \<and> set cs' \<subseteq> set cs)"
proof -
  have loop: ?thesis if l: "line_loop [] 0 (map RBytes cs) = Ret (Some l, Some t, r)"
  proof (cases cs)
    case Nil
    with l show ?thesis by (subst (asm) line_loop.simps) simp
  next
    case (Cons c cs')
    then have f: "framed c" using assms(2) by simp
    then obtain x where x: "c = x @ [CR, LF]" "length c \<le> MAX_AT_RESPONSE" "dropWhile is_nl c \<noteq> []"
      unfolding framed_def by blast
    then obtain y where y: "dropWhile is_nl c = y @ [CR, LF]" using drop_crlf by blast
    have "\<not> no_nl (y @ [CR, LF])" by (simp add: no_nl_def is_nl_def)
    then obtain z where z: "eol_split (dropWhile is_nl c) = Some z" using y eol_split_None by fastforce
    have "z = (l, Some t) \<and> r = map RBytes cs'"
      using l Cons x z by (subst (asm) line_loop.simps) (auto simp: Let_def MAX_AT_RESPONSE_def split: prod.splits)
    with eol_split_crlf [OF _ y] z Cons show ?thesis by auto
  qed
  show ?thesis
  proof (cases "dropWhile is_nl rest = []")
    case True
    then have "next_line rest (map RBytes cs) = line_loop [] 0 (map RBytes cs)"
      by (simp add: next_line_def eol_split_def del: dropWhile_eq_Nil_conv)
    with assms(3) show ?thesis by (intro loop) metis
  next
    case False
    then obtain x where "rest = x @ [CR, LF]" using assms(1) by (auto simp: ends_crlf_def is_nl_def)
    then obtain y where y: "dropWhile is_nl rest = y @ [CR, LF]" using drop_crlf False by metis
    have "\<not> no_nl (y @ [CR, LF])" by (simp add: no_nl_def is_nl_def)
    then obtain z where z: "eol_split (dropWhile is_nl rest) = Some z" using y eol_split_None by fastforce
    then have "z = (l, Some t) \<and> r = map RBytes cs"
      using assms(3) False by (auto simp: next_line_def split: if_splits prod.splits)
    with eol_split_crlf [OF _ y] z show ?thesis by auto
  qed
qed

lemma readlines_framed:
  "buf_holds b (Some rest) \<Longrightarrow> (rest = [] \<and> s_ATBufferCur b = 0) \<or> ends_crlf rest \<Longrightarrow> \<forall>c \<in> set cs. framed c \<Longrightarrow>
   stream_lines k (rest @ concat cs) = Some (ls, T) \<Longrightarrow> stream_ok k (rest @ concat cs) \<Longrightarrow>
   \<exists>b' r. readlines k b (map RBytes cs) = Ret (ls, b', r)"
proof (induction k arbitrary: b rest cs ls)
  case (Suc k)
  have cs: "clean_input (map RBytes cs)" "plain_input (map RBytes cs)" "input_bytes (map RBytes cs) = concat cs"
    using Suc.prems(3) by (induction cs) (auto simp: framed_def plain_input_def no_nl_def)
  obtain l T1 ls1 where l: "stream_split (rest @ concat cs) = Some (l, T1)"
    "stream_lines k T1 = Some (ls1, T)" "ls = l # ls1"
    using Suc.prems(4) by (auto split: option.splits)
  have ok: "\<not> starts_with l ''> ''" "length (rest @ concat cs) \<le> MAX_AT_RESPONSE + length T1" "stream_ok k T1"
    using Suc.prems(5) l(1) by auto
  have rest: "rest = [] \<Longrightarrow> s_ATBufferCur b = 0" using Suc.prems(2) by (auto simp: ends_crlf_def)
  obtain b' t r where r: "readline b (map RBytes cs) = Ret (Some l, b', r)"
    "next_line rest (map RBytes cs) = Ret (Some l, Some t, r)" "buf_holds b' (Some t)" "t @ input_bytes r = T1"
    using readline_stream [OF Suc.prems(1) rest cs(1,2), of l T1] cs(3) l(1) ok(1,2) by auto
  obtain cs' where c: "ends_crlf t" "r = map RBytes cs'" "set cs' \<subseteq> set cs"
    using framed_call [OF _ Suc.prems(3) r(2)] Suc.prems(2) by blast
  have "input_bytes (map RBytes cs') = concat cs'" by (induction cs') auto
  then have "t @ concat cs' = T1" using r(4) c(2) by simp
  with Suc.IH [OF r(3), of cs' ls1] c Suc.prems(3) l(2) ok(3) obtain b'' r' where
    "readlines k b' r = Ret (ls1, b'', r')" by auto
  with r(1) l(3) show ?case by simp
qed auto

section \<open>Properties\<close>

text \<open>
  C9: \<open>readline\<close> over the bytes of the buffer does what the reader on strings does: on input
  without NUL bytes, from a buffer that holds the pending bytes at its cursor, it makes no access
  outside the array, returns the same line or NULL, leaves the same input, and the buffer holds
  what is pending then. The exception is the call that \<open>readline_memset_overrun\<close> is about.
\<close>

theorem readline_refines_strings:
  assumes "buf_holds b (Some rest)" "rest \<noteq> [] \<or> s_ATBufferCur b = 0" "clean_input inp"
  shows "case next_line rest inp of
      Blocked \<Rightarrow> readline b inp = Blocked
    | Fault f \<Rightarrow> False
    | Ret (l, t, r) \<Rightarrow> \<exists>b'. readline b inp = Ret (l, b', r) \<and> buf_holds b' t"
  using readline_refines [OF assms(1) _ assms(3)] assms(2)
  by (auto simp: loop_rel_def split: outcome.splits prod.splits)

lemma start_holds: "buf_holds at_buffer_start (Some [])" "s_ATBufferCur at_buffer_start = 0"
  by (simp_all add: buf_holds_def at_buffer_start_def holds_at_def)

theorem readline_refines_strings_witness:
  "case next_line [] [RBytes ''OK'', RBytes [CR, LF]] of
      Blocked \<Rightarrow> readline at_buffer_start [RBytes ''OK'', RBytes [CR, LF]] = Blocked
    | Fault f \<Rightarrow> False
    | Ret (l, t, r) \<Rightarrow> \<exists>b'. readline at_buffer_start [RBytes ''OK'', RBytes [CR, LF]] = Ret (l, b', r)
        \<and> buf_holds b' t"
  by (rule readline_refines_strings) (simp_all add: start_holds)

text \<open>
  C10: however the bytes of the modem are cut into \<open>read\<close> results, interrupted or not, the first \<open>k\<close>
  calls return exactly the first \<open>k\<close> lines of the stream and lose nothing of the rest, or a call
  runs over the end of the array (theorem \<open>readline_memset_overrun\<close>); no other line is ever
  returned. Lines that do not fit the buffer and the SMS prompt are excluded.
\<close>

theorem readlines_chunk_independent:
  assumes "clean_input inp" "plain_input inp"
    and "stream_lines k (input_bytes inp) = Some (ls, T)" "stream_ok k (input_bytes inp)"
  shows "readlines k at_buffer_start inp = Fault OutOfBounds
    \<or> (\<exists>b' r t. readlines k at_buffer_start inp = Ret (ls, b', r) \<and> buf_holds b' (Some t) \<and> t @ input_bytes r = T)"
  using readlines_stream [OF start_holds(1) start_holds(2) assms(1,2)] assms(3,4) by simp

theorem readlines_chunk_independent_witness:
  "readlines 2 at_buffer_start [RBytes ''O'', REintr, RBytes (''K'' @ [CR, LF] @ ''RI''), RBytes (''NG'' @ [CR, LF])]
     = Fault OutOfBounds
   \<or> (\<exists>b' r t. readlines 2 at_buffer_start [RBytes ''O'', REintr, RBytes (''K'' @ [CR, LF] @ ''RI''), RBytes (''NG'' @ [CR, LF])]
        = Ret ([''OK'', ''RING''], b', r) \<and> buf_holds b' (Some t) \<and> t @ input_bytes r = [LF])"
  by (rule readlines_chunk_independent)
     (simp_all add: plain_input_def stream_split_def is_nl_def numeral_2_eq_2 starts_with_def MAX_AT_RESPONSE_def)

text \<open>
  When every \<open>read\<close> delivers whole answers, each at most as long as the buffer, with some text
  and with CR LF at its end, the calls return all lines of the stream and never leave the array.
\<close>

theorem readlines_whole_answers:
  assumes "\<forall>c \<in> set cs. framed c" "stream_lines k (concat cs) = Some (ls, T)" "stream_ok k (concat cs)"
  shows "\<exists>b' r. readlines k at_buffer_start (map RBytes cs) = Ret (ls, b', r)"
  using readlines_framed [OF start_holds(1) _ assms(1)] start_holds(2) assms(2,3) by simp

text \<open>
  C11: a line whose terminator is the last byte that has arrived is returned, and the next call
  clears \<open>MAX_AT_RESPONSE + 1\<close> bytes from the middle of the array, beyond its end. A CR LF that
  is cut between its two bytes is enough.
\<close>

theorem readline_memset_overrun:
  assumes "no_nl l" "l \<noteq> []" "NUL \<notin> set l" "\<not> starts_with l ''> ''" "length l < MAX_AT_RESPONSE"
    and "clean_input inp"
  shows "\<exists>b. readline at_buffer_start (RBytes (l @ [CR]) # inp) = Ret (Some l, b, inp)
    \<and> (\<forall>inp'. readline b inp' = Fault OutOfBounds)"
proof -
  have nl: "is_nl CR" by (simp add: is_nl_def)
  obtain x q where "l = x # q" using assms(2) by (cases l) auto
  then have d: "dropWhile is_nl (l @ [CR]) = l @ [CR]" using assms(1) by (simp add: no_nl_def)
  have "l @ [CR] \<noteq> ''> ''" using nl by (auto simp: append_eq_Cons_conv)
  then have e: "eol_split (l @ [CR]) = Some (l, Some [])"
    using cut_line [OF assms(1) nl, of "[]"] by (simp add: eol_split_def)
  have n: "next_line [] (RBytes (l @ [CR]) # inp) = Ret (Some l, Some [], inp)"
    using assms(5) d e by (simp add: next_line_def) (subst line_loop.simps, simp add: Let_def MAX_AT_RESPONSE_def)
  have c: "clean_input (RBytes (l @ [CR]) # inp)" using assms(3,6) by simp
  obtain b where "readline at_buffer_start (RBytes (l @ [CR]) # inp) = Ret (Some l, b, inp)"
    "buf_holds b (Some [])" "s_ATBufferCur b \<noteq> 0"
    using readline_refines [OF start_holds(1) start_holds(2) c] by (auto simp: n loop_rel_def)
  then show ?thesis using readline_overrun by blast
qed

theorem readline_memset_overrun_witness:
  "\<exists>b. readline at_buffer_start (RBytes (''OK'' @ [CR]) # [RBytes [LF]]) = Ret (Some ''OK'', b, [RBytes [LF]])
    \<and> (\<forall>inp'. readline b inp' = Fault OutOfBounds)"
  by (rule readline_memset_overrun)
     (simp_all add: no_nl_def is_nl_def starts_with_def MAX_AT_RESPONSE_def)

section \<open>The bytes behind the prompt\<close>

lemma list_update_Cons_numeral: "(x # xs)[numeral v := y] = x # xs[pred_numeral v := y]"
  by (simp add: numeral_eq_Suc)

lemmas run_simps = read_step_def mem_fill_def wr_def skip_and_find_def findNextEOL_def rd_def
  line_found_def str_at_def is_nl_def MAX_AT_RESPONSE_def mem_copy_def list_update_Cons_numeral

lemma prompt_run:
  assumes "length xs = 8182"
  shows "read_loop ([NUL, NUL, NUL, NUL, NUL, NUL, NUL, NUL, NUL, NUL, NUL] @ xs) 0 0 (RBytes (''ABCDEF'' @ [CR, LF]) # inp)
    = Ret (Some ''ABCDEF'', \<lparr>s_ATBuffer = ''ABCDEF'' @ [NUL, LF, NUL, NUL, NUL] @ xs, s_ATBufferCur = 7\<rparr>, inp)"
  and "readline \<lparr>s_ATBuffer = ''ABCDEF'' @ [NUL, LF, NUL, NUL, NUL] @ xs, s_ATBufferCur = 7\<rparr> (RBytes ''> '' # inp)
    = Ret (Some ''> '', \<lparr>s_ATBuffer = ''> '' @ [NUL] @ ''DEF'' @ [NUL, LF, NUL, NUL, NUL] @ xs, s_ATBufferCur = 3\<rparr>, inp)"
  and "\<exists>b. readline \<lparr>s_ATBuffer = ''> '' @ [NUL] @ ''DEF'' @ [NUL, LF, NUL, NUL, NUL] @ xs, s_ATBufferCur = 3\<rparr>
      (RBytes (CR # LF # ''OK'' @ [CR, LF]) # inp) = Ret (Some ''DEF'', b, inp)"
  using assms
  by ((subst read_loop.simps)?, (simp add: readline_def)?, (subst read_loop.simps)?, simp add: run_simps scan.simps)+

lemma start_call:
  defines "z \<equiv> replicate (MAX_AT_RESPONSE + 1) NUL"
  shows "readline at_buffer_start inp = read_loop z 0 0 inp"
proof -
  have len: "length z = MAX_AT_RESPONSE + 1" unfolding z_def by (rule length_replicate)
  have f: "mem_fill z 0 z = Ret z" using mem_clear [OF len] unfolding z_def .
  have n: "z ! 0 = NUL" unfolding z_def by (rule nth_replicate) simp
  have u: "z[0 := NUL] = z" using list_update_id [of z 0] n by metis
  have "0 < length z" using len by simp
  then have "rd z 0 = Ret NUL" "wr z 0 NUL = Ret z" by (simp_all only: rd_def wr_def n u if_True)
  with f show ?thesis
    unfolding readline_def at_buffer_start_def z_def [symmetric] by simp
qed

text \<open>
  After the SMS prompt the cursor stands one byte behind the terminator, on bytes of an
  earlier line: here the third call returns the tail of the first line once more, a line that
  the modem did not send.
\<close>

theorem prompt_replays_old_bytes:
  "\<exists>b. readlines 3 at_buffer_start [RBytes (''ABCDEF'' @ [CR, LF]), RBytes ''> '', RBytes ([CR, LF] @ ''OK'' @ [CR, LF])]
     = Ret ([''ABCDEF'', ''> '', ''DEF''], b, [])"
proof -
  have "replicate 11 NUL = [NUL, NUL, NUL, NUL, NUL, NUL, NUL, NUL, NUL, NUL, NUL]" by (simp add: numeral_eq_Suc)
  moreover have "MAX_AT_RESPONSE + 1 = 11 + 8182" by (simp add: MAX_AT_RESPONSE_def)
  ultimately have z: "replicate (MAX_AT_RESPONSE + 1) NUL = [NUL, NUL, NUL, NUL, NUL, NUL, NUL, NUL, NUL, NUL, NUL] @ replicate 8182 NUL"
    by (metis replicate_add)
  note run = prompt_run [of "replicate 8182 NUL", OF length_replicate]
  obtain b where "readline \<lparr>s_ATBuffer = ''> '' @ [NUL] @ ''DEF'' @ [NUL, LF, NUL, NUL, NUL] @ replicate 8182 NUL, s_ATBufferCur = 3\<rparr>
      [RBytes (CR # LF # ''OK'' @ [CR, LF])] = Ret (Some ''DEF'', b, [])"
    using run(3) by blast
  then show ?thesis
    using run(1) [folded z] run(2)
    by (simp only: numeral_3_eq_3 readlines.simps start_call obind.simps prod.case option.case append.simps) simp
qed

end
