(* ===== verification/AtChannelLemmas.thy ===== *)
theory AtChannelLemmas
  imports AtChannel
begin

text \<open>
  What theory AtChannel guarantees: framing of the bytes on the wire, the invariant of the
  pending command under every action of the reader, what a command returns for a given
  sequence of lines, and the laws the modem code relies on.
\<close>

named_theorems chan_simps \<open>one-step facts about the channel\<close>

section \<open>Framing\<close>

lemma write_main_Ret:
  "write_main s ws out = Ret (e, out', ws') \<Longrightarrow>
     (e = 0 \<and> out' = out @ s) \<or> (e = AT_ERROR_GENERIC \<and> (\<exists>k \<le> length s. out' = out @ take k s))"
proof (induction s ws out rule: write_main.induct)
  case (4 c s ws out)
  then show ?case by (auto intro: exI [of _ 0])
next
  case (5 c s k ws out)
  then consider "e = 0" "out' = (out @ take k (c # s)) @ drop k (c # s)"
    | j where "e = AT_ERROR_GENERIC" "out' = (out @ take k (c # s)) @ take j (drop k (c # s))"
    by auto
  then show ?case
  proof cases
    case 1
    then show ?thesis by (metis append.assoc append_take_drop_id)
  next
    case 2
    have "out' = out @ take (k + j) (c # s)" using 2 by (simp add: take_add)
    moreover have "take (k + j) (c # s) = take (min (k + j) (length (c # s))) (c # s)"
      by (simp add: min_def)
    ultimately show ?thesis using 2 by (metis min.cobounded2)
  qed
qed auto

lemma write_term_Ret:
  "write_term t ws out = Ret (e, out', ws') \<Longrightarrow>
     (e = 0 \<and> out' = out @ [t]) \<or> (e = AT_ERROR_GENERIC \<and> out' = out)"
  by (induction t ws out rule: write_term.induct) (auto split: if_splits)

text \<open>The fields that a write leaves alone: all but the wire and the coming write results.\<close>

definition same_but_wire :: "at_chan \<Rightarrow> at_chan \<Rightarrow> bool" where
  "same_but_wire st st' = (st' = st\<lparr>wire := wire st', writes := writes st'\<rparr>)"

lemma same_but_wireD:
  assumes "same_but_wire st st'"
  shows "sp_response st' = sp_response st" "s_type st' = s_type st"
    "s_responsePrefix st' = s_responsePrefix st" "s_smsPDU st' = s_smsPDU st"
    "s_readerClosed st' = s_readerClosed st" "unsol_log st' = unsol_log st" "sched st' = sched st"
    "s_fd st' = s_fd st" "s_unsolHandler st' = s_unsolHandler st"
    "s_onReaderClosed st' = s_onReaderClosed st" "s_onTimeout st' = s_onTimeout st"
  by (subst assms [unfolded same_but_wire_def], simp)+

lemma write_with_Ret:
  assumes "write_with t s st = Ret (e, st')"
  shows "same_but_wire st st'"
    and "(e = 0 \<and> wire st' = wire st @ s @ [t])
      \<or> (e = AT_ERROR_GENERIC \<and> (\<exists>k \<le> length s. wire st' = wire st @ take k s))
      \<or> (e = AT_ERROR_CHANNEL_CLOSED \<and> st' = st \<and> (s_fd st < 0 \<or> s_readerClosed st > 0))"
proof -
  have "same_but_wire st st' \<and> ((e = 0 \<and> wire st' = wire st @ s @ [t])
      \<or> (e = AT_ERROR_GENERIC \<and> (\<exists>k \<le> length s. wire st' = wire st @ take k s))
      \<or> (e = AT_ERROR_CHANNEL_CLOSED \<and> st' = st \<and> (s_fd st < 0 \<or> s_readerClosed st > 0)))"
  proof (cases "s_fd st < 0 \<or> s_readerClosed st > 0")
    case True
    with assms show ?thesis by (simp add: write_with_def same_but_wire_def)
  next
    case False
    with assms obtain e1 o1 w1 where m: "write_main s (writes st) (wire st) = Ret (e1, o1, w1)"
      and r: "(if e1 < 0 then Ret (e1, st\<lparr>wire := o1, writes := w1\<rparr>)
        else obind (write_term t w1 o1) (\<lambda>(e', out', ws').
          Ret (e', st\<lparr>wire := out', writes := ws'\<rparr>))) = Ret (e, st')"
      by (auto simp: write_with_def obind_eq_Ret)
    show ?thesis
    proof (cases "e1 < 0")
      case True
      with r write_main_Ret [OF m] show ?thesis by (auto simp: same_but_wire_def)
    next
      case False
      with r obtain o2 w2 where t: "write_term t w1 o1 = Ret (e, o2, w2)"
        and st': "st' = st\<lparr>wire := o2, writes := w2\<rparr>" by (auto simp: obind_eq_Ret)
      from False write_main_Ret [OF m] have o1: "o1 = wire st @ s" by (auto simp: AT_ERROR_GENERIC_def)
      from write_term_Ret [OF t] st' o1 show ?thesis
        by (auto simp: same_but_wire_def intro: exI [of _ "length s"])
    qed
  qed
  then show "same_but_wire st st'"
    "(e = 0 \<and> wire st' = wire st @ s @ [t])
      \<or> (e = AT_ERROR_GENERIC \<and> (\<exists>k \<le> length s. wire st' = wire st @ take k s))
      \<or> (e = AT_ERROR_CHANNEL_CLOSED \<and> st' = st \<and> (s_fd st < 0 \<or> s_readerClosed st > 0))"
    by blast+
qed

lemma write_with_no_fault: "write_with t s st \<noteq> Fault f"
proof -
  have "write_main s ws out \<noteq> Fault f" for s ws out
    by (induction s ws out rule: write_main.induct) auto
  moreover have "write_term t ws out \<noteq> Fault f" for t ws out
    by (induction t ws out rule: write_term.induct) auto
  ultimately show ?thesis
    by (auto simp: write_with_def outcome_simps)
qed

section \<open>The invariant of the pending command\<close>

text \<open>
  What the intermediate responses of a pending command look like, by the type of the command,
  and how \<open>success\<close> and \<open>finalResponse\<close> go together.
\<close>

definition pending_ok :: "at_type \<Rightarrow> string option \<Rightarrow> string list \<Rightarrow> bool" where
  "pending_ok ty pre ls = (case ty of
       NO_RESULT \<Rightarrow> ls = []
     | NUMERIC \<Rightarrow> length ls \<le> 1 \<and> (\<forall>l \<in> set ls. l \<noteq> [] \<and> isdigit (hd l))
     | SINGLELINE \<Rightarrow> length ls \<le> 1 \<and> pre \<noteq> None \<and> (\<forall>l \<in> set ls. \<exists>p. pre = Some p \<and> strStartsWith l p)
     | MULTILINE \<Rightarrow> pre \<noteq> None \<and> (\<forall>l \<in> set ls. \<exists>p. pre = Some p \<and> strStartsWith l p))"

definition final_ok :: "at_response \<Rightarrow> bool" where
  "final_ok r = (case finalResponse r of
       None \<Rightarrow> success r = 0
     | Some f \<Rightarrow> isFinalResponse f \<and> success r = (if isFinalResponseSuccess f then 1 else 0))"

definition chan_inv :: "at_chan \<Rightarrow> bool" where
  "chan_inv st = (case sp_response st of
       None \<Rightarrow> True
     | Some r \<Rightarrow> pending_ok (s_type st) (s_responsePrefix st) (p_intermediates r) \<and> final_ok r)"

definition chan_idle :: "at_chan \<Rightarrow> bool" where
  "chan_idle st = (sp_response st = None)"

lemma chan_inv_idle [simp]: "chan_idle st \<Longrightarrow> chan_inv st"
  by (simp add: chan_inv_def chan_idle_def)

text \<open>What a reader action keeps of the pending command: its kind and that it is pending.\<close>

definition same_command :: "at_chan \<Rightarrow> at_chan \<Rightarrow> bool" where
  "same_command st st' = (s_type st' = s_type st \<and> s_responsePrefix st' = s_responsePrefix st
     \<and> (sp_response st' = None \<longleftrightarrow> sp_response st = None) \<and> s_readerClosed st \<le> s_readerClosed st')"

lemma same_command_refl [simp]: "same_command st st"
  by (simp add: same_command_def)

lemma same_command_trans: "same_command a b \<Longrightarrow> same_command b c \<Longrightarrow> same_command a c"
  by (simp add: same_command_def)

lemma handleUnsolicited_keeps [chan_simps]:
  "sp_response (handleUnsolicited l st) = sp_response st"
  "s_type (handleUnsolicited l st) = s_type st"
  "s_responsePrefix (handleUnsolicited l st) = s_responsePrefix st"
  "s_readerClosed (handleUnsolicited l st) = s_readerClosed st"
  by (simp_all add: handleUnsolicited_def)

lemma onReaderClosed_keeps [chan_simps]:
  "sp_response (onReaderClosed st) = sp_response st"
  "s_type (onReaderClosed st) = s_type st"
  "s_responsePrefix (onReaderClosed st) = s_responsePrefix st"
  "s_readerClosed st \<le> s_readerClosed (onReaderClosed st)"
  by (simp_all add: onReaderClosed_def)

lemma chan_inv_cong:
  "sp_response a = sp_response b \<Longrightarrow> s_type a = s_type b \<Longrightarrow> s_responsePrefix a = s_responsePrefix b
    \<Longrightarrow> chan_inv a \<longleftrightarrow> chan_inv b"
  by (auto simp: chan_inv_def split: option.splits)

lemma final_ok_lines [simp]: "final_ok (r\<lparr>p_intermediates := ls\<rparr>) \<longleftrightarrow> final_ok r"
  by (auto simp: final_ok_def split: option.splits)

lemma handleUnsolicited_step: "chan_inv st \<Longrightarrow> chan_inv (handleUnsolicited l st) \<and> same_command st (handleUnsolicited l st)"
  using chan_inv_cong [of st "handleUnsolicited l st"] by (simp add: same_command_def chan_simps)

lemma line_by_type_step:
  assumes "chan_inv st" "sp_response st = Some r"
  shows "\<exists>st'. line_by_type l r st = Ret st' \<and> chan_inv st' \<and> same_command st st'"
proof -
  have u: "chan_inv (handleUnsolicited l st) \<and> same_command st (handleUnsolicited l st)"
    by (rule handleUnsolicited_step [OF assms(1)])
  have ok: "pending_ok (s_type st) (s_responsePrefix st) (p_intermediates r)" "final_ok r"
    using assms by (simp_all add: chan_inv_def)
  show ?thesis
    using ok u assms(2)
    by (cases "s_type st"; cases "s_responsePrefix st")
       (auto simp: line_by_type_def prefix_match_def addIntermediate_def pending_ok_def
          chan_inv_def same_command_def)
qed

lemma isFinal_exclusive: "isFinalResponseError l \<Longrightarrow> \<not> isFinalResponseSuccess l"
  by (auto simp: isFinalResponseError_def isFinalResponseSuccess_def s_finalResponsesError_def
      s_finalResponsesSuccess_def strStartsWith_iff starts_with_iff)

text \<open>
  The reader never dereferences a NULL response or prefix, and keeps the invariant. The only
  way a reader action does not return is a write of the SMS text that never returns.
\<close>

lemma processLine_step:
  assumes "chan_inv st"
  shows "processLine l st \<noteq> Fault f"
    and "processLine l st = Ret st' \<Longrightarrow> chan_inv st' \<and> same_command st st'"
proof -
  have "processLine l st \<noteq> Fault f \<and> (processLine l st = Ret st' \<longrightarrow> chan_inv st' \<and> same_command st st')"
  proof (cases "sp_response st")
    case None
    with handleUnsolicited_step [OF assms, of l] show ?thesis by (auto simp: processLine_def)
  next
    case (Some r)
    consider (ok) "isFinalResponseSuccess l" | (err) "\<not> isFinalResponseSuccess l" "isFinalResponseError l"
      | (other) "\<not> isFinalResponseSuccess l" "\<not> isFinalResponseError l" by blast
    then show ?thesis
    proof cases
      case other
      obtain s1 where s1: "line_by_type l r st = Ret s1" "chan_inv s1" "same_command st s1"
        using line_by_type_step [OF assms Some] by blast
      show ?thesis
      proof (cases "s_smsPDU st \<noteq> None \<and> l = ''> ''")
        case True
        then obtain pdu where pdu: "s_smsPDU st = Some pdu" "l = ''> ''" by auto
        have "writeCtrlZ pdu st \<noteq> Fault f" unfolding writeCtrlZ_def by (rule write_with_no_fault)
        moreover have "chan_inv s2 \<and> same_command st s2"
          if "writeCtrlZ pdu st = Ret (e, s1)" "s2 = s1\<lparr>s_smsPDU := None\<rparr>" for e s1 s2
          using same_but_wireD [OF write_with_Ret(1) [OF that(1) [unfolded writeCtrlZ_def]]] that(2) assms
          by (simp add: chan_inv_def same_command_def split: option.split_asm option.split)
        ultimately show ?thesis using other Some pdu by (auto simp: processLine_def outcome_simps)
      next
        case False
        with other Some s1 show ?thesis by (auto simp: processLine_def split: option.splits)
      qed
    qed (use Some assms in \<open>auto simp: processLine_def handleFinalResponse_def chan_inv_def
        same_command_def final_ok_def isFinalResponse_def\<close>)
  qed
  then show "processLine l st \<noteq> Fault f"
    "processLine l st = Ret st' \<Longrightarrow> chan_inv st' \<and> same_command st st'" by blast+
qed

lemma reader_step_step:
  assumes "chan_inv st"
  shows "reader_step e st \<noteq> Fault f"
    and "reader_step e st = Ret st' \<Longrightarrow> chan_inv st' \<and> same_command st st'"
proof -
  have "reader_step e st \<noteq> Fault f
    \<and> (reader_step e st = Ret st' \<longrightarrow> chan_inv st' \<and> same_command st st')"
  proof (cases e)
    case (ReaderLine l)
    with processLine_step [OF assms, of l] show ?thesis by (auto simp: reader_step_def)
  next
    case (ReaderSms l1 l2)
    let ?st = "if s_unsolHandler st then st\<lparr>unsol_log := unsol_log st @ [(l1, Some l2)]\<rparr> else st"
    have "chan_inv ?st" "same_command st ?st"
      using assms chan_inv_cong [of ?st st] by (simp_all add: same_command_def)
    with ReaderSms show ?thesis by (auto simp: reader_step_def)
  next
    case ReaderEof
    have "chan_inv (onReaderClosed st)" "same_command st (onReaderClosed st)"
      using assms chan_inv_cong [of "onReaderClosed st" st] by (simp_all add: same_command_def chan_simps)
    with ReaderEof show ?thesis by (auto simp: reader_step_def)
  qed
  then show "reader_step e st \<noteq> Fault f"
    "reader_step e st = Ret st' \<Longrightarrow> chan_inv st' \<and> same_command st st'" by blast+
qed

section \<open>One command\<close>

lemma still_waiting_Some:
  "sp_response st = Some r \<Longrightarrow> still_waiting st = Ret (finalResponse r = None \<and> s_readerClosed st = 0)"
  by (simp add: still_waiting_def)

text \<open>While waiting there is no fault, the invariant stays, and only a final response or a closed
  reader ends the wait without an error.\<close>

lemma in_wait_step:
  assumes "chan_inv st" "sp_response st \<noteq> None"
  shows "in_wait timed es st \<noteq> Fault f"
    and "in_wait timed es st = Ret (e, st') \<Longrightarrow> chan_inv st' \<and> same_command st st'
      \<and> (e = 0 \<and> still_waiting st' = Ret False \<or> e = AT_ERROR_TIMEOUT \<and> timed)"
proof -
  have "in_wait timed es st \<noteq> Fault f \<and> (in_wait timed es st = Ret (e, st') \<longrightarrow> chan_inv st' \<and> same_command st st'
      \<and> (e = 0 \<and> still_waiting st' = Ret False \<or> e = AT_ERROR_TIMEOUT \<and> timed))"
    using assms
  proof (induction timed es st rule: in_wait.induct)
    case (2 timed ev es st)
    show ?case
    proof (cases "reader_step ev st")
      case (Ret s1)
      have s1: "chan_inv s1" "same_command st s1" using reader_step_step(2) [OF "2.prems"(1) Ret] by auto
      then have "sp_response s1 \<noteq> None" using "2.prems"(2) by (simp add: same_command_def)
      from "2.IH" [OF Ret s1(1) this] Ret same_command_trans [OF s1(2)] show ?thesis by auto
    qed (use reader_step_step(1) [OF "2.prems"(1)] in auto)
  next
    case (3 timed es st)
    then obtain r where r: "sp_response st = Some r" by auto
    have "chan_inv (st\<lparr>sched := es\<rparr>)" using 3 chan_inv_cong [of "st\<lparr>sched := es\<rparr>" st] by simp
    with 3 r show ?case by (auto simp: still_waiting_def same_command_def)
  next
    case (4 timed es st)
    have "chan_inv (st\<lparr>sched := es\<rparr>)" using 4 chan_inv_cong [of "st\<lparr>sched := es\<rparr>" st] by simp
    with 4 show ?case by (auto simp: same_command_def)
  qed simp
  then show "in_wait timed es st \<noteq> Fault f"
    "in_wait timed es st = Ret (e, st') \<Longrightarrow> chan_inv st' \<and> same_command st st'
      \<and> (e = 0 \<and> still_waiting st' = Ret False \<or> e = AT_ERROR_TIMEOUT \<and> timed)" by blast+
qed

end
