(* ===== verification/AtCommand.thy ===== *)
theory AtCommand
  imports AtChannelLemmas
begin

text \<open>
  One AT command from end to end: the contract of the send functions as locales that the modem
  code uses as its interface to the channel, their interpretation on the functions of theory
  AtChannel, and the reference semantics of a command as a function of the lines that arrive.
\<close>

section \<open>The whole command keeps the invariant\<close>

definition type_ok :: "at_type \<Rightarrow> string option \<Rightarrow> bool" where
  "type_ok ty pre = (ty = SINGLELINE \<or> ty = MULTILINE \<longrightarrow> pre \<noteq> None)"

lemma pending_ok_rev [simp]: "pending_ok ty pre (rev ls) \<longleftrightarrow> pending_ok ty pre ls"
  by (simp add: pending_ok_def split: at_type.split)

lemma send_begin_no_fault: "send_begin c ty pre pdu st \<noteq> Fault f"
  using write_with_no_fault by (simp add: send_begin_def writeline_def outcome_simps)

lemma send_begin_Ret:
  assumes "send_begin c ty pre pdu st = Ret (e, st1)" "chan_idle st" "type_ok ty pre"
  shows "e = None \<Longrightarrow> chan_inv st1 \<and> s_type st1 = ty \<and> s_responsePrefix st1 = pre
           \<and> sp_response st1 = Some at_response_new \<and> wire st1 = wire st @ c @ [CR]"
    and "e = Some x \<Longrightarrow> x = AT_ERROR_GENERIC \<or> x = AT_ERROR_CHANNEL_CLOSED"
proof -
  from assms obtain x s1 where w: "writeline c st = Ret (x, s1)"
    and r: "(if x < 0 then (Some x, s1) else (None, s1\<lparr>s_type := ty, s_responsePrefix := pre,
      s_smsPDU := pdu, sp_response := Some at_response_new\<rparr>)) = (e, st1)"
    by (auto simp: send_begin_def chan_idle_def obind_eq_Ret split: if_splits)
  note x = write_with_Ret(2) [OF w [unfolded writeline_def]]
  show "chan_inv st1 \<and> s_type st1 = ty \<and> s_responsePrefix st1 = pre
      \<and> sp_response st1 = Some at_response_new \<and> wire st1 = wire st @ c @ [CR]" if "e = None"
    using that r x assms(3)
    by (auto simp: chan_inv_def pending_ok_def final_ok_def at_response_new_def type_ok_def at_error_defs
        split: if_splits at_type.splits)
  show "e = Some x \<Longrightarrow> x = AT_ERROR_GENERIC \<or> x = AT_ERROR_CHANNEL_CLOSED" for x
    using r x(1) by (auto simp: at_error_defs split: if_splits)
qed

text \<open>What the caller may rely on when a command returns.\<close>

definition good_result :: "at_type \<Rightarrow> string option \<Rightarrow> bool \<Rightarrow> int \<times> at_response option \<times> at_chan \<Rightarrow> bool" where
  "good_result ty pre want res = (case res of (e, resp, st') \<Rightarrow>
     chan_idle st' \<and> (want = False \<longrightarrow> resp = None)
     \<and> (e = 0 \<or> e = AT_ERROR_GENERIC \<or> e = AT_ERROR_CHANNEL_CLOSED \<or> e = AT_ERROR_TIMEOUT)
     \<and> (e = 0 \<and> want \<longrightarrow> (\<exists>r f. resp = Some r \<and> finalResponse r = Some f \<and> final_ok r
          \<and> pending_ok ty pre (p_intermediates r))))"

lemma clear_idle [simp]: "chan_idle (clearPendingCommand st)"
  by (simp add: chan_idle_def clearPendingCommand_def)

lemma send_end_good:
  assumes "chan_inv st" "still_waiting st = Ret False" "s_type st = ty" "s_responsePrefix st = pre"
    "0 \<le> s_readerClosed st"
  shows "good_result ty pre want (send_end want st)"
proof -
  from assms(2) obtain r where r: "sp_response st = Some r" "finalResponse r \<noteq> None \<or> s_readerClosed st \<noteq> 0"
    by (auto simp: still_waiting_def split: option.splits)
  then have "pending_ok ty pre (p_intermediates r)" "final_ok r"
    using assms by (auto simp: chan_inv_def)
  then show ?thesis using r assms(5)
    by (auto simp: good_result_def send_end_def reverseIntermediates_def flip_lines_rev at_error_defs)
qed

text \<open>A channel with no command pending, whose \<open>s_readerClosed\<close> has only been set by this code.\<close>

definition ready :: "at_chan \<Rightarrow> bool" where
  "ready st = (chan_idle st \<and> 0 \<le> s_readerClosed st)"

lemma ready_clear [simp]: "ready (clearPendingCommand st) \<longleftrightarrow> 0 \<le> s_readerClosed st"
  by (simp add: ready_def clearPendingCommand_def chan_idle_def)

lemma ready_idle: "ready st \<Longrightarrow> chan_idle st" by (simp add: ready_def)

lemma send_begin_closed:
  "send_begin c ty pre pdu st = Ret (e, st1) \<Longrightarrow> s_readerClosed st1 = s_readerClosed st"
  using write_with_Ret(1) same_but_wireD(5)
  by (fastforce simp: send_begin_def writeline_def outcome_simps split: if_splits)

lemma wait_response_step:
  assumes "chan_inv st" "sp_response st \<noteq> None"
  shows "wait_response timed st \<noteq> Fault f"
    and "wait_response timed st = Ret (e, st') \<Longrightarrow> chan_inv st' \<and> same_command st st'
      \<and> (e = 0 \<and> still_waiting st' = Ret False \<or> e = AT_ERROR_TIMEOUT \<and> timed)"
proof -
  from assms(2) obtain r where "sp_response st = Some r" by auto
  note w = still_waiting_Some [OF this]
  show "wait_response timed st \<noteq> Fault f"
    using in_wait_step(1) [OF assms] by (auto simp: wait_response_def w)
  show "chan_inv st' \<and> same_command st st'
      \<and> (e = 0 \<and> still_waiting st' = Ret False \<or> e = AT_ERROR_TIMEOUT \<and> timed)"
    if "wait_response timed st = Ret (e, st')"
    using that in_wait_step(2) [OF assms] assms(1) w by (auto simp: wait_response_def split: if_splits)
qed

lemma nolock_step:
  assumes "ready st" "type_ok ty pre"
  shows "at_send_command_full_nolock c ty pre pdu ms want st \<noteq> Fault f"
    and "at_send_command_full_nolock c ty pre pdu ms want st = Ret res \<Longrightarrow> good_result ty pre want res
      \<and> ready (snd (snd res))"
proof -
  let ?call = "at_send_command_full_nolock c ty pre pdu ms want st"
  have "?call \<noteq> Fault f \<and> (?call = Ret res \<longrightarrow> good_result ty pre want res \<and> ready (snd (snd res)))"
  proof (cases "send_begin c ty pre pdu st")
    case (Ret x)
    obtain e s1 where x: "x = (e, s1)" by fastforce
    note b = send_begin_Ret [OF Ret [unfolded x] ready_idle [OF assms(1)] assms(2)]
    have c0: "0 \<le> s_readerClosed s1"
      using send_begin_closed [OF Ret [unfolded x]] assms(1) by (simp add: ready_def)
    show ?thesis
    proof (cases e)
      case None
      then have s1: "chan_inv s1" "sp_response s1 \<noteq> None" "s_type s1 = ty" "s_responsePrefix s1 = pre"
        using b(1) by auto
      note w = wait_response_step [OF s1(1,2), of "ms \<noteq> 0"]
      show ?thesis
      proof (cases "wait_response (ms \<noteq> 0) s1")
        case w1: (Ret y)
        obtain e2 s2 where y: "y = (e2, s2)" by fastforce
        have s2: "chan_inv s2" "same_command s1 s2"
          "e2 = 0 \<and> still_waiting s2 = Ret False \<or> e2 = AT_ERROR_TIMEOUT \<and> ms \<noteq> 0"
          using w(2) w1 y by auto
        have k: "s_type s2 = ty" "s_responsePrefix s2 = pre" "0 \<le> s_readerClosed s2"
          using s2(2) s1 c0 by (auto simp: same_command_def)
        have "good_result ty pre want (send_end want s2)" if "e2 = 0"
          using send_end_good [OF s2(1) _ k] that s2(3) by (auto simp: at_error_defs)
        then show ?thesis
          using Ret x w1 y s2(3) k(3) None
          by (auto simp: at_send_command_full_nolock_def good_result_def send_end_def at_error_defs
              ready_def clearPendingCommand_def chan_idle_def)
      qed (use w(1) Ret x None in \<open>auto simp: at_send_command_full_nolock_def\<close>)
    next
      case (Some err)
      with b(2) Ret x c0 show ?thesis
        by (auto simp: at_send_command_full_nolock_def good_result_def at_error_defs)
    qed
  qed (use send_begin_no_fault in \<open>auto simp: at_send_command_full_nolock_def\<close>)
  then show "?call \<noteq> Fault f" "?call = Ret res \<Longrightarrow> good_result ty pre want res \<and> ready (snd (snd res))"
    by blast+
qed

lemma full_step:
  assumes "ready st" "type_ok ty pre"
  shows "at_send_command_full False c ty pre pdu ms want st \<noteq> Fault f"
    and "at_send_command_full False c ty pre pdu ms want st = Ret res \<Longrightarrow> good_result ty pre want res
      \<and> ready (snd (snd res))"
  using nolock_step [OF assms, of c pdu ms want]
  by (auto simp: at_send_command_full_def outcome_simps good_result_def chan_idle_def ready_def)

section \<open>The interface of the channel\<close>

text \<open>
  What the modem code needs of a send function when it asks for the response: no fault, a
  channel that is ready again, and with code 0 a response whose final line has arrived.
\<close>

locale at_port =
  fixes send :: "string \<Rightarrow> 's \<Rightarrow> (int \<times> at_response option \<times> 's) outcome"
    and ready_st :: "'s \<Rightarrow> bool"
  assumes no_fault: "ready_st s \<Longrightarrow> send c s \<noteq> Fault f"
    and ready_after: "ready_st s \<Longrightarrow> send c s = Ret (e, r, s') \<Longrightarrow> ready_st s'"
    and code: "ready_st s \<Longrightarrow> send c s = Ret (e, r, s') \<Longrightarrow> e \<le> 0"
    and answer: "ready_st s \<Longrightarrow> send c s = Ret (0, r, s') \<Longrightarrow>
      \<exists>x f. r = Some x \<and> finalResponse x = Some f \<and> final_ok x"
begin

lemma success_code:
  assumes "ready_st s" "send c s = Ret (0, r, s')"
  shows "\<exists>x. r = Some x \<and> (success x = 1 \<or> success x = 0)"
  using answer [OF assms] by (auto simp: final_ok_def split: if_splits)

lemma then_no_fault:
  assumes "ready_st s" and "\<And>e r s'. ready_st s' \<Longrightarrow> send c s = Ret (e, r, s') \<Longrightarrow> k (e, r, s') \<noteq> Fault f"
  shows "obind (send c s) k \<noteq> Fault f"
  using no_fault [OF assms(1)] ready_after [OF assms(1)] assms(2)
  by (auto simp: obind_eq_Fault)

end

text \<open>A send function for commands whose success comes with an intermediate response.\<close>

locale at_line_port = at_port +
  assumes line: "ready_st s \<Longrightarrow> send c s = Ret (0, Some x, s') \<Longrightarrow> success x > 0 \<Longrightarrow> p_intermediates x \<noteq> []"
begin

text \<open>A zero return code means either a line to read or an error response without one.\<close>

lemma line_or_error:
  assumes "ready_st s" "send c s = Ret (0, r, s')"
  shows "\<exists>x. r = Some x \<and> (success x = 1 \<and> (\<exists>l ls. p_intermediates x = l # ls)
     \<or> success x = 0 \<and> (\<exists>f. finalResponse x = Some f \<and> isFinalResponseError f))"
proof -
  obtain x f where x: "r = Some x" "finalResponse x = Some f" "final_ok x"
    using answer [OF assms] by blast
  show ?thesis
  proof (cases "isFinalResponseSuccess f")
    case True
    then have "success x = 1" using x by (simp add: final_ok_def)
    with line [OF assms(1), of c x s'] assms(2) x(1) show ?thesis by (cases "p_intermediates x") auto
  next
    case False
    with x show ?thesis by (auto simp: final_ok_def isFinalResponse_def)
  qed
qed

end

lemma good_port:
  assumes "\<And>c st f. ready st \<Longrightarrow> send c st \<noteq> Fault f"
    and "\<And>c st res. ready st \<Longrightarrow> send c st = Ret res \<Longrightarrow> good_result ty pre True res \<and> ready (snd (snd res))"
  shows "at_port send ready"
  by unfold_locales (use assms in \<open>fastforce simp: good_result_def at_error_defs\<close>)+

interpretation cmd: at_port "\<lambda>c st. at_send_command False c True st" ready
  by (rule good_port [of _ NO_RESULT None])
     (use full_step [of _ NO_RESULT None] in \<open>auto simp: at_send_command_def type_ok_def\<close>)

interpretation multi: at_port "\<lambda>c st. at_send_command_multiline False c p True st" ready for p
  by (rule good_port [of _ MULTILINE "Some p"])
     (use full_step [of _ MULTILINE "Some p"] in \<open>auto simp: at_send_command_multiline_def type_ok_def\<close>)

text \<open>The wrappers with \<open>require_line\<close>: a result of -6 has no response, all others are those of
  the full function.\<close>

lemma require_line_cases:
  "require_line (e, r, st) = (e, r, st) \<and> \<not> (e = 0 \<and> (\<exists>x. r = Some x \<and> success x > 0 \<and> p_intermediates x = []))
   \<or> e = 0 \<and> require_line (e, r, st) = (AT_ERROR_INVALID_RESPONSE, None, st)"
  by (cases r) (auto simp: require_line_def)

lemma require_line_port:
  assumes "\<And>c st f. ready st \<Longrightarrow> send c st \<noteq> Fault f"
    and "\<And>c st res. ready st \<Longrightarrow> send c st = Ret res \<Longrightarrow> good_result ty pre True res \<and> ready (snd (snd res))"
  shows "at_line_port (\<lambda>c st. obind (send c st) (\<lambda>res. Ret (require_line res))) ready"
proof
  fix s c e r s' assume s: "ready s"
  have d: "\<exists>e1 r1. send c s = Ret (e1, r1, s') \<and> (e, r, s') = require_line (e1, r1, s')"
    if "obind (send c s) (\<lambda>res. Ret (require_line res)) = Ret (e, r, s')" for e r s'
  proof -
    from that obtain x where x: "send c s = Ret x" "require_line x = (e, r, s')"
      by (auto simp: obind_eq_Ret)
    obtain e1 r1 s1 where "x = (e1, r1, s1)" using prod_cases3 by blast
    with x require_line_cases [of e1 r1 s1] show ?thesis by auto
  qed
  show "obind (send c s) (\<lambda>res. Ret (require_line res)) \<noteq> Fault f" for f
    using assms(1) [OF s] by (auto simp: obind_eq_Fault)
  show "ready s'" if "obind (send c s) (\<lambda>res. Ret (require_line res)) = Ret (e, r, s')"
    using d [OF that] assms(2) [OF s] by fastforce
  show "e \<le> 0" if r: "obind (send c s) (\<lambda>res. Ret (require_line res)) = Ret (e, r, s')"
  proof -
    obtain e1 r1 where k: "send c s = Ret (e1, r1, s')" "(e, r, s') = require_line (e1, r1, s')"
      using d [OF r] by blast
    with assms(2) [OF s k(1)] require_line_cases [of e1 r1 s'] show ?thesis
      by (auto simp: good_result_def at_error_defs)
  qed
  show "\<exists>x f. r = Some x \<and> finalResponse x = Some f \<and> final_ok x"
    if r: "obind (send c s) (\<lambda>res. Ret (require_line res)) = Ret (0, r, s')"
  proof -
    obtain e1 r1 where k: "send c s = Ret (e1, r1, s')" "(0, r, s') = require_line (e1, r1, s')"
      using d [OF r] by blast
    from k(2) require_line_cases [of e1 r1 s'] have "e1 = 0" "r1 = r"
      by (auto simp: AT_ERROR_INVALID_RESPONSE_def)
    with assms(2) [OF s k(1)] show ?thesis by (auto simp: good_result_def)
  qed
  show "p_intermediates x \<noteq> []"
    if r: "obind (send c s) (\<lambda>res. Ret (require_line res)) = Ret (0, Some x, s')" "success x > 0" for x
  proof -
    obtain e1 r1 where k: "(0, Some x, s') = require_line (e1, r1, s')" using d [OF r(1)] by blast
    from k require_line_cases [of e1 r1 s'] r(2) show ?thesis
      by (auto simp: AT_ERROR_INVALID_RESPONSE_def)
  qed
qed

interpretation single: at_line_port "\<lambda>c st. at_send_command_singleline False c p True st" ready for p
  using require_line_port [of "\<lambda>c st. at_send_command_full False c SINGLELINE (Some p) None 0 True st"
      SINGLELINE "Some p"] full_step [of _ SINGLELINE "Some p"]
  by (simp add: at_send_command_singleline_def type_ok_def)

interpretation numeric: at_line_port "\<lambda>c st. at_send_command_numeric False c True st" ready
  using require_line_port [of "\<lambda>c st. at_send_command_full False c NUMERIC None None 0 True st"
      NUMERIC None] full_step [of _ NUMERIC None]
  by (simp add: at_send_command_numeric_def type_ok_def)

interpretation sms: at_line_port "\<lambda>c st. at_send_command_sms False c pdu p True st" ready for pdu p
  using require_line_port [of "\<lambda>c st. at_send_command_full False c SINGLELINE (Some p) (Some pdu) 0 True st"
      SINGLELINE "Some p"] full_step [of _ SINGLELINE "Some p"]
  by (simp add: at_send_command_sms_def type_ok_def)

section \<open>What a command answers, as a function of the lines\<close>

definition matches :: "at_type \<Rightarrow> string option \<Rightarrow> string \<Rightarrow> bool" where
  "matches ty pre l = (case ty of
       NO_RESULT \<Rightarrow> False
     | NUMERIC \<Rightarrow> l \<noteq> [] \<and> isdigit (hd l)
     | _ \<Rightarrow> (case pre of None \<Rightarrow> False | Some p \<Rightarrow> starts_with l p))"

definition single_shot :: "at_type \<Rightarrow> bool" where
  "single_shot ty = (ty = NUMERIC \<or> ty = SINGLELINE)"

text \<open>The lines that become the answer, and the lines that go to the unsolicited handler.\<close>

definition answer_lines :: "at_type \<Rightarrow> string option \<Rightarrow> string list \<Rightarrow> string list" where
  "answer_lines ty pre ls =
     (let ms = filter (matches ty pre) ls in if single_shot ty then take 1 ms else ms)"

fun other_lines :: "at_type \<Rightarrow> string option \<Rightarrow> bool \<Rightarrow> string list \<Rightarrow> string list" where
  "other_lines ty pre seen [] = []"
| "other_lines ty pre seen (l # ls) =
     (if matches ty pre l \<and> \<not> (single_shot ty \<and> seen) then other_lines ty pre True ls
      else l # other_lines ty pre seen ls)"

fun picked :: "at_type \<Rightarrow> string option \<Rightarrow> bool \<Rightarrow> string list \<Rightarrow> string list" where
  "picked ty pre seen [] = []"
| "picked ty pre seen (l # ls) =
     (if matches ty pre l \<and> \<not> (single_shot ty \<and> seen) then l # picked ty pre True ls
      else picked ty pre seen ls)"

lemma picked_seen: "single_shot ty \<Longrightarrow> picked ty pre True ls = []"
  by (induction ls) auto

lemma picked_multi: "\<not> single_shot ty \<Longrightarrow> picked ty pre b ls = filter (matches ty pre) ls"
  by (induction ls arbitrary: b) auto

lemma picked_answer: "picked ty pre False ls = answer_lines ty pre ls"
proof (cases "single_shot ty")
  case True
  then have "picked ty pre False ls = take 1 (filter (matches ty pre) ls)"
    by (induction ls) (auto simp: picked_seen)
  with True show ?thesis by (simp add: answer_lines_def)
qed (simp add: answer_lines_def picked_multi)

text \<open>The state after the reader handled \<open>ls\<close> while command \<open>r\<close> is pending.\<close>

definition after_lines :: "at_response \<Rightarrow> string list \<Rightarrow> at_chan \<Rightarrow> at_chan" where
  "after_lines r ls st = (let seen = (p_intermediates r \<noteq> []) in
     st\<lparr>sp_response := Some (r\<lparr>p_intermediates :=
          rev (picked (s_type st) (s_responsePrefix st) seen ls) @ p_intermediates r\<rparr>),
        unsol_log := unsol_log st
          @ map (\<lambda>l. (l, None)) (other_lines (s_type st) (s_responsePrefix st) seen ls)\<rparr>)"

lemma processLine_plain:
  assumes "sp_response st = Some r" "s_smsPDU st = None" "s_unsolHandler st"
    "type_ok (s_type st) (s_responsePrefix st)" "\<not> isFinalResponse l"
  shows "processLine l st = Ret (after_lines r [l] st)"
  using assms
  by (cases "s_type st"; cases "s_responsePrefix st")
     (auto simp: processLine_def isFinalResponse_def line_by_type_def prefix_match_def addIntermediate_def
        handleUnsolicited_def after_lines_def matches_def single_shot_def type_ok_def strStartsWith_iff)

lemma after_lines_Cons:
  assumes "sp_response st = Some r"
  shows "after_lines (the (sp_response (after_lines r [l] st))) ls (after_lines r [l] st)
    = after_lines r (l # ls) st"
  by (cases "matches (s_type st) (s_responsePrefix st) l"; cases "p_intermediates r = []")
     (auto simp: after_lines_def Let_def picked_seen)

lemma after_lines_Nil: "sp_response st = Some r \<Longrightarrow> after_lines r [] st = st"
  by (simp add: after_lines_def)

lemma in_wait_lines:
  "sp_response st = Some r \<Longrightarrow> s_smsPDU st = None \<Longrightarrow> s_unsolHandler st \<Longrightarrow>
   type_ok (s_type st) (s_responsePrefix st) \<Longrightarrow> \<forall>l \<in> set ls. \<not> isFinalResponse l \<Longrightarrow>
   in_wait timed (map (\<lambda>l. Reader (ReaderLine l)) ls @ es) st = in_wait timed es (after_lines r ls st)"
proof (induction ls arbitrary: st r)
  case Nil
  then show ?case by (simp add: after_lines_Nil)
next
  case (Cons l ls)
  let ?st = "after_lines r [l] st"
  have p: "processLine l st = Ret ?st" using Cons.prems by (intro processLine_plain) auto
  obtain r' where r': "sp_response ?st = Some r'" by (simp add: after_lines_def Let_def)
  have "in_wait timed (map (\<lambda>l. Reader (ReaderLine l)) ls @ es) ?st = in_wait timed es (after_lines r' ls ?st)"
    using Cons.prems r' by (intro Cons.IH) (simp_all add: after_lines_def Let_def)
  with p r' after_lines_Cons [OF Cons.prems(1), of l ls] show ?case
    by (simp add: reader_step_def)
qed

lemma processLine_final:
  assumes "sp_response st = Some r" "isFinalResponse f"
  shows "processLine f st = Ret (st\<lparr>sp_response := Some (r\<lparr>success := (if isFinalResponseSuccess f then 1 else 0),
           finalResponse := Some f\<rparr>)\<rparr>)"
  using assms by (auto simp: processLine_def handleFinalResponse_def isFinalResponse_def)

lemma in_wait_answer:
  assumes "sp_response st = Some at_response_new" "s_smsPDU st = None" "s_unsolHandler st"
    "type_ok (s_type st) (s_responsePrefix st)" "\<forall>l \<in> set ls. \<not> isFinalResponse l" "isFinalResponse f"
  shows "in_wait timed (map (\<lambda>l. Reader (ReaderLine l)) (ls @ [f]) @ Wake # es) st
    = Ret (0, st\<lparr>sp_response := Some \<lparr>success = (if isFinalResponseSuccess f then 1 else 0),
           finalResponse = Some f, p_intermediates = rev (answer_lines (s_type st) (s_responsePrefix st) ls)\<rparr>,
         unsol_log := unsol_log st @ map (\<lambda>l. (l, None)) (other_lines (s_type st) (s_responsePrefix st) False ls),
         sched := es\<rparr>)"
proof -
  let ?st = "after_lines at_response_new ls st"
  have st: "sp_response ?st = Some \<lparr>success = 0, finalResponse = None,
      p_intermediates = rev (answer_lines (s_type st) (s_responsePrefix st) ls)\<rparr>"
    by (simp add: after_lines_def at_response_new_def picked_answer)
  have "in_wait timed (map (\<lambda>l. Reader (ReaderLine l)) ls @ Reader (ReaderLine f) # Wake # es) st
      = in_wait timed (Reader (ReaderLine f) # Wake # es) ?st"
    using assms by (intro in_wait_lines) simp_all
  then show ?thesis
    using processLine_final [OF st assms(6)] assms(1)
    by (simp add: reader_step_def still_waiting_def after_lines_def at_response_new_def Let_def)
qed

lemma wait_answer:
  assumes "sp_response st = Some at_response_new" "s_smsPDU st = None" "s_unsolHandler st"
    "type_ok (s_type st) (s_responsePrefix st)" "\<forall>l \<in> set ls. \<not> isFinalResponse l" "isFinalResponse f"
    "s_readerClosed st = 0"
    "sched st = map (\<lambda>l. Reader (ReaderLine l)) (ls @ [f]) @ Wake # es"
  shows "wait_response timed st = Ret (0, st\<lparr>sp_response := Some \<lparr>success = (if isFinalResponseSuccess f then 1 else 0),
           finalResponse = Some f, p_intermediates = rev (answer_lines (s_type st) (s_responsePrefix st) ls)\<rparr>,
         unsol_log := unsol_log st @ map (\<lambda>l. (l, None)) (other_lines (s_type st) (s_responsePrefix st) False ls),
         sched := es\<rparr>)"
  using in_wait_answer [OF assms(1-6), of timed es] assms(1,7,8)
  by (simp add: wait_response_def still_waiting_def at_response_new_def)

section \<open>Properties\<close>

text \<open>
  A command that was written and whose lines arrive before the wait ends answers exactly as
  the reference says. The intermediate responses are the lines that match the type of the
  command (the first of them for the one-line types), in the order of arrival; \<open>success\<close> and
  \<open>finalResponse\<close> come from the final line; all other lines go to the unsolicited handler, in
  order; the bytes on the wire are the command and a carriage return; and no command is pending
  afterwards.
\<close>

theorem command_answer:
  assumes "ready st" "type_ok ty pre" "s_readerClosed st = 0" "s_unsolHandler st"
    and "writeline command st = Ret (0, st1)"
    and "sched st = map (\<lambda>l. Reader (ReaderLine l)) (ls @ [f]) @ Wake # es"
    and "\<forall>l \<in> set ls. \<not> isFinalResponse l" "isFinalResponse f"
  shows "\<exists>st'. at_send_command_full_nolock command ty pre None ms True st
      = Ret (0, Some \<lparr>success = (if isFinalResponseSuccess f then 1 else 0), finalResponse = Some f,
                      p_intermediates = answer_lines ty pre ls\<rparr>, st')
    \<and> unsol_log st' = unsol_log st @ map (\<lambda>l. (l, None)) (other_lines ty pre False ls)
    \<and> wire st' = wire st @ command @ [CR] \<and> sched st' = es \<and> ready st'"
proof -
  let ?s1 = "st1\<lparr>s_type := ty, s_responsePrefix := pre, s_smsPDU := None, sp_response := Some at_response_new\<rparr>"
  note w = write_with_Ret [OF assms(5) [unfolded writeline_def]]
  note same = same_but_wireD [OF w(1)]
  have b: "send_begin command ty pre None st = Ret (None, ?s1)"
    using assms(1,5) by (simp add: send_begin_def ready_def chan_idle_def)
  have wire: "wire st1 = wire st @ command @ [CR]" using w(2) by (simp add: at_error_defs)
  note wait_answer [of ?s1 ls f es "ms \<noteq> 0"]
  then show ?thesis
    using assms same wire b
    by (simp add: at_send_command_full_nolock_def send_end_def reverseIntermediates_def flip_lines_rev
        at_error_defs ready_def chan_idle_def clearPendingCommand_def)
qed

text \<open>A channel on which every field is at its start value, for witnesses.\<close>

definition chan0 :: at_chan where
  "chan0 = \<lparr>s_fd = 3, s_unsolHandler = True, s_type = NO_RESULT, s_responsePrefix = None,
     s_smsPDU = None, sp_response = None, s_onTimeout = False, s_onReaderClosed = False,
     s_readerClosed = 0, wire = [], writes = [], unsol_log = [], sched = [], timeout_calls = 0,
     closed_calls = 0\<rparr>"

lemma ready_chan0 [simp]: "ready (chan0\<lparr>writes := ws, sched := es\<rparr>)"
  by (simp add: ready_def chan_idle_def chan0_def)

text \<open>
  C3: no send ever faults on a ready channel, whatever the modem says and whenever: neither the
  command thread nor the reader dereferences a NULL response or a NULL prefix. The channel is
  ready again afterwards, the return code is one of the documented ones, and a code of 0 comes
  with a complete response whose lines fit the type of the command.
\<close>

theorem send_command_safe:
  assumes "ready st" "type_ok ty pre"
  shows "case at_send_command_full False command ty pre pdu ms want st of
      Fault _ \<Rightarrow> False
    | Blocked \<Rightarrow> True
    | Ret (e, resp, st') \<Rightarrow>
        ready st' \<and> e \<in> {0, AT_ERROR_GENERIC, AT_ERROR_CHANNEL_CLOSED, AT_ERROR_TIMEOUT}
        \<and> (e = 0 \<and> want \<longrightarrow> (\<exists>r g. resp = Some r \<and> finalResponse r = Some g \<and> final_ok r
             \<and> pending_ok ty pre (p_intermediates r)))"
  using full_step [OF assms, of command pdu ms want]
  by (cases "at_send_command_full False command ty pre pdu ms want st") (auto simp: good_result_def)

theorem send_command_safe_witness:
  "case at_send_command_full False ''AT'' NO_RESULT None None 0 True
     (chan0\<lparr>writes := [WOk 2, WOk 1], sched := [Reader (ReaderLine ''OK''), Wake]\<rparr>) of
      Fault _ \<Rightarrow> False
    | Blocked \<Rightarrow> True
    | Ret (e, resp, st') \<Rightarrow>
        ready st' \<and> e \<in> {0, AT_ERROR_GENERIC, AT_ERROR_CHANNEL_CLOSED, AT_ERROR_TIMEOUT}
        \<and> (e = 0 \<and> True \<longrightarrow> (\<exists>r g. resp = Some r \<and> finalResponse r = Some g \<and> final_ok r
             \<and> pending_ok NO_RESULT None (p_intermediates r)))"
  by (rule send_command_safe) (simp_all add: type_ok_def)

text \<open>
  A single-line command that returns 0 gives the caller either a success with exactly one
  line, which starts with the prefix it asked for, or an error response.
\<close>

theorem singleline_contract:
  assumes "ready st" "at_send_command_singleline False command pre True st = Ret (0, resp, st')"
  shows "\<exists>r. resp = Some r \<and> (success r = 1 \<and> (\<exists>l. p_intermediates r = [l] \<and> starts_with l pre)
     \<or> success r = 0 \<and> (\<exists>f. finalResponse r = Some f \<and> isFinalResponseError f))"
proof -
  obtain e1 r1 where k: "at_send_command_full False command SINGLELINE (Some pre) None 0 True st = Ret (e1, r1, st')"
    "(0, resp, st') = require_line (e1, r1, st')"
    using assms(2) require_line_cases
    by (auto simp: at_send_command_singleline_def obind_eq_Ret) (metis prod.inject)
  then have "e1 = 0" "r1 = resp"
    using require_line_cases [of e1 r1 st'] by (auto simp: AT_ERROR_INVALID_RESPONSE_def)
  then obtain r where r: "resp = Some r" "pending_ok SINGLELINE (Some pre) (p_intermediates r)"
    using full_step(2) [OF assms(1) _ k(1)] by (auto simp: type_ok_def good_result_def)
  obtain r' where "resp = Some r'" "success r' = 1 \<and> (\<exists>l ls. p_intermediates r' = l # ls)
     \<or> success r' = 0 \<and> (\<exists>f. finalResponse r' = Some f \<and> isFinalResponseError f)"
    using single.line_or_error [OF assms] by blast
  with r show ?thesis by (auto simp: pending_ok_def strStartsWith_iff)
qed

end
