(* ===== verification/ModemAt.thy ===== *)
theory ModemAt
  imports AtCommand
begin

text \<open>
  The functions of src/src/modem/modem_hal_main.cpp that talk to the modem over the AT channel:
  the model check, the SIM state, the PIN, the network registration and the signal strength. All
  of them are called from a thread that is not the reader. Reading
  \<open>at_response->p_intermediates->line\<close> through a NULL pointer, or a variable that nothing was stored
  in, is a fault.
\<close>

definition response_ptr :: "at_response option \<Rightarrow> at_response outcome" where
  "response_ptr r = (case r of None \<Rightarrow> Fault NullDeref | Some x \<Rightarrow> Ret x)"

definition first_line :: "at_response option \<Rightarrow> string outcome" where
  "first_line r = obind (response_ptr r) (\<lambda>x. case p_intermediates x of
       [] \<Rightarrow> Fault NullDeref
     | l # _ \<Rightarrow> Ret l)"

definition value_of :: "'a option \<Rightarrow> 'a outcome" where
  "value_of v = (case v of None \<Rightarrow> Fault UninitRead | Some x \<Rightarrow> Ret x)"

abbreviation ask_line :: "string \<Rightarrow> string \<Rightarrow> at_chan \<Rightarrow> (int \<times> at_response option \<times> at_chan) outcome" where
  "ask_line c p st \<equiv> at_send_command_singleline False c p True st"

section \<open>Model check\<close>

definition mm_lenght :: nat where "mm_lenght = 10"

text \<open>The bytes that \<open>strncpy(dst, line, mm_lenght-1)\<close> leaves as the string in \<open>dst\<close>; the tenth byte
  does not matter for the comparison with shorter literals.\<close>

definition copy_name :: "string \<Rightarrow> string" where
  "copy_name line = take (mm_lenght - 1) line"

definition modem_hal_check_modem :: "at_chan \<Rightarrow> (int \<times> at_chan) outcome" where
  "modem_hal_check_modem st =
     obind (ask_line ''AT+GMI'' [] st) (\<lambda>(err, resp, st1).
       if err \<noteq> 0 then Ret (-1, st1)
       else obind (first_line resp) (\<lambda>manufacturer.
         obind (ask_line ''AT+GMM'' [] st1) (\<lambda>(err2, resp2, st2).
           if err2 \<noteq> 0 then Ret (-1, st2)
           else obind (first_line resp2) (\<lambda>model.
             Ret (if copy_name manufacturer = ''Quectel'' \<and> copy_name model = ''EG25'' then 0 else -1, st2)))))"

section \<open>SIM state\<close>

definition SIM_ABSENT :: int where "SIM_ABSENT = 0"
definition SIM_NOT_READY :: int where "SIM_NOT_READY = 1"
definition SIM_READY :: int where "SIM_READY = 2"
definition SIM_PIN :: int where "SIM_PIN = 3"
definition SIM_PUK :: int where "SIM_PUK = 4"

lemmas sim_defs = SIM_ABSENT_def SIM_NOT_READY_def SIM_READY_def SIM_PIN_def SIM_PUK_def

definition CME_SUCCESS :: int where "CME_SUCCESS = 0"
definition CME_SIM_NOT_INSERTED :: int where "CME_SIM_NOT_INSERTED = 10"

text \<open>The second part: the result of the line.\<close>

definition cpin_result :: "string \<Rightarrow> int outcome" where
  "cpin_result line = (case at_tok_start (Some line) of (err, p) \<Rightarrow>
     if err < 0 then Ret SIM_NOT_READY
     else (case at_tok_nextstr p of (err1, res, _) \<Rightarrow>
       if err1 < 0 then Ret SIM_NOT_READY
       else (case res of None \<Rightarrow> Fault NullDeref
         | Some r \<Rightarrow> Ret (if r = ''SIM PIN'' then SIM_PIN
                      else if r = ''SIM PUK'' then SIM_PUK
                      else if r \<noteq> ''READY'' then SIM_ABSENT else SIM_READY))))"

definition modem_hal_check_pin_status :: "at_chan \<Rightarrow> (int \<times> at_chan) outcome" where
  "modem_hal_check_pin_status st =
     obind (ask_line ''AT+CPIN?'' ''+CPIN:'' st) (\<lambda>(ret, resp, st1).
       if ret \<noteq> 0 then Ret (SIM_NOT_READY, st1)
       else obind (response_ptr resp) (\<lambda>r.
         if at_get_cme_error r = CME_SUCCESS
         then obind (first_line resp) (\<lambda>line. obind (cpin_result line) (\<lambda>v. Ret (v, st1)))
         else if at_get_cme_error r = CME_SIM_NOT_INSERTED then Ret (SIM_ABSENT, st1)
         else Ret (SIM_NOT_READY, st1)))"

section \<open>PIN tries\<close>

definition RIL_REQUEST_ENTER_SIM_PIN :: int where "RIL_REQUEST_ENTER_SIM_PIN = 2"
definition RIL_REQUEST_ENTER_SIM_PUK :: int where "RIL_REQUEST_ENTER_SIM_PUK = 3"
definition RIL_REQUEST_ENTER_SIM_PIN2 :: int where "RIL_REQUEST_ENTER_SIM_PIN2 = 4"
definition RIL_REQUEST_ENTER_SIM_PUK2 :: int where "RIL_REQUEST_ENTER_SIM_PUK2 = 5"
definition RIL_REQUEST_CHANGE_SIM_PIN :: int where "RIL_REQUEST_CHANGE_SIM_PIN = 6"
definition RIL_REQUEST_CHANGE_SIM_PIN2 :: int where "RIL_REQUEST_CHANGE_SIM_PIN2 = 7"
definition RIL_REQUEST_SET_FACILITY_LOCK :: int where "RIL_REQUEST_SET_FACILITY_LOCK = 43"

lemmas ril_request_defs = RIL_REQUEST_ENTER_SIM_PIN_def RIL_REQUEST_ENTER_SIM_PUK_def
  RIL_REQUEST_ENTER_SIM_PIN2_def RIL_REQUEST_ENTER_SIM_PUK2_def RIL_REQUEST_CHANGE_SIM_PIN_def
  RIL_REQUEST_CHANGE_SIM_PIN2_def RIL_REQUEST_SET_FACILITY_LOCK_def

text \<open>The four counters, None while nothing was stored in them.\<close>

record retries =
  pin1 :: "int option"
  puk1 :: "int option"
  pin2 :: "int option"
  puk2 :: "int option"

definition no_retries :: retries where
  "no_retries = \<lparr>pin1 = None, puk1 = None, pin2 = None, puk2 = None\<rparr>"

text \<open>One line of the answer; None jumps to the label \<open>error\<close>.\<close>

definition qpinc_line :: "string \<Rightarrow> retries \<Rightarrow> retries option outcome" where
  "qpinc_line l rs = (case at_tok_start (Some l) of (_, p) \<Rightarrow>
     case at_tok_nextstr p of (err, fac, p1) \<Rightarrow>
       if err < 0 then Ret None
       else (case fac of None \<Rightarrow> Fault NullDeref | Some f \<Rightarrow>
         if starts_with f ''SC''
         then (case at_tok_nextint p1 of (e1, a, p2) \<Rightarrow>
           if e1 < 0 then Ret None
           else (case at_tok_nextint p2 of (e2, b, _) \<Rightarrow>
             if e2 < 0 then Ret None else Ret (Some (rs\<lparr>pin1 := a, puk1 := b\<rparr>))))
         else if starts_with f ''P2''
         then (case at_tok_nextint p1 of (e1, a, p2) \<Rightarrow>
           if e1 < 0 then Ret None
           else (case at_tok_nextint p2 of (e2, b, _) \<Rightarrow>
             if e2 < 0 then Ret None else Ret (Some (rs\<lparr>pin2 := a, puk2 := b\<rparr>))))
         else Ret None))"

fun qpinc_lines :: "string list \<Rightarrow> retries \<Rightarrow> retries option outcome" where
  "qpinc_lines [] rs = Ret (Some rs)"
| "qpinc_lines (l # ls) rs = obind (qpinc_line l rs) (\<lambda>r. case r of
       None \<Rightarrow> Ret None
     | Some rs' \<Rightarrow> qpinc_lines ls rs')"

definition retries_for :: "int \<Rightarrow> retries \<Rightarrow> int outcome" where
  "retries_for request rs =
     (if request \<in> {RIL_REQUEST_SET_FACILITY_LOCK, RIL_REQUEST_ENTER_SIM_PIN, RIL_REQUEST_CHANGE_SIM_PIN}
        then value_of (pin1 rs)
      else if request \<in> {RIL_REQUEST_ENTER_SIM_PIN2, RIL_REQUEST_CHANGE_SIM_PIN2} then value_of (pin2 rs)
      else if request = RIL_REQUEST_ENTER_SIM_PUK then value_of (puk1 rs)
      else if request = RIL_REQUEST_ENTER_SIM_PUK2 then value_of (puk2 rs)
      else Ret (-1))"

definition modem_hal_get_numretries :: "int \<Rightarrow> at_chan \<Rightarrow> (int \<times> at_chan) outcome" where
  "modem_hal_get_numretries request st =
     obind (at_send_command_multiline False ''AT+QPINC?'' ''+QPINC'' True st) (\<lambda>(err, resp, st1).
       if err < 0 then Ret (-1, st1)
       else (case resp of None \<Rightarrow> Ret (-1, st1) | Some r \<Rightarrow>
         if success r = 0 then Ret (-1, st1)
         else obind (qpinc_lines (p_intermediates r) no_retries) (\<lambda>rs. case rs of
             None \<Rightarrow> Ret (-1, st1)
           | Some rs' \<Rightarrow> obind (retries_for request rs') (\<lambda>n. Ret (n, st1)))))"

section \<open>Entering the PIN\<close>

text \<open>\<open>vsnprintf\<close> into a buffer of \<open>len\<close> bytes keeps at most \<open>len - 1\<close> characters.\<close>

definition prepare_cmd_buf :: "nat \<Rightarrow> string \<Rightarrow> string" where
  "prepare_cmd_buf len s = take (len - 1) s"

definition cpin_cmd_size :: nat where "cpin_cmd_size = 20"

definition cpin_cmd :: "string \<Rightarrow> string" where
  "cpin_cmd pin = prepare_cmd_buf cpin_cmd_size (''AT+CPIN='' @ [QUOTE] @ pin @ [QUOTE])"

definition enter_sim_pin :: "string \<Rightarrow> at_chan \<Rightarrow> (int \<times> at_chan) outcome" where
  "enter_sim_pin pin st =
     obind (at_send_command False (cpin_cmd pin) True st) (\<lambda>(err, resp, st1).
       if err < 0 then Ret (-1, st1)
       else obind (response_ptr resp) (\<lambda>r.
         if success r = 0 then Ret (-1, st1)
         else obind (ask_line ''AT+CPIN?'' ''+CPIN:'' st1) (\<lambda>(err2, resp2, st2).
           if err2 < 0 then Ret (-1, st2)
           else obind (response_ptr resp2) (\<lambda>r2.
             if success r2 = 0 then Ret (-1, st2)
             else obind (first_line resp2) (\<lambda>line.
               case at_tok_start (Some line) of (e1, p) \<Rightarrow>
               if e1 < 0 then Ret (-1, st2)
               else (case at_tok_nextstr p of (e2, res, _) \<Rightarrow>
                 if e2 < 0 then Ret (-1, st2)
                 else (case res of None \<Rightarrow> Fault NullDeref
                   | Some s \<Rightarrow> Ret (if s = ''READY'' then 0 else if s = ''SIM PIN2'' then -2
                                   else if s = ''SIM PUK2'' then -3 else -4, st2))))))))"

section \<open>Registration\<close>

definition RIL_NOT_REG_AND_NOT_SEARCHING :: int where "RIL_NOT_REG_AND_NOT_SEARCHING = 0"
definition RIL_REG_HOME :: int where "RIL_REG_HOME = 1"
definition RIL_NOT_REG_AND_SEARCHING :: int where "RIL_NOT_REG_AND_SEARCHING = 2"
definition RIL_REG_DENIED :: int where "RIL_REG_DENIED = 3"
definition RIL_UNKNOWN :: int where "RIL_UNKNOWN = 4"
definition RIL_REG_ROAMING :: int where "RIL_REG_ROAMING = 5"

lemmas ril_reg_defs = RIL_NOT_REG_AND_NOT_SEARCHING_def RIL_REG_HOME_def RIL_NOT_REG_AND_SEARCHING_def
  RIL_REG_DENIED_def RIL_UNKNOWN_def RIL_REG_ROAMING_def

definition MAX_REG_WAIT :: nat where "MAX_REG_WAIT = 10"

text \<open>The registration state in the line, None at the label \<open>error\<close>.\<close>

definition cgreg_status :: "string \<Rightarrow> int option outcome" where
  "cgreg_status line = (case at_tok_start (Some line) of (e0, p) \<Rightarrow>
     if e0 < 0 then Ret None
     else (case at_tok_nextint p of (e1, _, p1) \<Rightarrow>
       if e1 < 0 then Ret None
       else (case at_tok_nextint p1 of (e2, v, _) \<Rightarrow>
         if e2 < 0 then Ret None else obind (value_of v) (\<lambda>x. Ret (Some x)))))"

definition keeps_waiting :: "int \<Rightarrow> bool" where
  "keeps_waiting s = (s = RIL_NOT_REG_AND_NOT_SEARCHING \<or> s = RIL_NOT_REG_AND_SEARCHING \<or> s = RIL_UNKNOWN)"

function reg_query :: "nat \<Rightarrow> at_chan \<Rightarrow> (int \<times> at_chan) outcome" where
  "reg_query wait_count st =
     obind (ask_line ''AT+CGREG?'' ''+CGREG:'' st) (\<lambda>(err, resp, st1).
       if err \<noteq> 0 then Ret (-1, st1)
       else obind (first_line resp) (\<lambda>line. obind (cgreg_status line) (\<lambda>v. case v of
           None \<Rightarrow> Ret (-1, st1)
         | Some s \<Rightarrow>
             if Suc wait_count > MAX_REG_WAIT then Ret (-1, st1)
             else if keeps_waiting s then reg_query (Suc wait_count) st1
             else Ret (s, st1))))"
  by pat_completeness auto
termination
  by (relation "measure (\<lambda>(n, st). MAX_REG_WAIT + 1 - n)") (auto simp: MAX_REG_WAIT_def)

declare reg_query.simps [simp del]

definition modem_hal_get_registration_status :: "at_chan \<Rightarrow> (int \<times> at_chan) outcome" where
  "modem_hal_get_registration_status st = reg_query 0 st"

section \<open>Signal strength\<close>

text \<open>
  The part behind the label \<open>cind\<close>. What it stores in \<open>signalStrength\<close> is freed without a reader;
  the result is whether it reaches the end (True) or the label \<open>error\<close>.
\<close>

definition cind_part :: "at_chan \<Rightarrow> (bool \<times> at_chan) outcome" where
  "cind_part st =
     obind (ask_line ''AT+CIND?'' ''+CIND:'' st) (\<lambda>(err, resp, st1).
       if err \<noteq> 0 then Ret (False, st1)
       else obind (first_line resp) (\<lambda>line. case at_tok_start (Some line) of (e0, p) \<Rightarrow>
         if e0 < 0 then Ret (False, st1)
         else (case at_tok_nextint p of (e1, _, p1) \<Rightarrow>
           if e1 < 0 then Ret (False, st1)
           else (case at_tok_nextint p1 of (e2, v, _) \<Rightarrow>
             if e2 < 0 then Ret (False, st1)
             else obind (value_of v) (\<lambda>s.
               if s > 0 \<and> s * 4 \<ge> 2 ^ 31 then Fault BadArith else Ret (True, st1))))))"

text \<open>\<open>-113 + (rssi * 2)\<close> on \<open>int\<close>.\<close>

definition csq_to_dbm :: "int \<Rightarrow> int outcome" where
  "csq_to_dbm rssi =
     (if - (2 ^ 31) \<le> rssi * 2 \<and> rssi * 2 < 2 ^ 31 \<and> - (2 ^ 31) \<le> -113 + rssi * 2
      then Ret (-113 + rssi * 2) else Fault BadArith)"

text \<open>What is known of \<open>rssi\<close> when the first part ends, and whether it jumped to \<open>cind\<close>.\<close>

definition csq_line :: "string \<Rightarrow> (int option \<times> bool) outcome" where
  "csq_line line = (case at_tok_start (Some line) of (e0, p) \<Rightarrow>
     if e0 < 0 then Ret (None, True)
     else (case at_tok_nextint p of (e1, rssi, p1) \<Rightarrow>
       if e1 < 0 then Ret (rssi, True)
       else (case at_tok_nextint p1 of (e2, _, _) \<Rightarrow>
         if e2 < 0 then Ret (rssi, True)
         else obind (value_of rssi) (\<lambda>r. Ret (rssi, r = 99)))))"

definition modem_hal_get_rssi :: "at_chan \<Rightarrow> (int \<times> at_chan) outcome" where
  "modem_hal_get_rssi st =
     obind (ask_line ''AT+CSQ'' ''+CSQ:'' st) (\<lambda>(err, resp, st1).
     obind (if err \<noteq> 0 then Ret (None, True) else obind (first_line resp) csq_line) (\<lambda>(rssi, cind).
     obind (if cind then cind_part st1 else Ret (True, st1)) (\<lambda>(ok, st2).
       if \<not> ok then Ret (-1, st2)
       else obind (value_of rssi) (\<lambda>r. obind (csq_to_dbm r) (\<lambda>d. Ret (d, st2))))))"

end
