(* ===== verification/AtProtocol.thy ===== *)
theory AtProtocol
  imports AtCommand
begin

text \<open>
  Properties of the channel over time: framing of what is written, retries of the handshake,
  timeouts and late answers, a reader that ends, the SMS prompt, and CME error codes.
\<close>

section \<open>Writing\<close>

text \<open>
  A line that was written in full is on the wire exactly once, followed by one carriage
  return, however \<open>write\<close> splits or interrupts it. A failed write leaves a prefix of the line and no
  terminator, a closed channel leaves nothing, and nothing else of the channel changes.
\<close>

theorem writeline_framing:
  assumes "writeline s st = Ret (e, st')"
  shows "st' = st\<lparr>wire := wire st', writes := writes st'\<rparr>
    \<and> ((e = 0 \<and> wire st' = wire st @ s @ [CR])
       \<or> (e = AT_ERROR_GENERIC \<and> (\<exists>k \<le> length s. wire st' = wire st @ take k s))
       \<or> (e = AT_ERROR_CHANNEL_CLOSED \<and> st' = st \<and> (s_fd st < 0 \<or> s_readerClosed st > 0)))"
  using write_with_Ret [OF assms [unfolded writeline_def]] by (simp add: same_but_wire_def)

text \<open>The write loops come to an end when \<open>write\<close> makes progress.\<close>

definition progress :: "write_res list \<Rightarrow> bool" where
  "progress ws = (\<forall>w \<in> set ws. \<exists>k > 0. w = WOk k)"

lemma write_main_progress:
  "progress ws \<Longrightarrow> length s \<le> length ws \<Longrightarrow>
     \<exists>ws'. write_main s ws out = Ret (0, out @ s, ws') \<and> progress ws' \<and> length ws - length s \<le> length ws'"
proof (induction s ws out rule: write_main.induct)
  case (5 c s k ws out)
  have k: "k > 0" "progress ws" using "5.prems"(1) by (auto simp: progress_def)
  have "length (drop k (c # s)) \<le> length ws" using k "5.prems"(2) by simp
  from "5.IH" [OF k(2) this] obtain ws' where
    "write_main (drop k (c # s)) ws (out @ take k (c # s))
       = Ret (0, (out @ take k (c # s)) @ drop k (c # s), ws')"
    "progress ws'" "length ws - length (drop k (c # s)) \<le> length ws'"
    by blast
  with k(1) show ?case by (auto simp del: take_Cons' drop_Cons')
qed (auto simp: progress_def)

text \<open>
  Writing a line comes to its end when every \<open>write\<close> takes at least one byte: on an open
  channel it returns 0 after at most one \<open>write\<close> for each byte and one for the terminator.
\<close>

theorem writeline_completes:
  assumes "s_fd st \<ge> 0" "s_readerClosed st \<le> 0" "progress (writes st)" "length s < length (writes st)"
  shows "\<exists>st'. writeline s st = Ret (0, st') \<and> wire st' = wire st @ s @ [CR]
    \<and> length (writes st) - Suc (length s) \<le> length (writes st')"
proof -
  obtain ws' where w: "write_main s (writes st) (wire st) = Ret (0, wire st @ s, ws')"
    "progress ws'" "length (writes st) - length s \<le> length ws'"
    using write_main_progress [OF assms(3), of s "wire st"] assms(4) by auto
  then obtain k ws where ws: "ws' = WOk k # ws" "k > 0"
    using assms(4) by (cases ws') (auto simp: progress_def)
  then show ?thesis
    using w assms by (simp add: writeline_def write_with_def)
qed

section \<open>The reader loop\<close>

text \<open>The lines that the events of the reader carry.\<close>

fun event_lines :: "reader_ev \<Rightarrow> string list" where
  "event_lines (ReaderLine l) = [l]"
| "event_lines (ReaderSms l l') = [l, l']"
| "event_lines ReaderEof = []"

text \<open>
  The reader loop hands every line on exactly once and in order, and stops once, at the end
  of the input. The one line it can lose is an SMS header after which the input ends.
\<close>

theorem readerLoop_delivers:
  "\<exists>evs lost. readerLoop ls = evs @ [ReaderEof] \<and> ReaderEof \<notin> set evs
     \<and> ls = concat (map event_lines evs) @ lost
     \<and> (lost = [] \<or> (\<exists>h. lost = [h] \<and> isSMSUnsolicited h))"
proof (induction ls rule: readerLoop.induct)
  case 1
  show ?case by (intro exI [of _ "[]"]) simp
next
  case (2 line ls)
  show ?case
  proof (cases "isSMSUnsolicited line")
    case True
    show ?thesis
    proof (cases ls)
      case Nil
      with True show ?thesis by (intro exI [of _ "[]"] exI [of _ "[line]"]) simp
    next
      case (Cons line2 ls')
      from "2.IH"(1) [OF True Cons] obtain evs lost where
        "readerLoop ls' = evs @ [ReaderEof]" "ReaderEof \<notin> set evs"
        "ls' = concat (map event_lines evs) @ lost" "lost = [] \<or> (\<exists>h. lost = [h] \<and> isSMSUnsolicited h)"
        by blast
      with True Cons show ?thesis
        by (intro exI [of _ "ReaderSms line line2 # evs"] exI [of _ lost]) auto
    qed
  next
    case False
    from "2.IH"(2) [OF False] obtain evs lost where
      "readerLoop ls = evs @ [ReaderEof]" "ReaderEof \<notin> set evs"
      "ls = concat (map event_lines evs) @ lost" "lost = [] \<or> (\<exists>h. lost = [h] \<and> isSMSUnsolicited h)"
      by blast
    with False show ?thesis
      by (intro exI [of _ "ReaderLine line # evs"] exI [of _ lost]) auto
  qed
qed

section \<open>Writes that succeed at once\<close>

text \<open>The two write results of one line that is taken in one piece.\<close>

definition one_piece :: "string \<Rightarrow> write_res list" where
  "one_piece s = [WOk (length s), WOk 1]"

definition can_write :: "at_chan \<Rightarrow> bool" where
  "can_write st = (s_fd st \<ge> 0 \<and> s_readerClosed st = 0)"

lemma write_with_one_piece:
  assumes "s \<noteq> []" "can_write st" "writes st = one_piece s @ ws"
  shows "write_with t s st = Ret (0, st\<lparr>wire := wire st @ s @ [t], writes := ws\<rparr>)"
proof -
  obtain c r where s: "s = c # r" using assms(1) by (cases s) auto
  show ?thesis
    using assms(2,3) unfolding s by (simp add: write_with_def one_piece_def can_write_def)
qed

lemma send_begin_one_piece:
  assumes "ready st" "can_write st" "c \<noteq> []" "writes st = one_piece c @ ws"
  shows "send_begin c ty pre pdu st = Ret (None, st\<lparr>wire := wire st @ c @ [CR], writes := ws, s_type := ty,
      s_responsePrefix := pre, s_smsPDU := pdu, sp_response := Some at_response_new\<rparr>)"
  using assms write_with_one_piece [OF assms(3,2,4)]
  by (simp add: send_begin_def writeline_def ready_def chan_idle_def)

section \<open>Timeouts\<close>

lemma timed_out:
  assumes "ready st" "can_write st" "c \<noteq> []" "writes st = one_piece c @ ws" "ms \<noteq> 0"
    and "sched st = TimedOut # es"
  shows "\<exists>st'. at_send_command_full_nolock c ty pre pdu ms want st = Ret (AT_ERROR_TIMEOUT, None, st')
    \<and> ready st' \<and> can_write st' \<and> wire st' = wire st @ c @ [CR] \<and> writes st' = ws \<and> sched st' = es
    \<and> unsol_log st' = unsol_log st \<and> s_unsolHandler st' = s_unsolHandler st"
  using assms send_begin_one_piece [OF assms(1-4), of ty pre pdu]
  by (simp add: at_send_command_full_nolock_def wait_response_def still_waiting_def at_response_new_def
      ready_def can_write_def chan_idle_def clearPendingCommand_def)

lemma answered:
  assumes "ready st" "can_write st" "c \<noteq> []" "writes st = one_piece c @ ws" "isFinalResponse f"
    and "sched st = Reader (ReaderLine f) # Wake # es"
  shows "\<exists>st'. at_send_command_full_nolock c ty pre pdu ms want st
      = Ret (0, if want then Some \<lparr>success = (if isFinalResponseSuccess f then 1 else 0),
                  finalResponse = Some f, p_intermediates = []\<rparr> else None, st')
    \<and> ready st' \<and> can_write st' \<and> wire st' = wire st @ c @ [CR] \<and> writes st' = ws \<and> sched st' = es"
  using assms send_begin_one_piece [OF assms(1-4), of ty pre pdu]
  by (simp add: at_send_command_full_nolock_def wait_response_def still_waiting_def at_response_new_def
      reader_step_def processLine_final ready_def can_write_def chan_idle_def clearPendingCommand_def
      send_end_def reverseIntermediates_def at_error_defs)

text \<open>
  Answers are matched to commands by order only. When a command times out and its final
  line arrives while the next command waits, that command returns with the late line as its own
  final response.
\<close>

theorem late_answer_taken:
  assumes "ready st" "can_write st" "c1 \<noteq> []" "c2 \<noteq> []" "ms \<noteq> 0" "isFinalResponse late"
    and "writes st = one_piece c1 @ one_piece c2 @ ws"
    and "sched st = TimedOut # Reader (ReaderLine late) # Wake # es"
  shows "\<exists>st1 st2 r. at_send_command_full_nolock c1 ty1 pre1 pdu1 ms True st = Ret (AT_ERROR_TIMEOUT, None, st1)
    \<and> at_send_command_full_nolock c2 ty2 pre2 pdu2 ms2 True st1 = Ret (0, Some r, st2)
    \<and> finalResponse r = Some late \<and> success r = (if isFinalResponseSuccess late then 1 else 0)
    \<and> wire st2 = wire st @ c1 @ [CR] @ c2 @ [CR]"
proof -
  obtain st1 where st1: "at_send_command_full_nolock c1 ty1 pre1 pdu1 ms True st = Ret (AT_ERROR_TIMEOUT, None, st1)"
    "ready st1" "can_write st1" "wire st1 = wire st @ c1 @ [CR]" "writes st1 = one_piece c2 @ ws"
    "sched st1 = Reader (ReaderLine late) # Wake # es"
    using timed_out [OF assms(1,2,3,7,5,8), of ty1 pre1 pdu1 True] by blast
  from answered [OF st1(2,3) assms(4) st1(5) assms(6) st1(6), of ty2 pre2 pdu2 ms2 True] st1(1,4)
  show ?thesis by fastforce
qed

lemma chan0_flags [simp]:
  "can_write (chan0\<lparr>writes := ws, sched := es\<rparr>)" "isFinalResponse ''OK''" "isFinalResponse ''ERROR''"
  by (simp_all add: can_write_def chan0_def isFinalResponse_def isFinalResponseSuccess_def
      isFinalResponseError_def s_finalResponsesSuccess_def s_finalResponsesError_def)

section \<open>The handshake\<close>

definition handshake_frame :: string where "handshake_frame = ''ATE0Q0V1'' @ [CR]"

lemma handshake_timeouts:
  "ready st \<Longrightarrow> can_write st \<Longrightarrow> n \<le> i \<Longrightarrow>
   writes st = concat (replicate n (one_piece ''ATE0Q0V1'')) @ ws \<Longrightarrow>
   sched st = replicate n TimedOut @ es \<Longrightarrow>
   \<exists>st'. handshake_loop i e st = handshake_loop (i - n) (if n = 0 then e else AT_ERROR_TIMEOUT) st'
     \<and> ready st' \<and> can_write st' \<and> writes st' = ws \<and> sched st' = es
     \<and> wire st' = wire st @ concat (replicate n handshake_frame)"
proof (induction n arbitrary: i e st)
  case 0
  then show ?case by auto
next
  case (Suc n)
  then obtain j where i: "i = Suc j" "n \<le> j" by (cases i) auto
  have w: "writes st = one_piece ''ATE0Q0V1'' @ concat (replicate n (one_piece ''ATE0Q0V1'')) @ ws"
    "sched st = TimedOut # replicate n TimedOut @ es" using Suc.prems by auto
  obtain s1 where s1: "at_send_command_full_nolock ''ATE0Q0V1'' NO_RESULT None None HANDSHAKE_TIMEOUT_MSEC False st
      = Ret (AT_ERROR_TIMEOUT, None, s1)" "ready s1" "can_write s1" "wire s1 = wire st @ handshake_frame"
    "writes s1 = concat (replicate n (one_piece ''ATE0Q0V1'')) @ ws" "sched s1 = replicate n TimedOut @ es"
    using timed_out [OF Suc.prems(1,2) _ w(1) _ w(2), of HANDSHAKE_TIMEOUT_MSEC NO_RESULT None None False]
    by (auto simp: HANDSHAKE_TIMEOUT_MSEC_def handshake_frame_def)
  from Suc.IH [OF s1(2,3) i(2) s1(5,6), of AT_ERROR_TIMEOUT] s1 show ?case
    by (auto simp: i AT_ERROR_TIMEOUT_def)
qed

text \<open>
  C6: a modem that stays silent for \<open>n\<close> attempts and then answers is found by the handshake, with
  exactly \<open>n + 1\<close> commands on the wire, as long as \<open>n\<close> is below the retry count; a modem silent
  for all eight attempts makes the handshake return the timeout error after eight commands.
\<close>

theorem handshake_retries:
  assumes "ready st" "can_write st" "n \<le> HANDSHAKE_RETRY_COUNT"
    and "writes st = concat (replicate HANDSHAKE_RETRY_COUNT (one_piece ''ATE0Q0V1''))"
    and "sched st = replicate n TimedOut @ Reader (ReaderLine f) # Wake # es" "isFinalResponse f"
  shows "\<exists>st'. at_handshake False st
      = Ret (if n < HANDSHAKE_RETRY_COUNT then 0 else AT_ERROR_TIMEOUT, st') \<and> ready st'
    \<and> wire st' = wire st @ concat (replicate (min (Suc n) HANDSHAKE_RETRY_COUNT) handshake_frame)"
proof -
  let ?R = HANDSHAKE_RETRY_COUNT
  have "writes st = concat (replicate n (one_piece ''ATE0Q0V1''))
      @ concat (replicate (?R - n) (one_piece ''ATE0Q0V1''))"
    using assms(3,4) by (metis concat_append le_add_diff_inverse replicate_add)
  from handshake_timeouts [OF assms(1,2,3) this assms(5), of 0] obtain s1 where s1:
    "at_handshake False st = handshake_loop (?R - n) (if n = 0 then 0 else AT_ERROR_TIMEOUT) s1"
    "ready s1" "can_write s1" "writes s1 = concat (replicate (?R - n) (one_piece ''ATE0Q0V1''))"
    "sched s1 = Reader (ReaderLine f) # Wake # es"
    "wire s1 = wire st @ concat (replicate n handshake_frame)"
    by (auto simp: at_handshake_def)
  show ?thesis
  proof (cases "n < ?R")
    case True
    then obtain j where j: "?R - n = Suc j" using Suc_diff_Suc by metis
    have w: "writes s1 = one_piece ''ATE0Q0V1'' @ concat (replicate j (one_piece ''ATE0Q0V1''))"
      using s1(4) j by simp
    from answered [OF s1(2,3) _ w assms(6) s1(5), of NO_RESULT None None HANDSHAKE_TIMEOUT_MSEC False]
    obtain s2 where "at_send_command_full_nolock ''ATE0Q0V1'' NO_RESULT None None HANDSHAKE_TIMEOUT_MSEC False s1
        = Ret (0, None, s2)" "ready s2" "wire s2 = wire s1 @ handshake_frame"
      by (auto simp: handshake_frame_def)
    moreover have "concat (replicate (Suc n) handshake_frame)
        = concat (replicate n handshake_frame) @ handshake_frame"
      by (simp add: replicate_append_same [symmetric])
    ultimately show ?thesis using s1 j True by (simp add: min_def)
  next
    case False
    with s1 assms(3) show ?thesis by (auto simp: HANDSHAKE_RETRY_COUNT_def)
  qed
qed

theorem handshake_retries_witness:
  "\<exists>st'. at_handshake False
      (chan0\<lparr>writes := concat (replicate HANDSHAKE_RETRY_COUNT (one_piece ''ATE0Q0V1'')),
             sched := replicate 2 TimedOut @ Reader (ReaderLine ''OK'') # Wake # []\<rparr>)
      = Ret (if 2 < HANDSHAKE_RETRY_COUNT then 0 else AT_ERROR_TIMEOUT, st') \<and> ready st'
    \<and> wire st' = wire (chan0\<lparr>writes := concat (replicate HANDSHAKE_RETRY_COUNT (one_piece ''ATE0Q0V1'')),
             sched := replicate 2 TimedOut @ Reader (ReaderLine ''OK'') # Wake # []\<rparr>)
        @ concat (replicate (min (Suc 2) HANDSHAKE_RETRY_COUNT) handshake_frame)"
  by (rule handshake_retries [OF ready_chan0 chan0_flags(1) _ _ _ chan0_flags(2)])
    (simp_all add: HANDSHAKE_RETRY_COUNT_def)

section \<open>A reader that ends\<close>

lemma in_wait_wakes:
  "still_waiting st = Ret True \<Longrightarrow> in_wait timed (replicate n Wake) st = Blocked"
  by (induction n) auto

text \<open>
  C7: when the reader meets the end of the input during a command without a timeout, the
  command returns the channel-closed error if a callback for that was registered; without one,
  \<open>s_readerClosed\<close> is never set and the command waits for ever, however often it is woken.
\<close>

theorem reader_end_wait:
  assumes "ready st" "can_write st" "c \<noteq> []" "writes st = one_piece c @ ws"
    and "sched st = Reader ReaderEof # replicate (Suc n) Wake"
  shows "if s_onReaderClosed st
    then \<exists>r st'. at_send_command_full_nolock c ty pre pdu 0 True st = Ret (AT_ERROR_CHANNEL_CLOSED, Some r, st')
      \<and> finalResponse r = None \<and> s_readerClosed st' = 1 \<and> closed_calls st' = Suc (closed_calls st)
    else at_send_command_full_nolock c ty pre pdu 0 True st = Blocked"
proof -
  let ?s = "st\<lparr>wire := wire st @ c @ [CR], writes := ws, s_type := ty,
      s_responsePrefix := pre, s_smsPDU := pdu, sp_response := Some at_response_new\<rparr>"
  note b = send_begin_one_piece [OF assms(1-4), of ty pre pdu]
  have w: "still_waiting ?s = Ret True"
    using assms(2) by (simp add: still_waiting_def at_response_new_def can_write_def)
  show ?thesis
  proof (cases "s_onReaderClosed st")
    case True
    with assms(2,5) b w show ?thesis
      by (simp add: at_send_command_full_nolock_def wait_response_def reader_step_def onReaderClosed_def
          still_waiting_def at_response_new_def send_end_def reverseIntermediates_def at_error_defs
          clearPendingCommand_def can_write_def)
  next
    case False
    then have "onReaderClosed ?s = ?s" by (simp add: onReaderClosed_def)
    with False assms(5) b w in_wait_wakes [OF w, of False "Suc n"] show ?thesis
      by (simp add: at_send_command_full_nolock_def wait_response_def reader_step_def)
  qed
qed

theorem reader_end_wait_witness:
  "if s_onReaderClosed (chan0\<lparr>writes := one_piece ''AT'' @ [], sched := Reader ReaderEof # replicate (Suc 4) Wake\<rparr>)
    then \<exists>r st'. at_send_command_full_nolock ''AT'' NO_RESULT None None 0 True
        (chan0\<lparr>writes := one_piece ''AT'' @ [], sched := Reader ReaderEof # replicate (Suc 4) Wake\<rparr>)
          = Ret (AT_ERROR_CHANNEL_CLOSED, Some r, st')
      \<and> finalResponse r = None \<and> s_readerClosed st' = 1
      \<and> closed_calls st' = Suc (closed_calls (chan0\<lparr>writes := one_piece ''AT'' @ [], sched := Reader ReaderEof # replicate (Suc 4) Wake\<rparr>))
    else at_send_command_full_nolock ''AT'' NO_RESULT None None 0 True
        (chan0\<lparr>writes := one_piece ''AT'' @ [], sched := Reader ReaderEof # replicate (Suc 4) Wake\<rparr>) = Blocked"
  by (rule reader_end_wait [OF ready_chan0 chan0_flags(1)]) (simp_all del: replicate.simps)

section \<open>The SMS prompt\<close>

definition CTRL_Z :: char where "CTRL_Z = CHR 0x1A"

lemma prompt_not_final: "\<not> isFinalResponse ''> ''"
  by code_simp

text \<open>
  C8: a command with an SMS text writes the text, followed by one control-Z, when the prompt
  arrives, and only then; after that a line with the prefix becomes the answer and the final
  line ends the command.
\<close>

theorem sms_prompt:
  assumes "ready st" "can_write st" "s_unsolHandler st" "c \<noteq> []" "pdu \<noteq> []"
    and "writes st = one_piece c @ one_piece pdu @ ws"
    and "sched st = Reader (ReaderLine ''> '') # map (\<lambda>l. Reader (ReaderLine l)) (ls @ [f]) @ Wake # es"
    and "\<forall>l \<in> set ls. \<not> isFinalResponse l" "isFinalResponseSuccess f"
    and "answer_lines SINGLELINE (Some pre) ls \<noteq> []"
  shows "\<exists>st'. at_send_command_sms False c pdu pre True st
      = Ret (0, Some \<lparr>success = 1, finalResponse = Some f,
               p_intermediates = answer_lines SINGLELINE (Some pre) ls\<rparr>, st')
    \<and> wire st' = wire st @ c @ [CR] @ pdu @ [CTRL_Z] \<and> ready st'"
proof -
  let ?s = "st\<lparr>wire := wire st @ c @ [CR], writes := one_piece pdu @ ws, s_type := SINGLELINE,
      s_responsePrefix := Some pre, s_smsPDU := Some pdu, sp_response := Some at_response_new\<rparr>"
  let ?s1 = "?s\<lparr>wire := wire st @ c @ [CR] @ pdu @ [CTRL_Z], writes := ws, s_smsPDU := None\<rparr>"
  let ?es = "map (\<lambda>l. Reader (ReaderLine l)) (ls @ [f]) @ Wake # es"
  note b = send_begin_one_piece [OF assms(1,2,4,6), of SINGLELINE "Some pre" "Some pdu"]
  have "writeCtrlZ pdu ?s = Ret (0, ?s\<lparr>wire := wire st @ c @ [CR] @ pdu @ [CTRL_Z], writes := ws\<rparr>)"
    using write_with_one_piece [of pdu ?s ws] assms(2,5)
    by (simp add: writeCtrlZ_def can_write_def CTRL_Z_def)
  then have "processLine ''> '' ?s = Ret ?s1"
    using prompt_not_final by (simp add: processLine_def isFinalResponse_def)
  then have w1: "wait_response False ?s = in_wait False ?es ?s1"
    using assms(2,7) by (simp add: wait_response_def still_waiting_def at_response_new_def
        reader_step_def can_write_def)
  have f: "isFinalResponse f" using assms(9) by (simp add: isFinalResponse_def)
  have "in_wait False ?es ?s1 = Ret (0, ?s1\<lparr>sp_response := Some \<lparr>success = 1,
           finalResponse = Some f, p_intermediates = rev (answer_lines SINGLELINE (Some pre) ls)\<rparr>,
         unsol_log := unsol_log st @ map (\<lambda>l. (l, None)) (other_lines SINGLELINE (Some pre) False ls),
         sched := es\<rparr>)"
    using in_wait_answer [of ?s1 ls f False es] assms(3,8,9) f by (simp add: type_ok_def)
  then show ?thesis
    using w1 b assms(1,2,10)
    by (simp add: at_send_command_sms_def at_send_command_full_def at_send_command_full_nolock_def
        send_end_def reverseIntermediates_def flip_lines_rev require_line_def at_error_defs
        ready_def chan_idle_def clearPendingCommand_def can_write_def)
qed

theorem sms_prompt_witness:
  "\<exists>st'. at_send_command_sms False ''AT+CMGS=2'' ''00a1'' ''+CMGS:'' True
      (chan0\<lparr>writes := one_piece ''AT+CMGS=2'' @ one_piece ''00a1'' @ [],
        sched := Reader (ReaderLine ''> '') # map (\<lambda>l. Reader (ReaderLine l)) ([''+CMGS: 4''] @ [''OK'']) @ Wake # []\<rparr>)
      = Ret (0, Some \<lparr>success = 1, finalResponse = Some ''OK'',
               p_intermediates = answer_lines SINGLELINE (Some ''+CMGS:'') [''+CMGS: 4'']\<rparr>, st')
    \<and> wire st' = wire (chan0\<lparr>writes := one_piece ''AT+CMGS=2'' @ one_piece ''00a1'' @ [],
        sched := Reader (ReaderLine ''> '') # map (\<lambda>l. Reader (ReaderLine l)) ([''+CMGS: 4''] @ [''OK'']) @ Wake # []\<rparr>)
        @ ''AT+CMGS=2'' @ [CR] @ ''00a1'' @ [CTRL_Z] \<and> ready st'"
proof (rule sms_prompt [OF ready_chan0 chan0_flags(1)])
  show "\<forall>l \<in> set [''+CMGS: 4'']. \<not> isFinalResponse l" by code_simp
  show "isFinalResponseSuccess ''OK''" by code_simp
  show "answer_lines SINGLELINE (Some ''+CMGS:'') [''+CMGS: 4''] \<noteq> []" by code_simp
qed (simp_all add: chan0_def)

section \<open>CME errors\<close>

text \<open>
  The CME error number of a response is the number that the modem printed after
  \<open>+CME ERROR:\<close>, for every number that fits an \<open>int\<close>; a success is 0, and every other error
  response, or one without a final line, is -1.
\<close>

theorem cme_error_code:
  assumes "- (2 ^ 31) \<le> n" "n < 2 ^ 31" "blanks w"
  shows "(success r > 0 \<longrightarrow> at_get_cme_error r = 0)
    \<and> (success r \<le> 0 \<and> finalResponse r = Some (''+CME ERROR:'' @ w @ show_int n) \<longrightarrow> at_get_cme_error r = n)
    \<and> (success r \<le> 0 \<and> (\<forall>f. finalResponse r = Some f \<longrightarrow> \<not> starts_with f ''+CME ERROR:'')
        \<longrightarrow> at_get_cme_error r = -1)"
proof -
  have "at_tok_start (Some (''+CME ERROR'' @ CHR '':'' # (w @ show_int n))) = (0, Some (w @ show_int n))"
    by (rule at_tok_start_colon) simp
  then have s: "at_tok_start (Some (''+CME ERROR:'' @ w @ show_int n)) = (0, Some (w @ show_int n))" by simp
  have p: "strStartsWith (''+CME ERROR:'' @ w @ show_int n) ''+CME ERROR:''"
    unfolding strStartsWith_iff by (rule starts_with_append)
  have "at_get_cme_error r = n"
    if "success r \<le> 0" "finalResponse r = Some (''+CME ERROR:'' @ w @ show_int n)"
    using that at_tok_nextint_show(2) [OF assms] s p
    by (simp add: at_get_cme_error_def del: append_Cons append_Nil)
  then show ?thesis
    by (auto simp: at_get_cme_error_def strStartsWith_iff split: option.split)
qed

section \<open>Time\<close>

text \<open>
  The deadline of a timed wait is a well-formed \<open>timespec\<close> that lies exactly the asked number
  of milliseconds after the time of day, for every timeout that is not negative.
\<close>

theorem setTimespecRelative_exact:
  assumes "0 \<le> usec" "usec < 1000000" "0 \<le> msec" "setTimespecRelative (sec, usec) msec = (s, ns)"
  shows "0 \<le> ns \<and> ns < NS_PER_S
    \<and> s * 1000000000 + ns = (sec * 1000000 + usec) * 1000 + msec * 1000000"
proof -
  have d: "msec sdiv 1000 = msec div 1000" "msec smod 1000 = msec mod 1000"
    using assms(3) by (simp_all add: signed_divide_int_def signed_modulo_int_def sgn_if)
  have e: "msec div 1000 * 1000000000 + 1000000 * (msec mod 1000) = msec * 1000000" by presburger
  have m: "0 \<le> msec mod 1000" "msec mod 1000 < 1000" by simp_all
  show ?thesis using assms(1,2,4) m e
    by (auto simp: setTimespecRelative_def NS_PER_S_def d Let_def split: if_splits)
qed

text \<open>The sleep of the handshake ends exactly after its time, however often it is interrupted.\<close>

lemma nanosleep_total:
  "None \<in> set evs \<Longrightarrow> nanosleep_loop ts evs slept = Ret (slept + ts)"
  by (induction ts evs slept rule: nanosleep_loop.induct) auto

lemma sleepMsec_total:
  assumes "None \<in> set evs"
  shows "sleepMsec msec evs = Ret (msec * 1000000)"
proof -
  have "(msec div 1000) * 1000000000 + (msec mod 1000) * 1000 * 1000
      = (msec div 1000 * 1000 + msec mod 1000) * 1000000"
    unfolding add_mult_distrib by simp
  then have "(msec div 1000) * 1000000000 + (msec mod 1000) * 1000 * 1000 = msec * 1000000"
    by (simp only: div_mult_mod_eq)
  with nanosleep_total [OF assms] show ?thesis by (simp add: sleepMsec_def)
qed

end
