(* ===== verification/AtTalk.thy ===== *)
theory AtTalk
  imports AtProtocol
begin

text \<open>
  Scripted conversations: a modem that answers each command with given lines and a final line.
  The modem properties are stated over them. Also what a command may put on the wire at all.
\<close>

section \<open>What reaches the wire\<close>

lemma processLine_no_pdu:
  assumes "processLine l st = Ret st'" "s_smsPDU st = None"
  shows "wire st' = wire st \<and> s_smsPDU st' = None"
  using assms
  by (auto simp: processLine_def handleUnsolicited_def handleFinalResponse_def line_by_type_def
      addIntermediate_def prefix_match_def outcome_simps
      split: option.splits if_splits at_type.splits)

lemma reader_step_no_pdu:
  assumes "reader_step e st = Ret st'" "s_smsPDU st = None"
  shows "wire st' = wire st \<and> s_smsPDU st' = None"
  using assms processLine_no_pdu
  by (auto simp: reader_step_def onReaderClosed_def split: reader_ev.splits if_splits)

lemma in_wait_no_pdu:
  "in_wait timed es st = Ret (e, st') \<Longrightarrow> s_smsPDU st = None \<Longrightarrow> wire st' = wire st"
proof (induction timed es st rule: in_wait.induct)
  case (2 timed ev es st)
  then obtain s1 where s1: "reader_step ev st = Ret s1" "in_wait timed es s1 = Ret (e, st')"
    by (auto simp: obind_eq_Ret)
  from reader_step_no_pdu [OF s1(1) 2(3)] 2(1) [OF s1] show ?case by simp
qed (auto simp: outcome_simps split: if_splits)

lemma wait_no_pdu:
  "wait_response timed st = Ret (e, st') \<Longrightarrow> s_smsPDU st = None \<Longrightarrow> wire st' = wire st"
  by (auto simp: wait_response_def outcome_simps split: if_splits dest!: in_wait_no_pdu)

lemma clear_wire [simp]: "wire (clearPendingCommand st) = wire st"
  by (simp add: clearPendingCommand_def)

lemma nolock_wire:
  assumes "at_send_command_full_nolock c ty pre None ms want st = Ret (e, r, st')"
  shows "\<exists>x s1. send_begin c ty pre None st = Ret (x, s1) \<and> (s_smsPDU s1 = None \<or> x \<noteq> None \<longrightarrow> wire st' = wire s1)"
proof -
  from assms obtain x s1 where b: "send_begin c ty pre None st = Ret (x, s1)"
    and k: "(case x of Some err \<Rightarrow> Ret (err, None, clearPendingCommand s1)
       | None \<Rightarrow> obind (wait_response (ms \<noteq> 0) s1) (\<lambda>(err, st2).
           if err = AT_ERROR_TIMEOUT then Ret (AT_ERROR_TIMEOUT, None, clearPendingCommand st2)
           else Ret (send_end want st2))) = Ret (e, r, st')"
    unfolding at_send_command_full_nolock_def obind_eq_Ret by auto
  show ?thesis
  proof (cases x)
    case None
    with k obtain er s2 where w: "wait_response (ms \<noteq> 0) s1 = Ret (er, s2)"
      and s2: "(if er = AT_ERROR_TIMEOUT then (AT_ERROR_TIMEOUT, None, clearPendingCommand s2)
        else send_end want s2) = (e, r, st')"
      by (auto simp: obind_eq_Ret split: if_splits)
    have "wire st' = wire s2" using s2 by (auto simp: send_end_def split: if_splits)
    with wait_no_pdu [OF w] b None show ?thesis by auto
  qed (use b k in auto)
qed

text \<open>A command without an SMS text writes a prefix of its line, or all of it.\<close>

lemma send_wire:
  assumes "at_send_command_full False c ty pre None ms want st = Ret (e, r, st')"
  shows "\<exists>j. wire st' = wire st @ take j (c @ [CR])"
proof -
  from assms obtain r1 st1 where n: "at_send_command_full_nolock c ty pre None ms want st = Ret (e, r1, st1)"
    "wire st' = wire st1"
    unfolding at_send_command_full_def by (auto simp: obind_eq_Ret split: if_splits)
  obtain x s1 where b: "send_begin c ty pre None st = Ret (x, s1)"
    and rest: "s_smsPDU s1 = None \<or> x \<noteq> None \<longrightarrow> wire st1 = wire s1"
    using nolock_wire [OF n(1)] by blast
  have "x = None \<longrightarrow> s_smsPDU s1 = None"
    using b by (auto simp: send_begin_def obind_eq_Ret split: if_splits)
  with rest have w: "wire st1 = wire s1" by blast
  have "\<exists>j. wire s1 = wire st @ take j (c @ [CR])"
  proof (cases "sp_response st = None")
    case False
    with b show ?thesis by (auto simp: send_begin_def intro: exI [of _ 0])
  next
    case True
    with b obtain y s2 where y: "writeline c st = Ret (y, s2)" "wire s1 = wire s2"
      by (auto simp: send_begin_def obind_eq_Ret split: if_splits)
    from write_with_Ret(2) [OF y(1) [unfolded writeline_def]] show ?thesis
    proof (elim disjE conjE exE)
      assume "wire s2 = wire st @ c @ [CR]"
      then show ?thesis using y(2) by (intro exI [of _ "Suc (length c)"]) simp
    next
      fix k assume "k \<le> length c" "wire s2 = wire st @ take k c"
      then show ?thesis using y(2) by (intro exI [of _ k]) simp
    qed (use y(2) in \<open>auto intro: exI [of _ 0]\<close>)
  qed
  with w n(2) show ?thesis by simp
qed

lemma require_line_state: "require_line (e, r, st) = (e', r', st') \<Longrightarrow> st' = st"
  using require_line_cases [of e r st] by auto

lemma ask_wire:
  assumes "at_send_command_singleline False c p True st = Ret (e, r, st')"
  shows "\<exists>j. wire st' = wire st @ take j (c @ [CR])"
proof -
  from assms obtain e1 r1 where "at_send_command_full False c SINGLELINE (Some p) None 0 True st = Ret (e1, r1, st')"
    unfolding at_send_command_singleline_def obind_eq_Ret
    by (metis outcome.inject(1) prod_cases3 require_line_state)
  then show ?thesis by (rule send_wire)
qed

section \<open>Conversations\<close>

type_synonym exchange = "string \<times> string list \<times> string"

definition answer_events :: "exchange \<Rightarrow> wait_ev list" where
  "answer_events x = (case x of (c, ls, f) \<Rightarrow> map (\<lambda>l. Reader (ReaderLine l)) (ls @ [f]) @ [Wake])"

definition talks :: "exchange list \<Rightarrow> at_chan \<Rightarrow> bool" where
  "talks xs st = (ready st \<and> can_write st \<and> s_unsolHandler st
     \<and> (\<exists>ws. writes st = concat (map (\<lambda>x. one_piece (fst x)) xs) @ ws)
     \<and> (\<exists>es. sched st = concat (map answer_events xs) @ es))"

definition exchange_ok :: "exchange \<Rightarrow> bool" where
  "exchange_ok x = (case x of (c, ls, f) \<Rightarrow> c \<noteq> [] \<and> (\<forall>l \<in> set ls. \<not> isFinalResponse l) \<and> isFinalResponse f)"

text \<open>One exchange: the command gets its answer and the rest of the script is ahead.\<close>

lemma talk_step:
  assumes "talks ((c, ls, f) # xs) st" "exchange_ok (c, ls, f)" "type_ok ty pre"
  shows "\<exists>st'. at_send_command_full_nolock c ty pre None ms want st
      = Ret (0, if want then Some \<lparr>success = (if isFinalResponseSuccess f then 1 else 0),
                  finalResponse = Some f, p_intermediates = answer_lines ty pre ls\<rparr> else None, st')
    \<and> talks xs st' \<and> wire st' = wire st @ c @ [CR]
    \<and> unsol_log st' = unsol_log st @ map (\<lambda>l. (l, None)) (other_lines ty pre False ls)"
proof -
  from assms(1) obtain ws es where st: "ready st" "can_write st" "s_unsolHandler st"
    "writes st = one_piece c @ concat (map (\<lambda>x. one_piece (fst x)) xs) @ ws"
    "sched st = map (\<lambda>l. Reader (ReaderLine l)) (ls @ [f]) @ Wake # concat (map answer_events xs) @ es"
    by (auto simp: talks_def answer_events_def)
  let ?s1 = "st\<lparr>wire := wire st @ c @ [CR], writes := concat (map (\<lambda>x. one_piece (fst x)) xs) @ ws, s_type := ty,
      s_responsePrefix := pre, s_smsPDU := None, sp_response := Some at_response_new\<rparr>"
  have b: "send_begin c ty pre None st = Ret (None, ?s1)"
    using send_begin_one_piece [OF st(1,2) _ st(4)] assms(2) by (simp add: exchange_ok_def)
  have w: "wait_response (ms \<noteq> 0) ?s1 = Ret (0, ?s1\<lparr>sp_response := Some \<lparr>success = (if isFinalResponseSuccess f then 1 else 0),
           finalResponse = Some f, p_intermediates = rev (answer_lines ty pre ls)\<rparr>,
         unsol_log := unsol_log st @ map (\<lambda>l. (l, None)) (other_lines ty pre False ls),
         sched := concat (map answer_events xs) @ es\<rparr>)"
    using wait_answer [of ?s1 ls f "concat (map answer_events xs) @ es" "ms \<noteq> 0"] st assms(2,3)
    by (simp add: exchange_ok_def can_write_def)
  show ?thesis
    using b w st(1,2,3)
    by (simp add: at_send_command_full_nolock_def send_end_def reverseIntermediates_def flip_lines_rev
        at_error_defs ready_def chan_idle_def clearPendingCommand_def can_write_def talks_def)
qed

lemma talk_full:
  assumes "talks ((c, ls, f) # xs) st" "exchange_ok (c, ls, f)" "type_ok ty pre"
  shows "\<exists>st'. at_send_command_full False c ty pre None ms want st
      = Ret (0, if want then Some \<lparr>success = (if isFinalResponseSuccess f then 1 else 0),
                  finalResponse = Some f, p_intermediates = answer_lines ty pre ls\<rparr> else None, st')
    \<and> talks xs st' \<and> wire st' = wire st @ c @ [CR]
    \<and> unsol_log st' = unsol_log st @ map (\<lambda>l. (l, None)) (other_lines ty pre False ls)"
  using talk_step [OF assms, of ms want] by (auto simp: at_send_command_full_def AT_ERROR_TIMEOUT_def)

text \<open>A single-line command: an error response, or a success whose first matching line is there.\<close>

lemma talk_ask:
  assumes "talks ((c, ls, f) # xs) st" "exchange_ok (c, ls, f)"
    "isFinalResponseSuccess f \<longrightarrow> answer_lines SINGLELINE (Some p) ls \<noteq> []"
  shows "\<exists>st'. at_send_command_singleline False c p True st
      = Ret (0, Some \<lparr>success = (if isFinalResponseSuccess f then 1 else 0),
                  finalResponse = Some f, p_intermediates = answer_lines SINGLELINE (Some p) ls\<rparr>, st')
    \<and> talks xs st' \<and> wire st' = wire st @ c @ [CR]
    \<and> unsol_log st' = unsol_log st @ map (\<lambda>l. (l, None)) (other_lines SINGLELINE (Some p) False ls)"
proof -
  obtain st' where "at_send_command_full False c SINGLELINE (Some p) None 0 True st
      = Ret (0, Some \<lparr>success = (if isFinalResponseSuccess f then 1 else 0),
                  finalResponse = Some f, p_intermediates = answer_lines SINGLELINE (Some p) ls\<rparr>, st')"
    "talks xs st'" "wire st' = wire st @ c @ [CR]"
    "unsol_log st' = unsol_log st @ map (\<lambda>l. (l, None)) (other_lines SINGLELINE (Some p) False ls)"
    using talk_full [OF assms(1,2), of SINGLELINE "Some p" 0 True] by (auto simp: type_ok_def)
  then show ?thesis using assms(3) by (simp add: at_send_command_singleline_def require_line_def)
qed

text \<open>A success without the line that the caller asked for.\<close>

lemma talk_ask_no_line:
  assumes "talks ((c, ls, f) # xs) st" "exchange_ok (c, ls, f)"
    "isFinalResponseSuccess f" "answer_lines SINGLELINE (Some p) ls = []"
  shows "\<exists>st'. at_send_command_singleline False c p True st = Ret (AT_ERROR_INVALID_RESPONSE, None, st')
    \<and> talks xs st' \<and> wire st' = wire st @ c @ [CR]"
proof -
  obtain st' where "at_send_command_full False c SINGLELINE (Some p) None 0 True st
      = Ret (0, Some \<lparr>success = (if isFinalResponseSuccess f then 1 else 0),
                  finalResponse = Some f, p_intermediates = answer_lines SINGLELINE (Some p) ls\<rparr>, st')"
    "talks xs st'" "wire st' = wire st @ c @ [CR]"
    using talk_full [OF assms(1,2), of SINGLELINE "Some p" 0 True] by (auto simp: type_ok_def)
  then show ?thesis using assms(3,4) by (simp add: at_send_command_singleline_def require_line_def)
qed

text \<open>A channel on which a script plays, for witnesses.\<close>

definition script_chan :: "exchange list \<Rightarrow> at_chan" where
  "script_chan xs = chan0\<lparr>writes := concat (map (\<lambda>x. one_piece (fst x)) xs), sched := concat (map answer_events xs)\<rparr>"

lemma talks_script [simp]: "talks xs (script_chan xs)"
  by (auto simp: talks_def script_chan_def chan0_def can_write_def ready_def chan_idle_def)

end
