(* ===== verification/ModemQueries.thy ===== *)
theory ModemQueries
  imports ModemAt AtTalk
begin

text \<open>
  What the AT functions of the modem do with the answers of a modem: the lines of the answers are
  written with the printer of theory CNum and read with the tokenizer, over scripted conversations.
\<close>


section \<open>Lines of answers\<close>

text \<open>What \<open>at_tok_start\<close> leaves of a line with a known head.\<close>

lemma tok_start_head:
  "CHR '':'' \<notin> set h \<Longrightarrow> at_tok_start (Some (h @ CHR '':'' # r)) = (0, Some r)"
  by (rule at_tok_start_colon)

lemma blank1 [simp]: "blanks '' ''"
  by (simp add: blanks_def isspace_def)

lemma two_ints:
  assumes "- (2 ^ 31) \<le> a" "a < 2 ^ 31" "- (2 ^ 31) \<le> b" "b < 2 ^ 31"
  shows "at_tok_nextint (Some ('' '' @ show_int a @ CHR '','' # show_int b)) = (0, Some a, Some (show_int b))"
    "at_tok_nextint (Some (show_int b)) = (0, Some b, None)"
  using at_tok_nextint_show(1) [OF assms(1,2) blank1] at_tok_nextint_show(2) [OF assms(3,4), of "[]"]
  by simp_all

section \<open>Registration\<close>

lemma first_line_Ret: "first_line r = Ret l \<longleftrightarrow> (\<exists>x ls. r = Some x \<and> p_intermediates x = l # ls)"
  by (auto simp: first_line_def response_ptr_def obind_eq_Ret split: option.splits list.splits)

lemma reg_query_wire:
  "reg_query n st = Ret (v, st') \<Longrightarrow> ready st \<Longrightarrow> n \<le> MAX_REG_WAIT \<Longrightarrow>
   ready st' \<and> \<not> keeps_waiting v \<and> (\<exists>js. length js \<le> MAX_REG_WAIT + 1 - n
     \<and> wire st' = wire st @ concat (map (\<lambda>j. take j (''AT+CGREG?'' @ [CR])) js))"
proof (induction n st arbitrary: v st' rule: reg_query.induct)
  case (1 n st)
  from 1(2) obtain err resp st1 where a: "ask_line ''AT+CGREG?'' ''+CGREG:'' st = Ret (err, resp, st1)"
    and k: "(if err \<noteq> 0 then Ret (-1, st1)
       else obind (first_line resp) (\<lambda>line. obind (cgreg_status line) (\<lambda>v. case v of
           None \<Rightarrow> Ret (-1, st1)
         | Some s \<Rightarrow>
             if Suc n > MAX_REG_WAIT then Ret (-1, st1)
             else if keeps_waiting s then reg_query (Suc n) st1
             else Ret (s, st1)))) = Ret (v, st')"
    by (subst (asm) reg_query.simps) (auto simp: obind_eq_Ret)
  have r1: "ready st1" using single.ready_after [OF 1(3) a] .
  obtain j where j: "wire st1 = wire st @ take j (''AT+CGREG?'' @ [CR])" using ask_wire [OF a] by blast
  have m1: "\<not> keeps_waiting (-1)" by (simp add: keeps_waiting_def ril_reg_defs)
  have one: ?case if "st' = st1" "\<not> keeps_waiting v"
    using that r1 j 1(4) by (intro conjI exI [of _ "[j]"]) auto
  show ?case
  proof (cases "err = 0")
    case False
    with k one m1 show ?thesis by simp
  next
    case True
    with k obtain line ov where l: "first_line resp = Ret line" "cgreg_status line = Ret ov"
      and k2: "(case ov of None \<Rightarrow> Ret (-1, st1) | Some s \<Rightarrow>
             if Suc n > MAX_REG_WAIT then Ret (-1, st1)
             else if keeps_waiting s then reg_query (Suc n) st1
             else Ret (s, st1)) = Ret (v, st')"
      by (auto simp: obind_eq_Ret)
    show ?thesis
    proof (cases "\<exists>s. ov = Some s \<and> \<not> Suc n > MAX_REG_WAIT \<and> keeps_waiting s")
      case False
      with k2 one m1 show ?thesis by (auto split: option.splits if_splits)
    next
      case t: True
      then obtain s where s: "ov = Some s" "\<not> Suc n > MAX_REG_WAIT" "keeps_waiting s" by blast
      with k2 have q: "reg_query (Suc n) st1 = Ret (v, st')" by simp
      have "ready st' \<and> \<not> keeps_waiting v \<and> (\<exists>js. length js \<le> MAX_REG_WAIT + 1 - Suc n
          \<and> wire st' = wire st1 @ concat (map (\<lambda>j. take j (''AT+CGREG?'' @ [CR])) js))"
        using 1(1) [OF a refl refl _ l s(1,2,3) q r1] True s(2) by simp
      then obtain js where "ready st'" "\<not> keeps_waiting v" "length js \<le> MAX_REG_WAIT + 1 - Suc n"
        "wire st' = wire st1 @ concat (map (\<lambda>j. take j (''AT+CGREG?'' @ [CR])) js)" by blast
      with j s(2) show ?thesis by (intro conjI exI [of _ "j # js"]) auto
    qed
  qed
qed
text \<open>
  C18: the registration query ends after at most eleven commands, whatever the modem answers and
  whenever; its result is never one of the states that mean to ask again, and no command is
  pending afterwards.
\<close>

theorem registration_bounded:
  assumes "ready st" "modem_hal_get_registration_status st = Ret (v, st')"
  shows "ready st' \<and> v \<notin> {RIL_NOT_REG_AND_NOT_SEARCHING, RIL_NOT_REG_AND_SEARCHING, RIL_UNKNOWN}
    \<and> (\<exists>js. length js \<le> 11 \<and> wire st' = wire st @ concat (map (\<lambda>j. take j (''AT+CGREG?'' @ [CR])) js))"
  using reg_query_wire [OF assms(2) [unfolded modem_hal_get_registration_status_def] assms(1)]
  by (auto simp: keeps_waiting_def MAX_REG_WAIT_def)

definition cgreg_answer :: "int \<Rightarrow> exchange" where
  "cgreg_answer s = (''AT+CGREG?'', [''+CGREG: '' @ show_int 1 @ CHR '','' # show_int s], ''OK'')"

lemma not_final_line: "hd l \<notin> set ''OCEN+'' \<Longrightarrow> l \<noteq> [] \<Longrightarrow> \<not> isFinalResponse l"
  by (cases l) (auto simp: isFinalResponse_def isFinalResponseSuccess_def isFinalResponseError_def
      s_finalResponsesSuccess_def s_finalResponsesError_def)

lemma ok_final [simp]: "isFinalResponseSuccess ''OK''"
  by code_simp

lemma plus_line: "l = CHR ''+'' # c # r \<Longrightarrow> c \<noteq> CHR ''C'' \<or> take 2 (r @ ''  '') \<notin> {''MS'', ''ME''} \<Longrightarrow> \<not> isFinalResponse l"
  by (cases r; cases "tl r") (auto simp: isFinalResponse_def isFinalResponseSuccess_def isFinalResponseError_def
      s_finalResponsesSuccess_def s_finalResponsesError_def)

lemma cgreg_exchange_ok [simp]: "exchange_ok (cgreg_answer s)"
  by (simp add: cgreg_answer_def exchange_ok_def plus_line)

lemma single_answer: "starts_with l p \<Longrightarrow> answer_lines SINGLELINE (Some p) (l # ls) = [l]"
  by (simp add: answer_lines_def matches_def single_shot_def)

lemma talk_ask_ok:
  assumes "talks ((c, [l], ''OK'') # xs) st" "exchange_ok (c, [l], ''OK'')" "starts_with l p"
  shows "\<exists>st'. ask_line c p st = Ret (0, Some \<lparr>success = 1, finalResponse = Some ''OK'', p_intermediates = [l]\<rparr>, st')
    \<and> talks xs st' \<and> wire st' = wire st @ c @ [CR] \<and> unsol_log st' = unsol_log st"
  using talk_ask [OF assms(1,2), of p] single_answer [OF assms(3), of "[]"] assms(3) by (auto simp: matches_def)

lemma cgreg_status_show:
  assumes "- (2 ^ 31) \<le> s" "s < 2 ^ 31"
  shows "cgreg_status (''+CGREG: '' @ show_int 1 @ CHR '','' # show_int s) = Ret (Some s)"
  using tok_start_head [of "''+CGREG''" "'' '' @ show_int 1 @ CHR '','' # show_int s"] two_ints [of 1 s] assms
  by (simp add: cgreg_status_def value_of_def)

lemma cgreg_turn:
  assumes "talks (cgreg_answer s # xs) st" "- (2 ^ 31) \<le> s" "s < 2 ^ 31"
  shows "\<exists>st1. talks xs st1 \<and> wire st1 = wire st @ ''AT+CGREG?'' @ [CR] \<and> unsol_log st1 = unsol_log st \<and> reg_query n st =
     (if Suc n > MAX_REG_WAIT then Ret (-1, st1)
      else if keeps_waiting s then reg_query (Suc n) st1 else Ret (s, st1))"
proof -
  have sw: "starts_with (''+CGREG: '' @ show_int 1 @ CHR '','' # show_int s) ''+CGREG:''"
    by (simp add: starts_with_def)
  obtain st1 where st1: "ask_line ''AT+CGREG?'' ''+CGREG:'' st
    = Ret (0, Some \<lparr>success = 1, finalResponse = Some ''OK'',
        p_intermediates = [''+CGREG: '' @ show_int 1 @ CHR '','' # show_int s]\<rparr>, st1)" "talks xs st1"
    "wire st1 = wire st @ ''AT+CGREG?'' @ [CR]" "unsol_log st1 = unsol_log st"
    using talk_ask_ok [OF assms(1) [unfolded cgreg_answer_def] cgreg_exchange_ok [unfolded cgreg_answer_def] sw]
    by blast
  then show ?thesis
    using cgreg_status_show [OF assms(2,3)]
    by (subst reg_query.simps) (auto simp: first_line_def response_ptr_def simp del: append_Cons append_Nil)
qed

lemma reg_query_script:
  "talks (map cgreg_answer (ss @ [s])) st \<Longrightarrow> \<forall>x \<in> set ss. keeps_waiting x \<Longrightarrow> \<not> keeps_waiting s \<Longrightarrow>
   - (2 ^ 31) \<le> s \<Longrightarrow> s < 2 ^ 31 \<Longrightarrow> n + length ss \<le> MAX_REG_WAIT \<Longrightarrow>
   \<exists>st'. reg_query n st = Ret (if n + length ss < MAX_REG_WAIT then s else -1, st')"
proof (induction ss arbitrary: n st)
  case Nil
  then show ?case using cgreg_turn [of s "[]" st n] by auto
next
  case (Cons x ss)
  have x: "- (2 ^ 31) \<le> x" "x < 2 ^ 31" "keeps_waiting x"
    using Cons.prems(2) by (auto simp: keeps_waiting_def ril_reg_defs)
  obtain st1 where st1: "talks (map cgreg_answer (ss @ [s])) st1" "reg_query n st =
     (if Suc n > MAX_REG_WAIT then Ret (-1, st1) else if keeps_waiting x then reg_query (Suc n) st1 else Ret (x, st1))"
    using cgreg_turn [of x "map cgreg_answer (ss @ [s])" st n] Cons.prems(1) x by auto
  from Cons.IH [OF st1(1), of "Suc n"] Cons.prems st1(2) x(3) show ?case by auto
qed

text \<open>
  C17: a modem that reports a searching state up to nine times and then any other state gives that
  state, the denied state included; when the tenth answer still says to wait, the result is -1
  whatever comes next.
\<close>

theorem registration_outcome:
  assumes "talks (map cgreg_answer (ss @ [s])) st"
    and "\<forall>x \<in> set ss. x \<in> {RIL_NOT_REG_AND_NOT_SEARCHING, RIL_NOT_REG_AND_SEARCHING, RIL_UNKNOWN}"
    and "s \<notin> {RIL_NOT_REG_AND_NOT_SEARCHING, RIL_NOT_REG_AND_SEARCHING, RIL_UNKNOWN}"
    and "- (2 ^ 31) \<le> s" "s < 2 ^ 31" "length ss \<le> 10"
  shows "\<exists>st'. modem_hal_get_registration_status st = Ret (if length ss < 10 then s else -1, st')"
  using reg_query_script [OF assms(1) _ _ assms(4,5), of 0] assms(2,3,6)
  by (auto simp: modem_hal_get_registration_status_def keeps_waiting_def MAX_REG_WAIT_def)

theorem registration_outcome_witness:
  "\<exists>st'. modem_hal_get_registration_status (script_chan (map cgreg_answer ([2, 0] @ [3])))
     = Ret (if length [2, 0 :: int] < 10 then 3 else -1, st')"
  by (rule registration_outcome [OF talks_script]) (simp_all add: ril_reg_defs)

theorem registration_bounded_witness:
  "\<exists>v st'. modem_hal_get_registration_status (script_chan [cgreg_answer 5]) = Ret (v, st')
    \<and> ready st' \<and> (\<exists>js. length js \<le> 11
      \<and> wire st' = wire (script_chan [cgreg_answer 5]) @ concat (map (\<lambda>j. take j (''AT+CGREG?'' @ [CR])) js))"
proof -
  obtain st1 where "modem_hal_get_registration_status (script_chan [cgreg_answer 5]) = Ret (5, st1)"
    using cgreg_turn [of 5 "[]" "script_chan [cgreg_answer 5]" 0]
    by (auto simp: modem_hal_get_registration_status_def MAX_REG_WAIT_def keeps_waiting_def ril_reg_defs)
  moreover have "ready (script_chan [cgreg_answer 5])"
    using talks_script [of "[cgreg_answer 5]"] by (simp add: talks_def)
  ultimately show ?thesis using registration_bounded by blast
qed

section \<open>Error answers\<close>

lemma error_no_line:
  assumes "isFinalResponseError f"
  shows "isFinalResponse f" "\<not> isFinalResponseSuccess f"
  using assms isFinal_exclusive by (auto simp: isFinalResponse_def)

lemma talk_ask_error:
  assumes "talks ((c, [], f) # xs) st" "c \<noteq> []" "isFinalResponseError f"
  shows "\<exists>st'. ask_line c p st = Ret (0, Some \<lparr>success = 0, finalResponse = Some f, p_intermediates = []\<rparr>, st')
    \<and> talks xs st'"
  using talk_ask [OF assms(1), of p] assms(2) error_no_line [OF assms(3)]
  by (auto simp: exchange_ok_def answer_lines_def)

text \<open>
  C19: the model check, the registration query and the signal query take a return code of 0 for an
  answer with a line. A modem that answers one of their commands with an error response makes
  them read the line through a NULL pointer.
\<close>

theorem error_answer_crashes:
  assumes "isFinalResponseError f"
  shows "(talks ((''AT+GMI'', [], f) # xs) st \<longrightarrow> modem_hal_check_modem st = Fault NullDeref)
    \<and> (talks ((''AT+CGREG?'', [], f) # xs) st \<longrightarrow> modem_hal_get_registration_status st = Fault NullDeref)
    \<and> (talks ((''AT+CSQ'', [], f) # xs) st \<longrightarrow> modem_hal_get_rssi st = Fault NullDeref)"
proof (intro conjI impI)
  assume "talks ((''AT+GMI'', [], f) # xs) st"
  from talk_ask_error [OF this _ assms, of "[]"] show "modem_hal_check_modem st = Fault NullDeref"
    by (auto simp: modem_hal_check_modem_def first_line_def response_ptr_def)
next
  assume "talks ((''AT+CGREG?'', [], f) # xs) st"
  from talk_ask_error [OF this _ assms, of "''+CGREG:''"]
  show "modem_hal_get_registration_status st = Fault NullDeref"
    by (subst modem_hal_get_registration_status_def, subst reg_query.simps)
      (auto simp: first_line_def response_ptr_def)
next
  assume "talks ((''AT+CSQ'', [], f) # xs) st"
  from talk_ask_error [OF this _ assms, of "''+CSQ:''"] show "modem_hal_get_rssi st = Fault NullDeref"
    by (auto simp: modem_hal_get_rssi_def first_line_def response_ptr_def)
qed

theorem error_answer_crashes_witness:
  "modem_hal_get_registration_status (script_chan [(''AT+CGREG?'', [], ''+CME ERROR: 3'')]) = Fault NullDeref"
proof -
  have "isFinalResponseError ''+CME ERROR: 3''" by code_simp
  from error_answer_crashes [OF this, of "[]" "script_chan [(''AT+CGREG?'', [], ''+CME ERROR: 3'')]"]
  show ?thesis by simp
qed

section \<open>The state of the SIM\<close>

lemma cpin_result_plain:
  assumes "plain_field x"
  shows "cpin_result (''+CPIN: '' @ x) = Ret (if x = ''SIM PIN'' then SIM_PIN
     else if x = ''SIM PUK'' then SIM_PUK else if x \<noteq> ''READY'' then SIM_ABSENT else SIM_READY)"
  using tok_start_head [of "''+CPIN''" "'' '' @ x"] nextTok_plain(2) [OF assms blank1]
  by (simp add: cpin_result_def at_tok_nextstr_def)

lemma cme_answer:
  assumes "- (2 ^ 31) \<le> n" "n < 2 ^ 31"
  shows "at_get_cme_error \<lparr>success = 0, finalResponse = Some (''+CME ERROR: '' @ show_int n), p_intermediates = ls\<rparr> = n"
proof -
  have "at_tok_start (Some (''+CME ERROR'' @ CHR '':'' # ('' '' @ show_int n))) = (0, Some ('' '' @ show_int n))"
    by (rule tok_start_head) simp
  moreover have "strStartsWith (''+CME ERROR: '' @ show_int n) ''+CME ERROR:''"
    by (simp add: strStartsWith_iff starts_with_def)
  ultimately show ?thesis using at_tok_nextint_show(2) [OF assms blank1]
    by (simp add: at_get_cme_error_def)
qed

lemma cme_final: "isFinalResponseError (''+CME ERROR: '' @ show_int n)"
  by (simp add: isFinalResponseError_def s_finalResponsesError_def)

text \<open>
  C20: the state of the SIM is the one that the +CPIN line names, unknown names counting as an
  absent SIM; a CME error is an absent SIM for number 10 and a SIM that is not ready otherwise,
  but for number 0, which the modem prints for a phone failure, the line that is not there is
  read through a NULL pointer.
\<close>

theorem sim_state:
  assumes "plain_field x" "- (2 ^ 31) \<le> n" "n < 2 ^ 31"
  shows "(talks ((''AT+CPIN?'', [''+CPIN: '' @ x], ''OK'') # xs) st \<longrightarrow>
      (\<exists>st'. modem_hal_check_pin_status st = Ret (if x = ''READY'' then SIM_READY else if x = ''SIM PIN'' then SIM_PIN
         else if x = ''SIM PUK'' then SIM_PUK else SIM_ABSENT, st')))
    \<and> (talks ((''AT+CPIN?'', [], ''+CME ERROR: '' @ show_int n) # xs) st \<longrightarrow>
      (if n = 0 then modem_hal_check_pin_status st = Fault NullDeref
       else \<exists>st'. modem_hal_check_pin_status st = Ret (if n = 10 then SIM_ABSENT else SIM_NOT_READY, st')))"
proof (intro conjI impI)
  assume t: "talks ((''AT+CPIN?'', [''+CPIN: '' @ x], ''OK'') # xs) st"
  have "exchange_ok (''AT+CPIN?'', [''+CPIN: '' @ x], ''OK'')" by (simp add: exchange_ok_def plus_line)
  then obtain st' where "ask_line ''AT+CPIN?'' ''+CPIN:'' st
    = Ret (0, Some \<lparr>success = 1, finalResponse = Some ''OK'', p_intermediates = [''+CPIN: '' @ x]\<rparr>, st')"
    using talk_ask_ok [OF t, of "''+CPIN:''"] by (auto simp: starts_with_def)
  then show "\<exists>st'. modem_hal_check_pin_status st = Ret (if x = ''READY'' then SIM_READY else if x = ''SIM PIN'' then SIM_PIN
         else if x = ''SIM PUK'' then SIM_PUK else SIM_ABSENT, st')"
    using cpin_result_plain [OF assms(1)]
    by (simp add: modem_hal_check_pin_status_def response_ptr_def first_line_def at_get_cme_error_def CME_SUCCESS_def)
next
  assume t: "talks ((''AT+CPIN?'', [], ''+CME ERROR: '' @ show_int n) # xs) st"
  obtain st' where "ask_line ''AT+CPIN?'' ''+CPIN:'' st
    = Ret (0, Some \<lparr>success = 0, finalResponse = Some (''+CME ERROR: '' @ show_int n), p_intermediates = []\<rparr>, st')"
    using talk_ask_error [OF t _ cme_final] by blast
  then show "if n = 0 then modem_hal_check_pin_status st = Fault NullDeref
       else \<exists>st'. modem_hal_check_pin_status st = Ret (if n = 10 then SIM_ABSENT else SIM_NOT_READY, st')"
    using cme_answer [OF assms(2,3), of "[]"]
    by (cases "n = 0") (simp_all add: modem_hal_check_pin_status_def response_ptr_def first_line_def CME_SUCCESS_def
        CME_SIM_NOT_INSERTED_def del: append_Cons append_Nil)
qed

theorem sim_state_witness:
  "modem_hal_check_pin_status (script_chan [(''AT+CPIN?'', [], ''+CME ERROR: '' @ show_int 0)]) = Fault NullDeref
   \<and> (\<exists>st'. modem_hal_check_pin_status (script_chan [(''AT+CPIN?'', [''+CPIN: '' @ ''SIM PIN''], ''OK'')]) = Ret (SIM_PIN, st'))"
proof -
  have p: "plain_field ''SIM PIN''" by (simp add: plain_field_def isspace_def)
  have n: "- (2 ^ 31) \<le> (0::int)" "(0::int) < 2 ^ 31" by simp_all
  show ?thesis
    using sim_state [OF p n, of "[]" "script_chan [(''AT+CPIN?'', [], ''+CME ERROR: '' @ show_int 0)]"]
      sim_state [OF p n, of "[]" "script_chan [(''AT+CPIN?'', [''+CPIN: '' @ ''SIM PIN''], ''OK'')]"]
    by simp
qed

section \<open>Signal strength\<close>

definition csq_text :: "int \<Rightarrow> int \<Rightarrow> string" where
  "csq_text r b = ''+CSQ: '' @ show_int r @ CHR '','' # show_int b"

definition cind_text :: "int \<Rightarrow> int \<Rightarrow> string" where
  "cind_text a s = ''+CIND: '' @ show_int a @ CHR '','' # show_int s"

lemma csq_line_text:
  assumes "- (2 ^ 31) \<le> r" "r < 2 ^ 31" "- (2 ^ 31) \<le> b" "b < 2 ^ 31"
  shows "csq_line (csq_text r b) = Ret (Some r, r = 99)"
  using tok_start_head [of "''+CSQ''" "'' '' @ show_int r @ CHR '','' # show_int b"] two_ints [OF assms]
  by (simp add: csq_line_def csq_text_def value_of_def)

lemma csq_exchange:
  assumes "talks ((''AT+CSQ'', [csq_text r b], ''OK'') # xs) st"
  shows "\<exists>st'. ask_line ''AT+CSQ'' ''+CSQ:'' st
    = Ret (0, Some \<lparr>success = 1, finalResponse = Some ''OK'', p_intermediates = [csq_text r b]\<rparr>, st') \<and> talks xs st'"
  using talk_ask_ok [OF assms, of "''+CSQ:''"]
  by (auto simp: exchange_ok_def plus_line csq_text_def starts_with_def)

lemma cind_part_text:
  assumes "talks ((''AT+CIND?'', [cind_text a s], ''OK'') # xs) st"
    "- (2 ^ 31) \<le> a" "a < 2 ^ 31" "- (2 ^ 31) \<le> s" "s < 2 ^ 29"
  shows "\<exists>st'. cind_part st = Ret (True, st')"
proof -
  obtain st' where "ask_line ''AT+CIND?'' ''+CIND:'' st
    = Ret (0, Some \<lparr>success = 1, finalResponse = Some ''OK'', p_intermediates = [cind_text a s]\<rparr>, st')"
    using talk_ask_ok [OF assms(1), of "''+CIND:''"]
    by (auto simp: exchange_ok_def plus_line cind_text_def starts_with_def)
  then show ?thesis
    using tok_start_head [of "''+CIND''" "'' '' @ show_int a @ CHR '','' # show_int s"] two_ints [of a s] assms
    by (simp add: cind_part_def first_line_def response_ptr_def cind_text_def value_of_def)
qed

text \<open>
  The signal strength is -113 + 2 r dBm for an answer +CSQ: r,b with r other than 99. For 99,
  which means unknown, the code asks for +CIND and drops what it gets: the result is then always
  85 dBm.
\<close>

theorem signal_strength:
  assumes "- 1000 \<le> r" "r \<le> 1000" "- (2 ^ 31) \<le> b" "b < 2 ^ 31"
    "- (2 ^ 31) \<le> a" "a < 2 ^ 31" "- (2 ^ 31) \<le> s" "s < 2 ^ 29"
    and "talks ((''AT+CSQ'', [csq_text r b], ''OK'') # (''AT+CIND?'', [cind_text a s], ''OK'') # xs) st"
  shows "\<exists>st'. modem_hal_get_rssi st = Ret (if r = 99 then 85 else -113 + 2 * r, st')"
proof -
  obtain st1 where st1: "ask_line ''AT+CSQ'' ''+CSQ:'' st
    = Ret (0, Some \<lparr>success = 1, finalResponse = Some ''OK'', p_intermediates = [csq_text r b]\<rparr>, st1)"
    "talks ((''AT+CIND?'', [cind_text a s], ''OK'') # xs) st1"
    using csq_exchange [OF assms(9)] by blast
  obtain st2 where "cind_part st1 = Ret (True, st2)"
    using cind_part_text [OF st1(2) assms(5-8)] by blast
  then show ?thesis
    using st1(1) csq_line_text [of r b] assms(1-4)
    by (simp add: modem_hal_get_rssi_def first_line_def response_ptr_def value_of_def csq_to_dbm_def)
qed

text \<open>When the first query has no line to read but the second one has, the result is computed from a
  variable that was never written.\<close>

lemma signal_uninitialised:
  assumes "talks ((''AT+CSQ'', [], ''OK'') # (''AT+CIND?'', [cind_text a s], ''OK'') # xs) st"
    "- (2 ^ 31) \<le> a" "a < 2 ^ 31" "- (2 ^ 31) \<le> s" "s < 2 ^ 29"
  shows "modem_hal_get_rssi st = Fault UninitRead"
proof -
  obtain st1 where st1: "ask_line ''AT+CSQ'' ''+CSQ:'' st = Ret (AT_ERROR_INVALID_RESPONSE, None, st1)"
    "talks ((''AT+CIND?'', [cind_text a s], ''OK'') # xs) st1"
    using talk_ask_no_line [OF assms(1), of "''+CSQ:''"]
    by (auto simp: exchange_ok_def answer_lines_def single_shot_def isFinalResponse_def)
  obtain st2 where "cind_part st1 = Ret (True, st2)"
    using cind_part_text [OF st1(2) assms(2-5)] by blast
  with st1(1) show ?thesis by (simp add: modem_hal_get_rssi_def AT_ERROR_INVALID_RESPONSE_def value_of_def)
qed

section \<open>PIN tries\<close>

definition qpinc_text :: "string \<Rightarrow> int \<Rightarrow> int \<Rightarrow> string" where
  "qpinc_text f a b = ''+QPINC: '' @ QUOTE # f @ QUOTE # CHR '','' # show_int a @ CHR '','' # show_int b"

lemma qpinc_line_text:
  assumes "- (2 ^ 31) \<le> a" "a < 2 ^ 31" "- (2 ^ 31) \<le> b" "b < 2 ^ 31" "f = ''SC'' \<or> f = ''P2''"
  shows "qpinc_line (qpinc_text f a b) rs =
    Ret (Some (if f = ''SC'' then rs\<lparr>pin1 := Some a, puk1 := Some b\<rparr> else rs\<lparr>pin2 := Some a, puk2 := Some b\<rparr>))"
proof -
  let ?r = "show_int a @ CHR '','' # show_int b"
  have h: "at_tok_start (Some (qpinc_text f a b)) = (0, Some ('' '' @ QUOTE # f @ QUOTE # [] @ CHR '','' # ?r))"
    using tok_start_head [of "''+QPINC''" "'' '' @ QUOTE # f @ QUOTE # CHR '','' # ?r"]
    by (simp add: qpinc_text_def)
  have s: "at_tok_nextstr (Some ('' '' @ QUOTE # f @ QUOTE # [] @ CHR '','' # ?r)) = (0, Some f, Some ?r)"
    by (rule at_tok_nextstr_quoted(1)) (use assms(5) in auto)
  have n: "at_tok_nextint (Some ?r) = (0, Some a, Some (show_int b))" "at_tok_nextint (Some (show_int b)) = (0, Some b, None)"
    using at_tok_nextint_show(1) [OF assms(1,2), of "[]"] at_tok_nextint_show(2) [OF assms(3,4), of "[]"] by simp_all
  have "qpinc_line (qpinc_text f a b) rs =
    (if starts_with f ''SC'' then Ret (Some (rs\<lparr>pin1 := Some a, puk1 := Some b\<rparr>))
     else if starts_with f ''P2'' then Ret (Some (rs\<lparr>pin2 := Some a, puk2 := Some b\<rparr>)) else Ret None)"
    unfolding qpinc_line_def h prod.case s option.case n by simp
  then show ?thesis using assms(5) by (auto simp: starts_with_def)
qed

text \<open>
  The PIN and PUK tries are the numbers of the SC line and of the P2 line of the answer, for
  each request; an answer without the SC line makes the PIN tries an uninitialised value.
\<close>

theorem pin_tries:
  assumes "- (2 ^ 31) \<le> a" "a < 2 ^ 31" "- (2 ^ 31) \<le> b" "b < 2 ^ 31"
    "- (2 ^ 31) \<le> c" "c < 2 ^ 31" "- (2 ^ 31) \<le> d" "d < 2 ^ 31"
  shows "(talks ((''AT+QPINC?'', [qpinc_text ''SC'' a b, qpinc_text ''P2'' c d], ''OK'') # xs) st \<longrightarrow>
      (\<exists>st'. modem_hal_get_numretries request st = Ret
        (if request \<in> {RIL_REQUEST_SET_FACILITY_LOCK, RIL_REQUEST_ENTER_SIM_PIN, RIL_REQUEST_CHANGE_SIM_PIN} then a
         else if request \<in> {RIL_REQUEST_ENTER_SIM_PIN2, RIL_REQUEST_CHANGE_SIM_PIN2} then c
         else if request = RIL_REQUEST_ENTER_SIM_PUK then b
         else if request = RIL_REQUEST_ENTER_SIM_PUK2 then d else -1, st') \<and> talks xs st'))
    \<and> (talks ((''AT+QPINC?'', [qpinc_text ''P2'' c d], ''OK'') # xs) st \<longrightarrow>
      modem_hal_get_numretries RIL_REQUEST_CHANGE_SIM_PIN st = Fault UninitRead)"
proof -
  have ok: "exchange_ok (''AT+QPINC?'', [qpinc_text ''SC'' a b, qpinc_text ''P2'' c d], ''OK'')"
    "exchange_ok (''AT+QPINC?'', [qpinc_text ''P2'' c d], ''OK'')"
    by (simp_all add: exchange_ok_def qpinc_text_def plus_line)
  have sw: "starts_with (qpinc_text f x y) ''+QPINC''" for f x y by (simp add: qpinc_text_def starts_with_def)
  note lines = qpinc_line_text [OF assms(1-4)] qpinc_line_text [OF assms(5-8)]
  have "\<exists>st'. modem_hal_get_numretries request st = Ret
        (if request \<in> {RIL_REQUEST_SET_FACILITY_LOCK, RIL_REQUEST_ENTER_SIM_PIN, RIL_REQUEST_CHANGE_SIM_PIN} then a
         else if request \<in> {RIL_REQUEST_ENTER_SIM_PIN2, RIL_REQUEST_CHANGE_SIM_PIN2} then c
         else if request = RIL_REQUEST_ENTER_SIM_PUK then b
         else if request = RIL_REQUEST_ENTER_SIM_PUK2 then d else -1, st') \<and> talks xs st'"
    if "talks ((''AT+QPINC?'', [qpinc_text ''SC'' a b, qpinc_text ''P2'' c d], ''OK'') # xs) st"
    using talk_full [OF that ok(1), of MULTILINE "Some ''+QPINC''" 0 True] sw lines
    by (auto simp: type_ok_def modem_hal_get_numretries_def at_send_command_multiline_def answer_lines_def
        matches_def single_shot_def retries_for_def value_of_def ril_request_defs)
  moreover have "modem_hal_get_numretries RIL_REQUEST_CHANGE_SIM_PIN st = Fault UninitRead"
    if "talks ((''AT+QPINC?'', [qpinc_text ''P2'' c d], ''OK'') # xs) st"
    using talk_full [OF that ok(2), of MULTILINE "Some ''+QPINC''" 0 True] sw lines
    by (auto simp: type_ok_def modem_hal_get_numretries_def at_send_command_multiline_def answer_lines_def
        matches_def single_shot_def retries_for_def value_of_def ril_request_defs no_retries_def)
  ultimately show ?thesis by blast
qed

end
