(* ===== verification/AtEndToEnd.thy ===== *)
theory AtEndToEnd
  imports AtLines ModemQueries
begin

text \<open>
  The channel from the bytes of the serial port to the value that the modem code returns: the line
  reader of theory AtLines feeds \<open>readerLoop\<close>, whose actions the waiting command of theory AtChannel
  sees. The reader thread of src/src/modem/at/atchannel.c runs between the write of the command and
  the signal that wakes it.
\<close>

section \<open>The reader thread on bytes\<close>

text \<open>
  What the reader does with the first \<open>k\<close> lines of the input. The \<open>ReaderEof\<close> that ends \<open>readerLoop\<close>
  stands for the end of the list, not of the input.
\<close>

definition reader_hears :: "nat \<Rightarrow> read_res list \<Rightarrow> reader_ev list outcome" where
  "reader_hears k inp = obind (readlines k at_buffer_start inp) (\<lambda>(ls, _, _). Ret (butlast (readerLoop ls)))"

text \<open>The state in which a command finds it: these actions come while it waits, then it is woken.\<close>

definition heard :: "nat \<Rightarrow> read_res list \<Rightarrow> at_chan \<Rightarrow> at_chan outcome" where
  "heard k inp st = obind (reader_hears k inp) (\<lambda>es. Ret (st\<lparr>sched := map Reader es @ [Wake]\<rparr>))"

text \<open>How a modem frames its lines.\<close>

fun answer_bytes :: "string list \<Rightarrow> string" where
  "answer_bytes [] = []"
| "answer_bytes (l # ls) = CR # LF # l @ CR # LF # answer_bytes ls"

text \<open>A line as it can be: not empty, no newline inside, not the prompt, no SMS header, and with its
  newlines it fits the buffer.\<close>

definition text_line :: "string \<Rightarrow> bool" where
  "text_line l = (l \<noteq> [] \<and> no_nl l \<and> \<not> starts_with l ''> '' \<and> \<not> isSMSUnsolicited l \<and> length l + 4 \<le> MAX_AT_RESPONSE)"

lemma nl_chars [simp]: "is_nl CR" "is_nl LF"
  by (simp_all add: is_nl_def)

lemma stream_split_line:
  assumes "\<forall>c \<in> set pre. is_nl c" "text_line l"
  shows "stream_split (pre @ CR # LF # l @ CR # T) = Some (l, T)"
proof -
  have d: "dropWhile is_nl (pre @ CR # LF # l @ CR # T) = l @ CR # T"
    using assms by (cases l) (auto simp: text_line_def no_nl_def dropWhile_append)
  show ?thesis
    using cut_line [of l CR T] assms(2) d by (simp add: stream_split_def text_line_def)
qed

lemma stream_answer:
  "\<forall>l \<in> set ls. text_line l \<Longrightarrow> pre = [] \<or> pre = [LF] \<Longrightarrow>
   stream_lines (length ls) (pre @ answer_bytes ls) = Some (ls, if ls = [] then pre else [LF])
   \<and> stream_ok (length ls) (pre @ answer_bytes ls)"
proof (induction ls arbitrary: pre)
  case (Cons l ls)
  have l: "text_line l" and s: "stream_split (pre @ answer_bytes (l # ls)) = Some (l, [LF] @ answer_bytes ls)"
    using Cons.prems stream_split_line [of pre l "LF # answer_bytes ls"] by auto
  have "length (pre @ answer_bytes (l # ls)) \<le> MAX_AT_RESPONSE + length ([LF] @ answer_bytes ls)"
    using Cons.prems l by (auto simp: text_line_def)
  with s l Cons.IH [of "[LF]"] Cons.prems(1) show ?case by (simp add: text_line_def)
qed simp

lemma readerLoop_plain: "\<forall>l \<in> set ls. \<not> isSMSUnsolicited l \<Longrightarrow> readerLoop ls = map ReaderLine ls @ [ReaderEof]"
  by (induction ls) auto

lemma reader_hears_lines:
  assumes "\<forall>l \<in> set ls. text_line l" "\<forall>c \<in> set cs. framed c" "concat cs = answer_bytes ls"
  shows "reader_hears (length ls) (map RBytes cs) = Ret (map ReaderLine ls)"
proof -
  have "\<exists>b' r. readlines (length ls) at_buffer_start (map RBytes cs) = Ret (ls, b', r)"
    using readlines_framed [OF start_holds(1) _ assms(2)] start_holds(2) stream_answer [OF assms(1), of "[]"] assms(3) by simp
  moreover have "butlast (readerLoop ls) = map ReaderLine ls"
    using readerLoop_plain [of ls] assms(1) by (simp add: text_line_def)
  ultimately show ?thesis by (auto simp: reader_hears_def)
qed

lemma heard_lines:
  assumes "\<forall>l \<in> set ls. text_line l" "\<forall>c \<in> set cs. framed c" "concat cs = answer_bytes ls"
  shows "heard (length ls) (map RBytes cs) st = Ret (st\<lparr>sched := map (\<lambda>l. Reader (ReaderLine l)) ls @ [Wake]\<rparr>)"
  using reader_hears_lines [OF assms] by (simp add: heard_def comp_def)

lemma heard_talks:
  assumes "\<forall>l \<in> set (ls @ [f]). text_line l" "\<forall>c \<in> set cs. framed c" "concat cs = answer_bytes (ls @ [f])"
    and "ready st" "can_write st" "s_unsolHandler st" "writes st = one_piece c @ ws"
  shows "\<exists>st1. heard (Suc (length ls)) (map RBytes cs) st = Ret st1 \<and> talks [(c, ls, f)] st1 \<and> wire st1 = wire st
    \<and> unsol_log st1 = unsol_log st"
  using heard_lines [OF assms(1-3), of st] assms(4-7)
  by (auto simp: talks_def answer_events_def ready_def chan_idle_def can_write_def)

lemma csq_text_line:
  assumes "0 \<le> r" "r < 99" "0 \<le> b" "b < 2 ^ 31"
  shows "text_line (csq_text r b)"
proof -
  have d: "no_nl (show_int i)" if "0 \<le> i" for i
    using that show_nat_digits [of "nat i"] by (auto simp: show_int_def no_nl_def is_nl_def is_base_digit_def digit_of_def)
  have "nat r < 10 ^ Suc 1" "nat b < 10 ^ Suc 9" using assms by (simp_all add: nat_less_iff)
  then have "length (show_int r) \<le> 2" "length (show_int b) \<le> 10"
    using length_show_nat [of "nat r" 1] length_show_nat [of "nat b" 9] assms by (simp_all add: show_int_def)
  then show ?thesis
    using d [OF assms(1)] d [OF assms(3)]
    by (auto simp: text_line_def csq_text_def no_nl_def is_nl_def starts_with_def isSMSUnsolicited_def s_smsUnsoliciteds_def
        strStartsWith_iff MAX_AT_RESPONSE_def)
qed

lemma writeline_sched:
  "writeline c st = Ret (e, st0) \<Longrightarrow> writeline c (st\<lparr>sched := es\<rparr>) = Ret (e, st0\<lparr>sched := es\<rparr>)"
  by (cases "write_main c (writes st) (wire st)")
    (auto simp: writeline_def write_with_def obind_eq_Ret split: if_splits prod.splits)

section \<open>Properties\<close>

text \<open>
  C1: from the bytes to the answer. When every \<open>read\<close> of the reader thread delivers whole lines of the
  modem, however many at once, the waiting command returns the lines that match its type, in their
  order, with the final line and its success; the other lines reach the unsolicited handler, and
  nothing faults on the way from the bytes in the buffer to the response.
\<close>

theorem bytes_to_answer:
  assumes "ready st" "type_ok ty pre" "s_readerClosed st = 0" "s_unsolHandler st" "writeline command st = Ret (0, st0)"
    and "\<forall>l \<in> set (ls @ [f]). text_line l" "\<forall>l \<in> set ls. \<not> isFinalResponse l" "isFinalResponse f"
    and "\<forall>c \<in> set cs. framed c" "concat cs = answer_bytes (ls @ [f])"
  shows "\<exists>st1 st'. heard (Suc (length ls)) (map RBytes cs) st = Ret st1
    \<and> at_send_command_full False command ty pre None ms True st1
      = Ret (0, Some \<lparr>success = (if isFinalResponseSuccess f then 1 else 0), finalResponse = Some f,
                      p_intermediates = answer_lines ty pre ls\<rparr>, st')
    \<and> unsol_log st' = unsol_log st @ map (\<lambda>l. (l, None)) (other_lines ty pre False ls)
    \<and> wire st' = wire st @ command @ [CR] \<and> ready st'"
proof -
  let ?es = "map (\<lambda>l. Reader (ReaderLine l)) (ls @ [f]) @ Wake # []" let ?st1 = "st\<lparr>sched := ?es\<rparr>"
  have h: "heard (Suc (length ls)) (map RBytes cs) st = Ret ?st1"
    using heard_lines [OF assms(6,9,10), of st] by simp
  obtain st' where "at_send_command_full_nolock command ty pre None ms True ?st1
      = Ret (0, Some \<lparr>success = (if isFinalResponseSuccess f then 1 else 0), finalResponse = Some f,
                      p_intermediates = answer_lines ty pre ls\<rparr>, st')"
    "unsol_log st' = unsol_log ?st1 @ map (\<lambda>l. (l, None)) (other_lines ty pre False ls)"
    "wire st' = wire ?st1 @ command @ [CR]" "ready st'"
    using command_answer [of ?st1 ty pre command "st0\<lparr>sched := ?es\<rparr>" ls f "[]" ms] assms(1-5,7,8) writeline_sched [OF assms(5), of ?es]
    by (auto simp: ready_def chan_idle_def)
  then show ?thesis using h by (simp add: at_send_command_full_def AT_ERROR_TIMEOUT_def)
qed

text \<open>
  C2: the signal strength from the bytes of the serial port: an answer +CSQ: r,b with its OK, in one
  \<open>read\<close> or in two, makes \<open>modem_hal_get_rssi\<close> return -113 + 2 r dBm, through the line reader, the
  pending command and the tokenizer.
\<close>

theorem signal_from_bytes:
  assumes "ready st" "can_write st" "s_unsolHandler st" "writes st = one_piece ''AT+CSQ'' @ ws"
    and "0 \<le> r" "r < 99" "0 \<le> b" "b < 2 ^ 31"
    and "\<forall>c \<in> set cs. framed c" "concat cs = answer_bytes [csq_text r b, ''OK'']"
  shows "\<exists>st1 st'. heard 2 (map RBytes cs) st = Ret st1 \<and> modem_hal_get_rssi st1 = Ret (-113 + 2 * r, st')"
proof -
  have ok: "text_line ''OK''"
    by (simp add: text_line_def no_nl_def is_nl_def starts_with_def isSMSUnsolicited_def s_smsUnsoliciteds_def strStartsWith_iff MAX_AT_RESPONSE_def)
  note csq = csq_text_line [OF assms(5-8)]
  obtain st1 where st1: "heard 2 (map RBytes cs) st = Ret st1" "talks [(''AT+CSQ'', [csq_text r b], ''OK'')] st1"
    using heard_talks [of "[csq_text r b]" "''OK''" cs st "''AT+CSQ''" ws] ok csq assms by (auto simp: numeral_2_eq_2)
  then obtain st' where "ask_line ''AT+CSQ'' ''+CSQ:'' st1
    = Ret (0, Some \<lparr>success = 1, finalResponse = Some ''OK'', p_intermediates = [csq_text r b]\<rparr>, st')"
    using csq_exchange by blast
  then have "modem_hal_get_rssi st1 = Ret (-113 + 2 * r, st')"
    using csq_line_text [of r b] assms(5-8)
    by (simp add: modem_hal_get_rssi_def first_line_def response_ptr_def value_of_def csq_to_dbm_def)
  with st1(1) show ?thesis by blast
qed

definition csq_port :: at_chan where
  "csq_port = chan0\<lparr>writes := one_piece ''AT+CSQ''\<rparr>"

lemma csq_port_simps [simp]:
  "ready csq_port" "can_write csq_port" "s_unsolHandler csq_port" "s_readerClosed csq_port = 0" "writes csq_port = one_piece ''AT+CSQ''"
  "wire csq_port = []" "unsol_log csq_port = []"
  by (simp_all add: csq_port_def chan0_def ready_def chan_idle_def can_write_def)

text \<open>Two reads, the first of which also has an unsolicited line.\<close>

definition csq_reads :: "string list" where
  "csq_reads = [CR # LF # ''RING'' @ CR # LF # CR # LF # ''+CSQ: 17,99'' @ [CR, LF], CR # LF # ''OK'' @ [CR, LF]]"

lemma csq_framed: "\<forall>c \<in> set csq_reads. framed c"
  by (auto simp: csq_reads_def framed_def is_nl_def MAX_AT_RESPONSE_def)

theorem bytes_to_answer_witness:
  "\<exists>st1 st'. heard 3 (map RBytes csq_reads) csq_port = Ret st1
    \<and> at_send_command_full False ''AT+CSQ'' SINGLELINE (Some ''+CSQ:'') None 0 True st1
      = Ret (0, Some \<lparr>success = 1, finalResponse = Some ''OK'', p_intermediates = [''+CSQ: 17,99'']\<rparr>, st')
    \<and> unsol_log st' = [(''RING'', None)]"
proof -
  have w: "writeline ''AT+CSQ'' csq_port = Ret (0, csq_port\<lparr>wire := ''AT+CSQ'' @ [CR], writes := []\<rparr>)"
    using write_with_one_piece [of "''AT+CSQ''" csq_port "[]" CR] by (simp add: writeline_def)
  have f: "isFinalResponseSuccess ''OK''" "\<not> isFinalResponse ''RING''" "\<not> isFinalResponse ''+CSQ: 17,99''" by code_simp+
  have t: "\<forall>l \<in> set ([''RING'', ''+CSQ: 17,99''] @ [''OK'']). text_line l"
    by (simp add: text_line_def no_nl_def is_nl_def starts_with_def isSMSUnsolicited_def s_smsUnsoliciteds_def
        strStartsWith_iff MAX_AT_RESPONSE_def)
  show ?thesis
    using bytes_to_answer [OF _ _ _ _ w t _ _ csq_framed, of SINGLELINE "Some ''+CSQ:''" 0] f
    by (simp add: type_ok_def isFinalResponse_def csq_reads_def answer_lines_def single_shot_def matches_def starts_with_def
        eval_nat_numeral strStartsWith_iff) blast
qed

theorem signal_from_bytes_witness:
  "\<exists>st1 st'. heard 2 (map RBytes [answer_bytes [csq_text 17 99, ''OK'']]) csq_port = Ret st1
    \<and> modem_hal_get_rssi st1 = Ret (-113 + 2 * 17, st')"
  by (rule signal_from_bytes [where ws = "[]" and b = 99])
    (simp_all add: framed_def is_nl_def csq_text_def show_int_def show_nat.simps char_of_def MAX_AT_RESPONSE_def)

end
