(* ===== verification/RadioTypes.thy ===== *)
theory RadioTypes
  imports Prelude
begin

text \<open>
  The types of inc/radio_hal.h that all radios share: the kinds of radio, the message of the event
  queues and pipes, and the limits of its fixed arrays.
\<close>

datatype radio_type = RADIO_WIFI | RADIO_BT | RADIO_15_4 | RADIO_MODEM | RADIO_MAX

definition radio_type_code :: "radio_type \<Rightarrow> nat" where
  "radio_type_code t = (case t of RADIO_WIFI \<Rightarrow> 0 | RADIO_BT \<Rightarrow> 1 | RADIO_15_4 \<Rightarrow> 2 | RADIO_MODEM \<Rightarrow> 3
     | RADIO_MAX \<Rightarrow> 4)"

definition RADIO_IFNAME_SIZE :: nat where "RADIO_IFNAME_SIZE = 16"
definition RADIO_HAL_VERSION_SIZE :: nat where "RADIO_HAL_VERSION_SIZE = 32"
definition RADIO_MACADDR_SIZE :: nat where "RADIO_MACADDR_SIZE = 18"
definition RADIO_MAX_AMOUNT :: nat where "RADIO_MAX_AMOUNT = 2"
definition RADIO_ONE_RADIO_SUPPORT :: nat where "RADIO_ONE_RADIO_SUPPORT = 1"

text \<open>The message; \<open>mtext\<close> is the whole array of \<open>MTEXT_SIZE\<close> bytes.\<close>

definition MTEXT_SIZE :: nat where "MTEXT_SIZE = 100"

record radio_hal_msg_buffer =
  mtype :: "64 word"
  sender :: radio_type
  event :: int
  mtext :: string

definition zero_msg :: radio_hal_msg_buffer where
  "zero_msg = \<lparr>mtype = 0, sender = RADIO_WIFI, event = 0, mtext = replicate MTEXT_SIZE NUL\<rparr>"

text \<open>\<open>if (sizeof(mtext) > strlen(s)-1) strncpy(mtext, s, sizeof(mtext))\<close>.\<close>

definition set_mtext :: "string \<Rightarrow> radio_hal_msg_buffer \<Rightarrow> radio_hal_msg_buffer" where
  "set_mtext s m = (if len_guard s MTEXT_SIZE then m\<lparr>mtext := strncpy_arr MTEXT_SIZE s\<rparr> else m)"

text \<open>A line that fits keeps its text and its terminator; a line of exactly the size of the array
  fills it and leaves no room for the terminator; a longer or an empty one is not copied.\<close>

lemma set_mtext_cases:
  assumes "NUL \<notin> set s" "length s < 2 ^ 64"
  shows "set_mtext s m = (if s \<noteq> [] \<and> length s \<le> MTEXT_SIZE then m\<lparr>mtext := strncpy_arr MTEXT_SIZE s\<rparr> else m)"
    and "s \<noteq> [] \<Longrightarrow> length s \<le> MTEXT_SIZE \<Longrightarrow> arr_str (mtext (set_mtext s m)) = s"
    and "s \<noteq> [] \<Longrightarrow> length s \<le> MTEXT_SIZE \<Longrightarrow> terminated (mtext (set_mtext s m)) \<longleftrightarrow> length s < MTEXT_SIZE"
proof -
  have g: "len_guard s MTEXT_SIZE \<longleftrightarrow> s \<noteq> [] \<and> length s \<le> MTEXT_SIZE"
    using assms(2) by (intro len_guard_iff) (simp_all add: MTEXT_SIZE_def)
  show "set_mtext s m = (if s \<noteq> [] \<and> length s \<le> MTEXT_SIZE then m\<lparr>mtext := strncpy_arr MTEXT_SIZE s\<rparr> else m)"
    by (simp add: set_mtext_def g)
  show "arr_str (mtext (set_mtext s m)) = s" if "s \<noteq> []" "length s \<le> MTEXT_SIZE"
    using that g arr_str_strncpy [OF assms(1)] by (simp add: set_mtext_def)
  show "terminated (mtext (set_mtext s m)) \<longleftrightarrow> length s < MTEXT_SIZE" if "s \<noteq> []" "length s \<le> MTEXT_SIZE"
    using that g terminated_strncpy [OF assms(1)] by (simp add: set_mtext_def)
qed

end
