(* ===== verification/RadioYaml.thy ===== *)
theory RadioYaml
  imports RadioTypes CNum
begin

text \<open>
  The configuration files: the structs of inc/radio_hal_yaml.h with their fixed arrays, and
  src/common/radio_hal_yaml.cpp. The YAML scanner (libyaml) is a parameter: a file is the list of
  the tokens that \<open>yaml_parser_scan\<close> delivers for it.
\<close>

section \<open>The configuration structs\<close>

record wifi_config =
  wc_debug :: bool
  wc_api_version :: int
  wc_phy :: int
  wc_key :: string
  wc_passphrase :: string
  wc_ssid :: string
  wc_enc :: string
  wc_ap_mac_addr :: string
  wc_country :: string
  wc_freq :: string
  wc_bw :: string
  wc_preamble :: string
  wc_distance :: int
  wc_tx_power :: int
  wc_mode :: string
  wc_type :: string
  wc_mesh_fwding :: int

record modem_config =
  mc_apn :: string
  mc_pin :: string
  mc_at_serial :: string

text \<open>\<open>calloc(1, sizeof(wifi_config))\<close>.\<close>

definition wifi_config_zero :: wifi_config where
  "wifi_config_zero = \<lparr>wc_debug = False, wc_api_version = 0, wc_phy = 0, wc_key = replicate 64 NUL,
     wc_passphrase = replicate 64 NUL, wc_ssid = replicate 32 NUL, wc_enc = replicate 8 NUL,
     wc_ap_mac_addr = replicate RADIO_MACADDR_SIZE NUL, wc_country = replicate 3 NUL,
     wc_freq = replicate 6 NUL, wc_bw = replicate 4 NUL, wc_preamble = replicate 6 NUL,
     wc_distance = 0, wc_tx_power = 0, wc_mode = replicate 5 NUL, wc_type = replicate 5 NUL,
     wc_mesh_fwding = 0\<rparr>"

section \<open>One key and value\<close>

text \<open>\<open>if (strlen(value) - 1 < member_size(..)) strncpy(field, value, member_size(..))\<close>.\<close>

definition put_text :: "nat \<Rightarrow> string \<Rightarrow> string \<Rightarrow> string" where
  "put_text n value old = (if len_guard value n then strncpy_arr n value else old)"

text \<open>\<open>(int) strtol(value, &stopped, 10)\<close>; an out-of-range value is reported and stored.\<close>

definition put_int :: "string \<Rightarrow> int" where
  "put_int value = c_int (fst (strtol 10 value))"

definition radio_hal_yaml_wifi_config :: "string \<Rightarrow> string \<Rightarrow> wifi_config \<Rightarrow> wifi_config" where
  "radio_hal_yaml_wifi_config key value c =
     (if starts_with key ''debug'' then c\<lparr>wc_debug := starts_with value ''True''\<rparr>
      else if starts_with key ''ssid'' then c\<lparr>wc_ssid := put_text 32 value (wc_ssid c)\<rparr>
      else if starts_with key ''key'' then c\<lparr>wc_key := put_text 64 value (wc_key c)\<rparr>
      else if starts_with key ''frequency'' then c\<lparr>wc_freq := put_text 6 value (wc_freq c)\<rparr>
      else if starts_with key ''api_version'' then c\<lparr>wc_api_version := put_int value\<rparr>
      else if starts_with key ''passphrase'' then c\<lparr>wc_passphrase := put_text 64 value (wc_passphrase c)\<rparr>
      else if starts_with key ''enc'' then c\<lparr>wc_enc := put_text 8 value (wc_enc c)\<rparr>
      else if starts_with key ''ap_mac'' then c\<lparr>wc_ap_mac_addr := put_text RADIO_MACADDR_SIZE value (wc_ap_mac_addr c)\<rparr>
      else if starts_with key ''country'' then c\<lparr>wc_country := put_text 3 value (wc_country c)\<rparr>
      else if starts_with key ''bw'' then c\<lparr>wc_bw := put_text 4 value (wc_bw c)\<rparr>
      else if starts_with key ''preamble'' then c\<lparr>wc_preamble := put_text 6 value (wc_preamble c)\<rparr>
      else if starts_with key ''distance'' then c\<lparr>wc_distance := put_int value\<rparr>
      else if starts_with key ''tx_power'' then c\<lparr>wc_tx_power := put_int value\<rparr>
      else if starts_with key ''mode'' then c\<lparr>wc_mode := put_text 5 value (wc_mode c)\<rparr>
      else if starts_with key ''type'' then c\<lparr>wc_type := put_text 5 value (wc_type c)\<rparr>
      else if starts_with key ''mesh_fwding'' then c\<lparr>wc_mesh_fwding := put_int value\<rparr>
      else c)"

definition radio_hal_yaml_modem_config :: "string \<Rightarrow> string \<Rightarrow> modem_config \<Rightarrow> modem_config" where
  "radio_hal_yaml_modem_config key value c =
     (if starts_with key ''apn'' then c\<lparr>mc_apn := put_text 20 value (mc_apn c)\<rparr>
      else if starts_with key ''pin'' then c\<lparr>mc_pin := put_text 5 value (mc_pin c)\<rparr>
      else if starts_with key ''at_serial'' then c\<lparr>mc_at_serial := put_text 20 value (mc_at_serial c)\<rparr>
      else c)"

text \<open>The bracket expression \<open>[^A-Za-z0-9_@%+=:,./-]\<close>: 0 when it matches, -1 when it does not.\<close>

definition safe_char :: "char \<Rightarrow> bool" where
  "safe_char c = (let n = (of_char c :: nat) in
     65 \<le> n \<and> n \<le> 90 \<or> 97 \<le> n \<and> n \<le> 122 \<or> 48 \<le> n \<and> n \<le> 57 \<or> c \<in> set ''_@%+=:,./-'')"

definition radio_hal_yaml_input_validation :: "string \<Rightarrow> int" where
  "radio_hal_yaml_input_validation s = (if list_all safe_char s then -1 else 0)"

section \<open>The tokens of a file\<close>

text \<open>\<open>YAML_OTHER_TOKEN\<close> stands for every token type that the loop does not look at.\<close>

datatype yaml_token = YAML_KEY_TOKEN | YAML_VALUE_TOKEN | YAML_SCALAR_TOKEN string
  | YAML_STREAM_END_TOKEN | YAML_OTHER_TOKEN

text \<open>The array behind \<open>void *conf_struct\<close>: the elements that are not NULL, by radio.\<close>

record yaml_target =
  wifi_confs :: "wifi_config list"
  modem_confs :: "modem_config list"

definition WIFI_RADIO_MAX :: nat where "WIFI_RADIO_MAX = 2"

definition yaml_set :: "radio_type \<Rightarrow> nat \<Rightarrow> string \<Rightarrow> string \<Rightarrow> yaml_target \<Rightarrow> yaml_target outcome" where
  "yaml_set radio index key value t =
     (if radio = RADIO_WIFI \<and> index < WIFI_RADIO_MAX then
        (if index < length (wifi_confs t)
         then Ret (t\<lparr>wifi_confs := (wifi_confs t)[index := radio_hal_yaml_wifi_config key value (wifi_confs t ! index)]\<rparr>)
         else Fault NullDeref)
      else if radio = RADIO_MODEM \<and> index < RADIO_ONE_RADIO_SUPPORT then
        (if index < length (modem_confs t)
         then Ret (t\<lparr>modem_confs := (modem_confs t)[index := radio_hal_yaml_modem_config key value (modem_confs t ! index)]\<rparr>)
         else Fault NullDeref)
      else Ret t)"

text \<open>
  The locals that outlive a token: the flag \<open>key\<close> and \<open>temp_key\<close>. They are not reset between files.
  Scanning goes on until the stream ends; a scanner error delivers no such token, and the loop
  keeps asking.
\<close>

definition TEMP_KEY_SIZE :: nat where "TEMP_KEY_SIZE = 16"

type_synonym yaml_locals = "bool \<times> string"

fun yaml_scan_loop :: "radio_type \<Rightarrow> nat \<Rightarrow> yaml_token list \<Rightarrow> yaml_locals \<Rightarrow> yaml_target
    \<Rightarrow> (int \<times> yaml_locals \<times> yaml_target) outcome" where
  "yaml_scan_loop radio index [] l t = Blocked"
| "yaml_scan_loop radio index (YAML_STREAM_END_TOKEN # ts) l t = Ret (0, l, t)"
| "yaml_scan_loop radio index (YAML_KEY_TOKEN # ts) (k, temp) t = yaml_scan_loop radio index ts (True, temp) t"
| "yaml_scan_loop radio index (YAML_VALUE_TOKEN # ts) (k, temp) t = yaml_scan_loop radio index ts (False, temp) t"
| "yaml_scan_loop radio index (YAML_OTHER_TOKEN # ts) l t = yaml_scan_loop radio index ts l t"
| "yaml_scan_loop radio index (YAML_SCALAR_TOKEN v # ts) (k, temp) t =
     (if k then yaml_scan_loop radio index ts (k, if TEMP_KEY_SIZE > length v then v else []) t
      else if radio_hal_yaml_input_validation v = 0 then Ret (-1, (k, temp), t)
      else obind (yaml_set radio index temp v t) (yaml_scan_loop radio index ts (k, temp)))"

text \<open>\<open>fs\<close> opens a file: None when \<open>fopen\<close> fails.\<close>

fun yaml_files_loop :: "(string \<Rightarrow> yaml_token list option) \<Rightarrow> radio_type \<Rightarrow> nat \<Rightarrow> string list \<Rightarrow> yaml_locals
    \<Rightarrow> yaml_target \<Rightarrow> (int \<times> yaml_target) outcome" where
  "yaml_files_loop fs radio index [] l t = Ret (0, t)"
| "yaml_files_loop fs radio index (f # rest) l t = (case fs f of
       None \<Rightarrow> Ret (-1, t)
     | Some ts \<Rightarrow> obind (yaml_scan_loop radio index ts l t) (\<lambda>(ret, l', t').
         if ret < 0 then Ret (ret, t') else yaml_files_loop fs radio (Suc index) rest l' t'))"

text \<open>\<open>strtok(files, " ")\<close> until it returns NULL.\<close>

function strtok_all :: "string \<Rightarrow> string list" where
  "strtok_all s = (case dropWhile (\<lambda>c. c = CHR '' '') s of
       [] \<Rightarrow> []
     | c # r \<Rightarrow> takeWhile (\<lambda>c. c \<noteq> CHR '' '') (c # r) # strtok_all (dropWhile (\<lambda>c. c \<noteq> CHR '' '') (c # r)))"
  by pat_completeness auto
termination
proof (relation "measure length")
  fix s c r assume d: "dropWhile (\<lambda>c. c = CHR '' '') s = c # r"
  then have "c \<noteq> CHR '' ''" using hd_dropWhile [of "\<lambda>c. c = CHR '' ''" s] by simp
  then have "length (dropWhile (\<lambda>c. c \<noteq> CHR '' '') (c # r)) \<le> length r"
    by (simp add: length_dropWhile_le)
  moreover have "length (c # r) \<le> length s" using length_dropWhile_le [of _ s] d by metis
  ultimately show "(dropWhile (\<lambda>c. c \<noteq> CHR '' '') (c # r), s) \<in> measure length" by simp
qed simp

declare strtok_all.simps [simp del]

definition radio_hal_yaml_config :: "(string \<Rightarrow> yaml_token list option) \<Rightarrow> string \<Rightarrow> radio_type \<Rightarrow> yaml_target
    \<Rightarrow> (int \<times> yaml_target) outcome" where
  "radio_hal_yaml_config fs config_files radio t =
     (if config_files = [] then Ret (-1, t)
      else yaml_files_loop fs radio 0 (strtok_all config_files) (False, []) t)"

section \<open>What a field can hold\<close>

definition text_ok :: "nat \<Rightarrow> string \<Rightarrow> bool" where
  "text_ok n a = (length a = n \<and> list_all (\<lambda>c. c = NUL \<or> safe_char c) a)"

definition wifi_config_ok :: "wifi_config \<Rightarrow> bool" where
  "wifi_config_ok c = (text_ok 64 (wc_key c) \<and> text_ok 64 (wc_passphrase c) \<and> text_ok 32 (wc_ssid c)
     \<and> text_ok 8 (wc_enc c) \<and> text_ok RADIO_MACADDR_SIZE (wc_ap_mac_addr c) \<and> text_ok 3 (wc_country c)
     \<and> text_ok 6 (wc_freq c) \<and> text_ok 4 (wc_bw c) \<and> text_ok 6 (wc_preamble c)
     \<and> text_ok 5 (wc_mode c) \<and> text_ok 5 (wc_type c))"

text \<open>The struct of the modem comes from \<open>malloc\<close>: a field that no pair has set holds what it held,
  here in \<open>old\<close>.\<close>

definition text_or_old :: "nat \<Rightarrow> string \<Rightarrow> string \<Rightarrow> bool" where
  "text_or_old n old a = (length a = n \<and> (a = old \<or> text_ok n a))"

definition modem_config_ok :: "modem_config \<Rightarrow> modem_config \<Rightarrow> bool" where
  "modem_config_ok old c = (text_or_old 20 (mc_apn old) (mc_apn c) \<and> text_or_old 5 (mc_pin old) (mc_pin c)
     \<and> text_or_old 20 (mc_at_serial old) (mc_at_serial c))"

text \<open>\<open>ms\<close> are the modem structs before the loading.\<close>

definition target_ok :: "modem_config list \<Rightarrow> yaml_target \<Rightarrow> bool" where
  "target_ok ms t = (length (wifi_confs t) = WIFI_RADIO_MAX \<and> list_all wifi_config_ok (wifi_confs t)
     \<and> length ms = RADIO_ONE_RADIO_SUPPORT \<and> list_all2 modem_config_ok ms (modem_confs t))"

lemma NUL_not_safe [simp]: "\<not> safe_char NUL"
  by (simp add: safe_char_def)

lemma put_text_ok:
  assumes "list_all safe_char v" "text_ok n old"
  shows "text_ok n (put_text n v old)"
proof -
  have "list_all safe_char (take n v)" using assms(1) by (auto simp: list_all_iff dest: in_set_takeD)
  with assms show ?thesis
    by (auto simp: put_text_def text_ok_def strncpy_arr_def list_all_iff)
qed

lemma put_text_or_old:
  assumes "list_all safe_char v" "text_or_old n old a"
  shows "text_or_old n old (put_text n v a)"
proof (cases "len_guard v n")
  case True
  then have "put_text n v a = put_text n v (replicate n NUL)" by (simp add: put_text_def)
  with put_text_ok [OF assms(1), of n "replicate n NUL"] show ?thesis by (simp add: text_or_old_def text_ok_def list_all_iff)
qed (use assms(2) in \<open>simp add: put_text_def\<close>)

lemma wifi_set_ok:
  assumes "list_all safe_char v" "wifi_config_ok c"
  shows "wifi_config_ok (radio_hal_yaml_wifi_config k v c)"
proof -
  have if_ok: "wifi_config_ok x \<Longrightarrow> wifi_config_ok y \<Longrightarrow> wifi_config_ok (if b then x else y)" for b x y
    by simp
  show ?thesis unfolding radio_hal_yaml_wifi_config_def
    by (intro if_ok) (use assms(2) put_text_ok [OF assms(1)] in \<open>simp_all add: wifi_config_ok_def\<close>)
qed

lemma modem_set_ok: "list_all safe_char v \<Longrightarrow> modem_config_ok old c \<Longrightarrow> modem_config_ok old (radio_hal_yaml_modem_config k v c)"
  by (simp add: radio_hal_yaml_modem_config_def modem_config_ok_def put_text_or_old)

lemma list_all_update: "list_all P xs \<Longrightarrow> P y \<Longrightarrow> list_all P (xs[i := y])"
  by (metis list_all_iff set_update_subset_insert subsetD insertE)

lemma yaml_set_ok:
  assumes "target_ok ms t" "list_all safe_char v"
  shows "\<exists>t'. yaml_set radio i k v t = Ret t' \<and> target_ok ms t'"
proof -
  let ?w = "radio_hal_yaml_wifi_config k v (wifi_confs t ! i)"
  let ?m = "radio_hal_yaml_modem_config k v (modem_confs t ! i)"
  have l: "length (wifi_confs t) = WIFI_RADIO_MAX" "length ms = RADIO_ONE_RADIO_SUPPORT"
    and a: "list_all wifi_config_ok (wifi_confs t)" "list_all2 modem_config_ok ms (modem_confs t)"
    using assms(1) by (simp_all add: target_ok_def)
  have lm: "length (modem_confs t) = RADIO_ONE_RADIO_SUPPORT" using a(2) l(2) by (simp add: list_all2_lengthD [symmetric])
  consider "radio = RADIO_WIFI \<and> i < WIFI_RADIO_MAX" | "radio = RADIO_MODEM \<and> i < RADIO_ONE_RADIO_SUPPORT"
    | "yaml_set radio i k v t = Ret t"
    by (cases "radio = RADIO_WIFI \<and> i < WIFI_RADIO_MAX";
        cases "radio = RADIO_MODEM \<and> i < RADIO_ONE_RADIO_SUPPORT") (auto simp: yaml_set_def)
  then show ?thesis
  proof cases
    case 1
    then have "wifi_config_ok ?w" using a l wifi_set_ok [OF assms(2)] by (simp add: list_all_length)
    with 1 a l show ?thesis by (simp add: yaml_set_def target_ok_def list_all_update)
  next
    case 2
    then have "modem_config_ok (ms ! i) ?m" using a(2) l(2) modem_set_ok [OF assms(2)] by (simp add: list_all2_conv_all_nth)
    with 2 a l lm show ?thesis by (simp add: yaml_set_def target_ok_def list_all2_conv_all_nth nth_list_update)
  qed (use assms(1) in simp)
qed

definition unsafe_value :: "yaml_token list \<Rightarrow> bool" where
  "unsafe_value ts = (\<exists>v. YAML_SCALAR_TOKEN v \<in> set ts \<and> \<not> list_all safe_char v)"

definition scan_ok :: "modem_config list \<Rightarrow> yaml_token list \<Rightarrow> (int \<times> 'l \<times> yaml_target) outcome \<Rightarrow> bool" where
  "scan_ok ms ts r = (case r of Ret (ret, _, t) \<Rightarrow> (ret = 0 \<or> ret = -1 \<and> unsafe_value ts) \<and> target_ok ms t
     | Fault _ \<Rightarrow> False | Blocked \<Rightarrow> YAML_STREAM_END_TOKEN \<notin> set ts)"

lemma scan_ok_Cons: "scan_ok ms ts r \<Longrightarrow> t \<noteq> YAML_STREAM_END_TOKEN \<Longrightarrow> scan_ok ms (t # ts) r"
  by (auto simp: scan_ok_def unsafe_value_def split: outcome.splits)

lemma validation_iff: "radio_hal_yaml_input_validation v = 0 \<longleftrightarrow> \<not> list_all safe_char v"
  by (simp add: radio_hal_yaml_input_validation_def)

lemma yaml_scan_ok: "target_ok ms t \<Longrightarrow> scan_ok ms ts (yaml_scan_loop radio i ts l t)"
proof (induction radio i ts l t rule: yaml_scan_loop.induct)
  case (6 radio i v ts k temp t)
  show ?case
  proof (cases k)
    case True
    with 6 show ?thesis by (auto intro!: scan_ok_Cons)
  next
    case False
    show ?thesis
    proof (cases "list_all safe_char v")
      case True
      then obtain t' where t': "yaml_set radio i temp v t = Ret t'" "target_ok ms t'"
        using yaml_set_ok [OF 6(3)] by blast
      then have "scan_ok ms ts (yaml_scan_loop radio i ts (k, temp) t')"
        using 6(2) False True by (simp add: validation_iff)
      with t' False True show ?thesis by (auto simp: validation_iff intro!: scan_ok_Cons)
    qed (use False 6(3) in \<open>auto simp: validation_iff scan_ok_def unsafe_value_def\<close>)
  qed
next
  case (1 radio i l t)
  then show ?case by (simp add: scan_ok_def)
next
  case (2 radio i ts l t)
  then show ?case by (simp add: scan_ok_def)
qed (auto intro!: scan_ok_Cons)

text \<open>A file that cannot be opened, or with a value that is not accepted; a file without its end.\<close>

definition bad_file :: "(string \<Rightarrow> yaml_token list option) \<Rightarrow> string \<Rightarrow> bool" where
  "bad_file fs f = (case fs f of None \<Rightarrow> True | Some ts \<Rightarrow> unsafe_value ts)"

definition endless_file :: "(string \<Rightarrow> yaml_token list option) \<Rightarrow> string \<Rightarrow> bool" where
  "endless_file fs f = (case fs f of None \<Rightarrow> False | Some ts \<Rightarrow> YAML_STREAM_END_TOKEN \<notin> set ts)"

lemma yaml_files_ok:
  assumes "target_ok ms t"
  shows "case yaml_files_loop fs radio i ls l t of
      Ret (ret, t') \<Rightarrow> (ret = 0 \<or> ret = -1 \<and> (\<exists>f \<in> set ls. bad_file fs f)) \<and> target_ok ms t'
    | Fault _ \<Rightarrow> False | Blocked \<Rightarrow> \<exists>f \<in> set ls. endless_file fs f"
  using assms
proof (induction ls arbitrary: i l t)
  case (Cons f rest)
  show ?case
  proof (cases "fs f")
    case (Some ts)
    from yaml_scan_ok [OF Cons.prems, of ts radio i l] show ?thesis
    proof (cases "yaml_scan_loop radio i ts l t")
      case (Ret r)
      then obtain ret l' t' where r: "yaml_scan_loop radio i ts l t = Ret (ret, l', t')" by (cases r) auto
      with yaml_scan_ok [OF Cons.prems, of ts radio i l] have t': "target_ok ms t'" "ret = 0 \<or> ret = -1 \<and> bad_file fs f"
        using Some by (auto simp: scan_ok_def bad_file_def)
      show ?thesis using Cons.IH [OF t'(1), of "Suc i" l'] Some r t'
        by (auto split: outcome.splits)
    qed (use Some in \<open>auto simp: scan_ok_def endless_file_def\<close>)
  qed (use Cons.prems in \<open>simp add: bad_file_def\<close>)
qed simp

text \<open>
  C22: loading configuration files never accesses a struct out of place and keeps every array of every
  struct at its size. The text fields of a WiFi configuration hold only NULs and the characters that
  the validation accepts, and so does each field of the modem configuration that was set; one that was
  not set holds what \<open>malloc\<close> left. It returns 0, or -1 when no file is named, one cannot be opened
  or has a value that is not accepted; the one way not to return is a file whose scan stops before the
  end of its stream.
\<close>

theorem yaml_config_safe:
  assumes "target_ok ms t"
  shows "case radio_hal_yaml_config fs files radio t of
      Ret (ret, t') \<Rightarrow> (ret = 0 \<or> ret = -1 \<and> (files = [] \<or> (\<exists>f \<in> set (strtok_all files). bad_file fs f))) \<and> target_ok ms t'
    | Fault _ \<Rightarrow> False
    | Blocked \<Rightarrow> \<exists>f \<in> set (strtok_all files). endless_file fs f"
  using yaml_files_ok [OF assms, where fs = fs and radio = radio and i = 0 and ls = "strtok_all files" and l = "(False, [])"] assms
  by (auto simp: radio_hal_yaml_config_def split: outcome.splits)

section \<open>Files that are a mapping\<close>

definition pair_tokens :: "string \<times> string \<Rightarrow> yaml_token list" where
  "pair_tokens p = [YAML_KEY_TOKEN, YAML_SCALAR_TOKEN (fst p), YAML_VALUE_TOKEN, YAML_SCALAR_TOKEN (snd p)]"

text \<open>Stream start and block start, the pairs, block end and stream end.\<close>

definition mapping_tokens :: "(string \<times> string) list \<Rightarrow> yaml_token list" where
  "mapping_tokens kvs = [YAML_OTHER_TOKEN, YAML_OTHER_TOKEN] @ concat (map pair_tokens kvs)
     @ [YAML_OTHER_TOKEN, YAML_STREAM_END_TOKEN]"

definition temp_key_of :: "string \<Rightarrow> string" where
  "temp_key_of k = (if TEMP_KEY_SIZE > length k then k else [])"

text \<open>The pairs of a file set one after the other.\<close>

definition load_pairs :: "(string \<Rightarrow> string \<Rightarrow> 'c \<Rightarrow> 'c) \<Rightarrow> (string \<times> string) list \<Rightarrow> 'c \<Rightarrow> 'c" where
  "load_pairs set_pair kvs = fold (\<lambda>(k, v). set_pair (temp_key_of k) v) kvs"

definition load_wifi :: "(string \<times> string) list \<Rightarrow> wifi_config \<Rightarrow> wifi_config" where
  "load_wifi = load_pairs radio_hal_yaml_wifi_config"

definition load_modem :: "(string \<times> string) list \<Rightarrow> modem_config \<Rightarrow> modem_config" where
  "load_modem = load_pairs radio_hal_yaml_modem_config"

definition all_safe :: "(string \<times> string) list \<Rightarrow> bool" where
  "all_safe kvs = list_all (\<lambda>(k, v). list_all safe_char v) kvs"

definition put_wifi :: "nat \<Rightarrow> (wifi_config \<Rightarrow> wifi_config) \<Rightarrow> yaml_target \<Rightarrow> yaml_target" where
  "put_wifi i f t = (if i < WIFI_RADIO_MAX then t\<lparr>wifi_confs := (wifi_confs t)[i := f (wifi_confs t ! i)]\<rparr> else t)"

lemma put_wifi_simps [simp]:
  "length (wifi_confs (put_wifi i f t)) = length (wifi_confs t)"
  "put_wifi i (\<lambda>c. c) t = t"
  by (simp_all add: put_wifi_def)

lemma put_wifi_put_wifi [simp]:
  "length (wifi_confs t) = WIFI_RADIO_MAX \<Longrightarrow> put_wifi i g (put_wifi i f t) = put_wifi i (\<lambda>c. g (f c)) t"
  by (simp add: put_wifi_def)

lemma yaml_set_wifi:
  "length (wifi_confs t) = WIFI_RADIO_MAX
   \<Longrightarrow> yaml_set RADIO_WIFI i k v t = Ret (put_wifi i (radio_hal_yaml_wifi_config k v) t)"
  by (simp add: yaml_set_def put_wifi_def)

lemma load_pairs_simps:
  "load_pairs set_pair [] = (\<lambda>c. c)"
  "load_pairs set_pair ((k, v) # kvs) = (\<lambda>c. load_pairs set_pair kvs (set_pair (temp_key_of k) v c))"
  by (auto simp: load_pairs_def)

lemmas load_wifi_simps [simp] = load_pairs_simps [where set_pair = radio_hal_yaml_wifi_config, folded load_wifi_def]
lemmas load_modem_simps [simp] = load_pairs_simps [where set_pair = radio_hal_yaml_modem_config, folded load_modem_def]

definition put_modem :: "nat \<Rightarrow> (modem_config \<Rightarrow> modem_config) \<Rightarrow> yaml_target \<Rightarrow> yaml_target" where
  "put_modem i f t = (if i < RADIO_ONE_RADIO_SUPPORT then t\<lparr>modem_confs := (modem_confs t)[i := f (modem_confs t ! i)]\<rparr> else t)"

lemma yaml_set_modem:
  "length (modem_confs t) = RADIO_ONE_RADIO_SUPPORT
   \<Longrightarrow> yaml_set RADIO_MODEM i k v t = Ret (put_modem i (radio_hal_yaml_modem_config k v) t)"
  by (simp add: yaml_set_def put_modem_def)

text \<open>
  What the scanner needs of a kind of radio: setting a pair replaces the configuration of the
  radio of the file, and nothing else.
\<close>

locale yaml_radio =
  fixes radio :: radio_type
    and set_pair :: "string \<Rightarrow> string \<Rightarrow> 'c \<Rightarrow> 'c"
    and put_conf :: "nat \<Rightarrow> ('c \<Rightarrow> 'c) \<Rightarrow> yaml_target \<Rightarrow> yaml_target"
    and fits :: "yaml_target \<Rightarrow> bool"
  assumes set_put: "fits t \<Longrightarrow> yaml_set radio i k v t = Ret (put_conf i (set_pair k v) t)"
    and put_put: "fits t \<Longrightarrow> put_conf i g (put_conf i f t) = put_conf i (\<lambda>c. g (f c)) t"
    and put_same: "put_conf i (\<lambda>c. c) t = t"
    and put_fits: "fits t \<Longrightarrow> fits (put_conf i f t)"
begin

lemma scan_pairs:
  assumes "fits t" "all_safe kvs"
  shows "\<exists>k' temp'. yaml_scan_loop radio i (concat (map pair_tokens kvs) @ rest) (k, temp) t
    = yaml_scan_loop radio i rest (k', temp') (put_conf i (load_pairs set_pair kvs) t)"
  using assms
proof (induction kvs arbitrary: k temp t)
  case (Cons p kvs)
  obtain x v where p: "p = (x, v)" by (cases p)
  let ?t = "put_conf i (set_pair (temp_key_of x) v) t"
  have step: "yaml_scan_loop radio i (concat (map pair_tokens (p # kvs)) @ rest) (k, temp) t
    = yaml_scan_loop radio i (concat (map pair_tokens kvs) @ rest) (False, temp_key_of x) ?t"
    using Cons.prems by (simp add: p pair_tokens_def validation_iff all_safe_def set_put temp_key_of_def)
  have "fits ?t" "all_safe kvs" using Cons.prems by (simp_all add: all_safe_def put_fits)
  from Cons.IH [OF this, of False "temp_key_of x"] show ?case
    using Cons.prems(1) unfolding step by (simp add: p load_pairs_simps put_put)
qed (auto simp: load_pairs_simps put_same)

lemma scan_mapping:
  assumes "fits t" "all_safe kvs"
  shows "\<exists>l'. yaml_scan_loop radio i (mapping_tokens kvs) l t = Ret (0, l', put_conf i (load_pairs set_pair kvs) t)"
proof -
  obtain k temp where "l = (k, temp)" by (cases l)
  with scan_pairs [OF assms, of i "[YAML_OTHER_TOKEN, YAML_STREAM_END_TOKEN]" k temp] show ?thesis
    by (auto simp: mapping_tokens_def)
qed

end

interpretation wifi_file: yaml_radio RADIO_WIFI radio_hal_yaml_wifi_config put_wifi "\<lambda>t. length (wifi_confs t) = WIFI_RADIO_MAX"
  by unfold_locales (simp_all add: yaml_set_wifi)

interpretation modem_file: yaml_radio RADIO_MODEM radio_hal_yaml_modem_config put_modem
    "\<lambda>t. length (modem_confs t) = RADIO_ONE_RADIO_SUPPORT"
  by unfold_locales (simp_all add: yaml_set_modem, simp_all add: put_modem_def)

fun file_args :: "string list \<Rightarrow> string" where
  "file_args [] = []"
| "file_args [f] = f"
| "file_args (f # g # fl) = f @ CHR '' '' # file_args (g # fl)"

definition file_name_ok :: "string \<Rightarrow> bool" where
  "file_name_ok f = (f \<noteq> [] \<and> CHR '' '' \<notin> set f)"

lemma strtok_all_Nil [simp]: "strtok_all [] = []"
  by (subst strtok_all.simps) simp

lemma strtok_all_first:
  assumes "file_name_ok f" "rest = [] \<or> hd rest = CHR '' ''"
  shows "strtok_all (f @ rest) = f # strtok_all rest"
proof -
  obtain c r where f: "f = c # r" "c \<noteq> CHR '' ''" using assms(1) by (cases f) (auto simp: file_name_ok_def)
  have 1: "dropWhile (\<lambda>c. c = CHR '' '') (f @ rest) = c # r @ rest" using f by simp
  have all: "\<forall>x \<in> set (c # r). x \<noteq> CHR '' ''" using assms(1) f(1) by (auto simp: file_name_ok_def)
  have 2: "takeWhile (\<lambda>c. c \<noteq> CHR '' '') ((c # r) @ rest) = c # r"
    and 3: "dropWhile (\<lambda>c. c \<noteq> CHR '' '') ((c # r) @ rest) = rest"
    using assms(2) all by (cases rest; simp add: takeWhile_append dropWhile_append)+
  show ?thesis by (subst strtok_all.simps) (use 1 2 3 f(1) in simp)
qed

lemma strtok_all_skip: "strtok_all (CHR '' '' # s) = strtok_all s"
  by (subst (1 2) strtok_all.simps) simp

lemma strtok_file_args: "list_all file_name_ok fl \<Longrightarrow> strtok_all (file_args fl) = fl"
proof (induction fl rule: file_args.induct)
  case (2 f)
  then show ?case using strtok_all_first [of f "[]"] by simp
next
  case (3 f g fl)
  then show ?case by (simp add: strtok_all_first strtok_all_skip)
qed simp

fun load_files :: "(string \<Rightarrow> (string \<times> string) list) \<Rightarrow> nat \<Rightarrow> string list \<Rightarrow> yaml_target \<Rightarrow> yaml_target" where
  "load_files kvs i [] t = t"
| "load_files kvs i (f # fl) t = load_files kvs (Suc i) fl (put_wifi i (load_wifi (kvs f)) t)"

lemma files_mapping:
  assumes "length (wifi_confs t) = WIFI_RADIO_MAX"
    and "\<And>f. f \<in> set fl \<Longrightarrow> fs f = Some (mapping_tokens (kvs f)) \<and> all_safe (kvs f)"
  shows "yaml_files_loop fs RADIO_WIFI i fl l t = Ret (0, load_files kvs i fl t)"
  using assms
proof (induction fl arbitrary: i l t)
  case (Cons f fl)
  have f: "fs f = Some (mapping_tokens (kvs f))" "all_safe (kvs f)" using Cons.prems(2) by auto
  obtain l' where "yaml_scan_loop RADIO_WIFI i (mapping_tokens (kvs f)) l t = Ret (0, l', put_wifi i (load_wifi (kvs f)) t)"
    using wifi_file.scan_mapping [OF Cons.prems(1) f(2)] unfolding load_wifi_def by blast
  with Cons f(1) show ?case by simp
qed simp

lemma load_files_nth:
  assumes "length (wifi_confs t) = WIFI_RADIO_MAX" "j < WIFI_RADIO_MAX"
  shows "wifi_confs (load_files kvs i fl t) ! j =
    (if i \<le> j \<and> j < i + length fl then load_wifi (kvs (fl ! (j - i))) (wifi_confs t ! j) else wifi_confs t ! j)"
  using assms
proof (induction fl arbitrary: i t)
  case (Cons f fl)
  have s: "fl ! (j - Suc i) = (f # fl) ! (j - i)" if "Suc i \<le> j" using that by (simp add: nth_Cons' )
  show ?case using Cons s
    by (auto simp: put_wifi_def nth_list_update not_le Suc_le_eq)
qed auto

lemma load_files_frame [simp]:
  "length (wifi_confs (load_files kvs i fl t)) = length (wifi_confs t)"
  "modem_confs (load_files kvs i fl t) = modem_confs t"
  "yaml_target.more (load_files kvs i fl t) = yaml_target.more t"
  by (induction fl arbitrary: i t) (auto simp: put_wifi_def)

text \<open>
  C23: given one mapping file per radio, the configuration of radio \<open>j\<close> is the one it had with the
  pairs of the \<open>j\<close>-th file set one after the other, a key of sixteen bytes or more standing for
  no key; files beyond the number of radios change nothing.
\<close>

theorem yaml_files_configure:
  assumes "length (wifi_confs t) = WIFI_RADIO_MAX" "fl \<noteq> []" "list_all file_name_ok fl"
    and "list_all (\<lambda>f. fs f = Some (mapping_tokens (kvs f)) \<and> all_safe (kvs f)) fl"
  shows "radio_hal_yaml_config fs (file_args fl) RADIO_WIFI t = Ret (0, t\<lparr>wifi_confs :=
      map (\<lambda>j. if j < length fl then load_wifi (kvs (fl ! j)) (wifi_confs t ! j) else wifi_confs t ! j)
        [0..<WIFI_RADIO_MAX]\<rparr>)"
proof -
  have "file_args fl \<noteq> []" using assms(2,3) by (cases fl rule: file_args.cases) (auto simp: file_name_ok_def)
  moreover have "yaml_files_loop fs RADIO_WIFI 0 fl (False, []) t = Ret (0, load_files kvs 0 fl t)"
    using assms(1,4) by (intro files_mapping) (auto simp: list_all_iff)
  moreover have "load_files kvs 0 fl t = t\<lparr>wifi_confs :=
      map (\<lambda>j. if j < length fl then load_wifi (kvs (fl ! j)) (wifi_confs t ! j) else wifi_confs t ! j)
        [0..<WIFI_RADIO_MAX]\<rparr>"
    using assms(1) by (intro yaml_target.equality nth_equalityI) (auto simp: load_files_nth)
  ultimately show ?thesis using strtok_file_args [OF assms(3)] by (simp add: radio_hal_yaml_config_def)
qed

theorem yaml_files_configure_witness:
  "radio_hal_yaml_config (\<lambda>f. Some (mapping_tokens [(''enc'', ''SAE''), (''encryption'', ''NONE''), (''distance'', ''3000'')]))
      ''a.yaml'' RADIO_WIFI \<lparr>wifi_confs = [wifi_config_zero, wifi_config_zero], modem_confs = []\<rparr>
   = Ret (0, \<lparr>wifi_confs = [wifi_config_zero\<lparr>wc_enc := ''NONE'' @ replicate 4 NUL, wc_distance := 3000\<rparr>,
        wifi_config_zero], modem_confs = []\<rparr>)"
  using yaml_files_configure [of "\<lparr>wifi_confs = [wifi_config_zero, wifi_config_zero], modem_confs = []\<rparr>" "[''a.yaml'']"
      "\<lambda>f. Some (mapping_tokens [(''enc'', ''SAE''), (''encryption'', ''NONE''), (''distance'', ''3000'')])"
      "\<lambda>f. [(''enc'', ''SAE''), (''encryption'', ''NONE''), (''distance'', ''3000'')]"]
  by (simp add: WIFI_RADIO_MAX_def file_name_ok_def all_safe_def safe_char_def temp_key_of_def TEMP_KEY_SIZE_def
      radio_hal_yaml_wifi_config_def starts_with_def put_text_def strncpy_arr_def len_guard_def put_int_def
      strtol_def subject_seq_def split_sign_def isspace_def is_base_digit_def digit_of_def digits_value_def c_int_def upt_rec)

text \<open>
  A value with a character outside the accepted set ends the loading with -1, with the pairs
  before it already set.
\<close>

theorem yaml_unsafe_value:
  assumes "length (wifi_confs t) = WIFI_RADIO_MAX" "file_name_ok f"
    and "fs f = Some (mapping_tokens (kvs @ (k, v) # rest))" "all_safe kvs" "\<not> list_all safe_char v"
  shows "radio_hal_yaml_config fs f RADIO_WIFI t = Ret (-1, put_wifi 0 (load_wifi kvs) t)"
proof -
  let ?r = "pair_tokens (k, v) @ concat (map pair_tokens rest) @ [YAML_OTHER_TOKEN, YAML_STREAM_END_TOKEN]"
  obtain k' temp' where "yaml_scan_loop RADIO_WIFI 0 (concat (map pair_tokens kvs) @ ?r) (False, []) t
    = yaml_scan_loop RADIO_WIFI 0 ?r (k', temp') (put_wifi 0 (load_wifi kvs) t)"
    using wifi_file.scan_pairs [OF assms(1,4)] unfolding load_wifi_def by blast
  then have "yaml_scan_loop RADIO_WIFI 0 (mapping_tokens (kvs @ (k, v) # rest)) (False, []) t
    = Ret (-1, (False, temp_key_of k), put_wifi 0 (load_wifi kvs) t)"
    using assms(5) by (simp add: mapping_tokens_def pair_tokens_def validation_iff temp_key_of_def)
  moreover have "strtok_all f = [f]" using strtok_file_args [of "[f]"] assms(2) by simp
  ultimately show ?thesis using assms(2,3) by (auto simp: radio_hal_yaml_config_def file_name_ok_def)
qed

lemma space_not_safe: "\<not> safe_char (CHR '' '')"
  by (simp add: safe_char_def)

section \<open>Reading a field\<close>

text \<open>
  The character arrays of the struct are adjacent up to the padding before \<open>distance\<close>, which
  \<open>calloc\<close> cleared. \<open>%s\<close> of a field reads from its offset up to the first NUL.
\<close>

definition wifi_chars :: "wifi_config \<Rightarrow> string" where
  "wifi_chars c = wc_key c @ wc_passphrase c @ wc_ssid c @ wc_enc c @ wc_ap_mac_addr c @ wc_country c
     @ wc_freq c @ wc_bw c @ wc_preamble c @ replicate 3 NUL"

definition field_from :: "nat \<Rightarrow> wifi_config \<Rightarrow> string" where
  "field_from off c = arr_str (drop off (wifi_chars c))"

definition ssid_str :: "wifi_config \<Rightarrow> string" where "ssid_str = field_from 128"
definition enc_str :: "wifi_config \<Rightarrow> string" where "enc_str = field_from 160"
definition key_str :: "wifi_config \<Rightarrow> string" where "key_str = field_from 0"
definition passphrase_str :: "wifi_config \<Rightarrow> string" where "passphrase_str = field_from 64"
definition ap_mac_str :: "wifi_config \<Rightarrow> string" where "ap_mac_str = field_from 168"
definition country_str :: "wifi_config \<Rightarrow> string" where "country_str = field_from 186"
definition bw_str :: "wifi_config \<Rightarrow> string" where "bw_str = field_from 195"
definition freq_str :: "wifi_config \<Rightarrow> string" where "freq_str = field_from 189"

text \<open>\<open>mode\<close> and \<open>type\<close> follow two integers, and two bytes of padding follow them.\<close>

definition mode_str :: "wifi_config \<Rightarrow> string" where
  "mode_str c = arr_str (wc_mode c @ wc_type c @ replicate 2 NUL)"

definition type_str :: "wifi_config \<Rightarrow> string" where
  "type_str c = arr_str (wc_type c @ replicate 2 NUL)"

lemma arr_str_append_NUL: "NUL \<in> set a \<Longrightarrow> arr_str (a @ b) = arr_str a"
  by (auto simp: arr_str_def)

lemma put_text_run:
  assumes "NUL \<notin> set v" "v \<noteq> []" "length v \<le> n" "n < 2 ^ 64 - 1"
  shows "arr_str (put_text n v old @ rest) = (if length v < n then v else v @ arr_str rest)"
proof -
  have g: "len_guard v n" using assms by (subst len_guard_iff) auto
  show ?thesis
  proof (cases "length v < n")
    case True
    then have "NUL \<in> set (strncpy_arr n v)" using assms(1) by (auto simp: strncpy_arr_def)
    with True g arr_str_strncpy [OF assms(1), of n] show ?thesis
      by (simp add: put_text_def arr_str_append_NUL)
  next
    case False
    with g assms show ?thesis by (simp add: put_text_def strncpy_arr_def arr_str_append)
  qed
qed

text \<open>
  An SSID of 1 to 31 bytes is read back as it was configured. A legal SSID of 32 bytes fills
  its array without a terminator, and reading it runs on into the encryption field; a longer one
  is dropped without an error.
\<close>

theorem ssid_read_back:
  assumes "wifi_config_ok c" "NUL \<notin> set v" "v \<noteq> []" "length v < 2 ^ 64"
  shows "ssid_str (radio_hal_yaml_wifi_config ''ssid'' v c) =
    (if length v < 32 then v else if length v = 32 then v @ enc_str c else ssid_str c)"
proof -
  let ?c = "radio_hal_yaml_wifi_config ''ssid'' v c"
  let ?rest = "wc_enc c @ wc_ap_mac_addr c @ wc_country c @ wc_freq c @ wc_bw c @ wc_preamble c @ replicate 3 NUL"
  have c: "?c = c\<lparr>wc_ssid := put_text 32 v (wc_ssid c)\<rparr>"
    by (simp add: radio_hal_yaml_wifi_config_def starts_with_def)
  have len: "length (wc_key c) = 64" "length (wc_passphrase c) = 64" "length (wc_ssid c) = 32"
    using assms(1) by (simp_all add: wifi_config_ok_def text_ok_def)
  have 1: "ssid_str (c\<lparr>wc_ssid := x\<rparr>) = arr_str (x @ ?rest)" for x
    using len by (simp add: ssid_str_def field_from_def wifi_chars_def)
  have 2: "enc_str c = arr_str ?rest"
    using len by (simp add: enc_str_def field_from_def wifi_chars_def)
  show ?thesis
  proof (cases "length v \<le> 32")
    case True
    show ?thesis unfolding c 1 2 using put_text_run [OF assms(2,3) True] True by auto
  next
    case False
    then have "\<not> len_guard v 32" using assms(4) by (subst len_guard_iff) auto
    then show ?thesis using False by (simp add: c put_text_def)
  qed
qed

lemma text_ok_zero [simp]: "text_ok n (replicate n NUL)"
  by (simp add: text_ok_def list_all_iff)

lemma wifi_config_ok_zero [simp]: "wifi_config_ok wifi_config_zero"
  by (simp add: wifi_config_ok_def wifi_config_zero_def)

text \<open>A file for the modem whose second value is not accepted; the struct held a character that is not accepted either.\<close>

definition modem_junk0 :: modem_config where
  "modem_junk0 = \<lparr>mc_apn = replicate 20 (CHR ''#''), mc_pin = replicate 5 (CHR ''#''), mc_at_serial = replicate 20 (CHR ''#'')\<rparr>"

theorem yaml_config_safe_witness:
  "\<exists>t'. radio_hal_yaml_config (\<lambda>f. Some (mapping_tokens [(''pin'', ''1234''), (''apn'', ''a b'')])) ''m.yaml'' RADIO_MODEM
      \<lparr>wifi_confs = [wifi_config_zero, wifi_config_zero], modem_confs = [modem_junk0]\<rparr> = Ret (-1, t')
    \<and> target_ok [modem_junk0] t' \<and> text_ok 5 (mc_pin (modem_confs t' ! 0)) \<and> mc_apn (modem_confs t' ! 0) = mc_apn modem_junk0"
proof -
  let ?t = "\<lparr>wifi_confs = [wifi_config_zero, wifi_config_zero], modem_confs = [modem_junk0]\<rparr>"
  let ?fs = "\<lambda>f :: string. Some (mapping_tokens [(''pin'', ''1234''), (''apn'', ''a b'')])"
  let ?c = "modem_junk0\<lparr>mc_pin := ''1234'' @ [NUL]\<rparr>"
  have "strtok_all ''m.yaml'' = [''m.yaml'']" using strtok_file_args [of "[''m.yaml'']"] by (simp add: file_name_ok_def)
  then have r: "radio_hal_yaml_config ?fs ''m.yaml'' RADIO_MODEM ?t = Ret (-1, ?t\<lparr>modem_confs := [?c]\<rparr>)"
    by (simp add: radio_hal_yaml_config_def mapping_tokens_def pair_tokens_def radio_hal_yaml_input_validation_def safe_char_def
        yaml_set_def radio_hal_yaml_modem_config_def starts_with_def put_text_def strncpy_arr_def len_guard_def TEMP_KEY_SIZE_def
        RADIO_ONE_RADIO_SUPPORT_def WIFI_RADIO_MAX_def)
  have "target_ok [modem_junk0] ?t"
    by (simp add: target_ok_def WIFI_RADIO_MAX_def RADIO_ONE_RADIO_SUPPORT_def modem_config_ok_def text_or_old_def modem_junk0_def)
  from yaml_config_safe [OF this, where fs = ?fs and files = "''m.yaml''" and radio = RADIO_MODEM, unfolded r] have ok: "target_ok [modem_junk0] (?t\<lparr>modem_confs := [?c]\<rparr>)" by simp
  then have "text_ok 5 (mc_pin ?c)" by (auto simp: target_ok_def modem_config_ok_def text_or_old_def modem_junk0_def eval_nat_numeral)
  with r ok show ?thesis by simp
qed

end
