(* ===== verification/OsUnix.thy ===== *)
theory OsUnix
  imports CMem "HOL-Library.Word"
begin

text \<open>
  The OS wrapper of the wpa_supplicant control library: the inline helpers of
  src/src/wifi/wpa_socket/os.h and the functions of os_unix.c that do more than call the C library.
  What the operating system answers (the clocks, the working directory, the contents of a file) is
  an argument.
\<close>

section \<open>Times\<close>

record os_reltime =
  rt_sec :: int
  rt_usec :: int

type_synonym os_time = os_reltime

definition os_time_before :: "os_time \<Rightarrow> os_time \<Rightarrow> bool" where
  "os_time_before a b = (rt_sec a < rt_sec b \<or> rt_sec a = rt_sec b \<and> rt_usec a < rt_usec b)"

definition os_time_sub :: "os_time \<Rightarrow> os_time \<Rightarrow> os_time" where
  "os_time_sub a b = (let s = rt_sec a - rt_sec b; u = rt_usec a - rt_usec b in
     if u < 0 then \<lparr>rt_sec = s - 1, rt_usec = u + 1000000\<rparr> else \<lparr>rt_sec = s, rt_usec = u\<rparr>)"

definition os_reltime_before :: "os_reltime \<Rightarrow> os_reltime \<Rightarrow> bool" where
  "os_reltime_before a b = (rt_sec a < rt_sec b \<or> rt_sec a = rt_sec b \<and> rt_usec a < rt_usec b)"

definition os_reltime_sub :: "os_reltime \<Rightarrow> os_reltime \<Rightarrow> os_reltime" where
  "os_reltime_sub a b = (let s = rt_sec a - rt_sec b; u = rt_usec a - rt_usec b in
     if u < 0 then \<lparr>rt_sec = s - 1, rt_usec = u + 1000000\<rparr> else \<lparr>rt_sec = s, rt_usec = u\<rparr>)"

definition os_reltime_age :: "os_reltime \<Rightarrow> os_reltime \<Rightarrow> os_reltime" where
  "os_reltime_age now start = os_reltime_sub now start"

definition os_reltime_expired :: "os_reltime \<Rightarrow> os_reltime \<Rightarrow> int \<Rightarrow> bool" where
  "os_reltime_expired now ts timeout_secs = (let age = os_reltime_sub now ts in
     rt_sec age > timeout_secs \<or> rt_sec age = timeout_secs \<and> rt_usec age > 0)"

definition os_reltime_initialized :: "os_reltime \<Rightarrow> bool" where
  "os_reltime_initialized t = (rt_sec t \<noteq> 0 \<or> rt_usec t \<noteq> 0)"

text \<open>
  \<open>os_get_reltime\<close>: the clock that is tried first is kept in a static variable, and a clock that
  fails is given up for good. \<open>clock\<close> is what \<open>clock_gettime\<close> says, in seconds and nanoseconds.
\<close>

datatype clockid = CLOCK_BOOTTIME | CLOCK_MONOTONIC | CLOCK_REALTIME

fun next_clock :: "clockid \<Rightarrow> clockid option" where
  "next_clock CLOCK_BOOTTIME = Some CLOCK_MONOTONIC"
| "next_clock CLOCK_MONOTONIC = Some CLOCK_REALTIME"
| "next_clock CLOCK_REALTIME = None"

fun clock_rank :: "clockid \<Rightarrow> nat" where
  "clock_rank CLOCK_BOOTTIME = 2" | "clock_rank CLOCK_MONOTONIC = 1" | "clock_rank CLOCK_REALTIME = 0"

function os_get_reltime :: "(clockid \<Rightarrow> (int \<times> int) option) \<Rightarrow> clockid \<Rightarrow> os_reltime option \<times> clockid" where
  "os_get_reltime clock c = (case clock c of
       Some (s, ns) \<Rightarrow> (Some \<lparr>rt_sec = s, rt_usec = ns div 1000\<rparr>, c)
     | None \<Rightarrow> (case next_clock c of None \<Rightarrow> (None, c) | Some c' \<Rightarrow> os_get_reltime clock c'))"
  by pat_completeness auto
termination
proof (relation "measure (\<lambda>(_, c). clock_rank c)")
  fix clock :: "clockid \<Rightarrow> (int \<times> int) option" and c c'
  assume "next_clock c = Some c'"
  then show "((clock, c'), clock, c) \<in> measure (\<lambda>(_, c). clock_rank c)" by (cases c) auto
qed simp

declare os_get_reltime.simps [simp del]

section \<open>Sizes\<close>

definition os_snprintf_error :: "size_t \<Rightarrow> int \<Rightarrow> bool" where
  "os_snprintf_error sz res = (res < 0 \<or> sz \<le> ucast (of_int res :: 32 word))"

definition os_calloc_size :: "size_t \<Rightarrow> size_t \<Rightarrow> size_t option" where
  "os_calloc_size nmemb sz = (if sz \<noteq> 0 \<and> nmemb > (- 1) div sz then None else Some (nmemb * sz))"

definition os_realloc_array_size :: "size_t \<Rightarrow> size_t \<Rightarrow> size_t option" where
  "os_realloc_array_size nmemb sz = (if sz \<noteq> 0 \<and> nmemb > (- 1) div sz then None else Some (nmemb * sz))"

text \<open>Members of \<open>size\<close> bytes; the number of members is \<open>nmemb - 1\<close> in \<open>size_t\<close>, so an empty array
  would move too.\<close>

definition os_remove_in_array :: "mem \<Rightarrow> nat \<Rightarrow> nat \<Rightarrow> nat \<Rightarrow> mem outcome" where
  "os_remove_in_array m nmemb sz idx =
     (if int idx < (if nmemb = 0 then 2 ^ 64 - 1 else int nmemb - 1)
      then mem_copy m (idx * sz) ((idx + 1) * sz) ((nmemb - idx - 1) * sz) else Ret m)"

section \<open>Strings and bytes\<close>

text \<open>The loop \<open>while (--left != 0) if ((*dest++ = *s++) == 0) break;\<close>, and the scan for the end.\<close>

fun strlcpy_loop :: "mem \<Rightarrow> nat \<Rightarrow> mem \<Rightarrow> nat \<Rightarrow> nat \<Rightarrow> (mem \<times> nat \<times> nat \<times> nat) outcome" where
  "strlcpy_loop dest d src s left =
     (if left \<le> 1 then Ret (dest, d, s, 0)
      else obind (rd src s) (\<lambda>c. obind (wr dest d c) (\<lambda>dest'.
        if c = NUL then Ret (dest', d + 1, s + 1, left - 1)
        else strlcpy_loop dest' (d + 1) src (s + 1) (left - 1))))"

declare strlcpy_loop.simps [simp del]

definition os_strlcpy :: "mem \<Rightarrow> mem \<Rightarrow> nat \<Rightarrow> (nat \<times> mem) outcome" where
  "os_strlcpy dest src siz =
     obind (if siz \<noteq> 0 then strlcpy_loop dest 0 src 0 siz else Ret (dest, 0, 0, 0)) (\<lambda>(dest1, d, s, left).
       if left = 0
       then obind (if siz \<noteq> 0 then wr dest1 d NUL else Ret dest1) (\<lambda>dest2.
            obind (scan (\<lambda>_. True) src s) (\<lambda>e. Ret (e, dest2)))
       else Ret (s - 1, dest1))"

fun memcmp_const_loop :: "nat \<Rightarrow> u8 list \<Rightarrow> u8 list \<Rightarrow> u8 \<Rightarrow> u8 outcome" where
  "memcmp_const_loop 0 aa bb res = Ret res"
| "memcmp_const_loop (Suc n) (a # aa) (b # bb) res = memcmp_const_loop n aa bb (or res (xor a b))"
| "memcmp_const_loop (Suc n) aa bb res = Fault OutOfBounds"

definition os_memcmp_const :: "u8 list \<Rightarrow> u8 list \<Rightarrow> nat \<Rightarrow> u8 outcome" where
  "os_memcmp_const a b len = memcmp_const_loop len a b 0"

text \<open>\<open>os_rel2abs_path\<close>: the buffer for \<open>getcwd\<close> is doubled while it is too small, up to 2000 bytes.\<close>

datatype cwd_res = Cwd string | CwdRange | CwdErr

function rel2abs_cwd :: "(nat \<Rightarrow> cwd_res) \<Rightarrow> nat \<Rightarrow> string option" where
  "rel2abs_cwd getcwd len = (case getcwd len of
       Cwd c \<Rightarrow> Some c
     | CwdErr \<Rightarrow> None
     | CwdRange \<Rightarrow> if len * 2 > 2000 \<or> len = 0 then None else rel2abs_cwd getcwd (len * 2))"
  by pat_completeness auto
termination
  by (relation "measure (\<lambda>(_, len). 2001 - len)") auto

declare rel2abs_cwd.simps [simp del]

definition os_rel2abs_path :: "(nat \<Rightarrow> cwd_res) \<Rightarrow> string option \<Rightarrow> string option" where
  "os_rel2abs_path getcwd rel_path = (case rel_path of
       None \<Rightarrow> None
     | Some r \<Rightarrow> if r \<noteq> [] \<and> hd r = CHR ''/'' then Some r
         else map_option (\<lambda>cwd. cwd @ CHR ''/'' # r) (rel2abs_cwd getcwd 128))"

text \<open>The words of the argument string of \<open>os_exec\<close>, at most \<open>MAX_ARG - 1\<close> of them.\<close>

definition MAX_ARG :: nat where "MAX_ARG = 30"

fun exec_words :: "nat \<Rightarrow> string \<Rightarrow> string list" where
  "exec_words 0 pos = []"
| "exec_words (Suc n) pos = (case dropWhile (\<lambda>c. c = CHR '' '') pos of
       [] \<Rightarrow> []
     | s \<Rightarrow> takeWhile (\<lambda>c. c \<noteq> CHR '' '') s # exec_words n (drop 1 (dropWhile (\<lambda>c. c \<noteq> CHR '' '') s)))"

definition os_exec_argv :: "string \<Rightarrow> string \<Rightarrow> string list" where
  "os_exec_argv program arg = program # exec_words (MAX_ARG - 1) arg"

text \<open>
  \<open>os_readfile\<close>: None when the file cannot be opened, its size cannot be found, or fewer bytes than
  the size come back. \<open>os_get_random\<close> wants all its bytes too.
\<close>

definition os_readfile :: "string option \<Rightarrow> int \<Rightarrow> nat \<Rightarrow> string option" where
  "os_readfile content pos got = (case content of
       None \<Rightarrow> None
     | Some bs \<Rightarrow> if pos < 0 then None else if got \<noteq> nat pos then None else Some (take got bs))"

definition os_get_random :: "string option \<Rightarrow> nat \<Rightarrow> int" where
  "os_get_random urandom len = (case urandom of None \<Rightarrow> -1 | Some bs \<Rightarrow> if min len (length bs) \<noteq> len then -1 else 0)"

section \<open>What they do\<close>

definition usecs :: "os_reltime \<Rightarrow> int" where
  "usecs t = rt_sec t * 1000000 + rt_usec t"

definition normal_time :: "os_reltime \<Rightarrow> bool" where
  "normal_time t = (0 \<le> rt_usec t \<and> rt_usec t < 1000000)"

lemma os_reltime_sub_exact:
  assumes "normal_time a" "normal_time b"
  shows "normal_time (os_reltime_sub a b)" "usecs (os_reltime_sub a b) = usecs a - usecs b"
  using assms by (auto simp: os_reltime_sub_def normal_time_def usecs_def Let_def)

lemma os_reltime_expired_exact:
  assumes "normal_time now" "normal_time ts"
  shows "os_reltime_expired now ts n \<longleftrightarrow> usecs now - usecs ts > n * 1000000"
  using os_reltime_sub_exact [OF assms] unfolding os_reltime_expired_def Let_def normal_time_def usecs_def
  by linarith

lemma os_reltime_before_exact:
  assumes "normal_time a" "normal_time b"
  shows "os_reltime_before a b \<longleftrightarrow> usecs a < usecs b"
  using assms unfolding os_reltime_before_def normal_time_def usecs_def by linarith

lemma get_reltime_monotone: "clock_rank (snd (os_get_reltime clock c)) \<le> clock_rank c"
proof (induction clock c rule: os_get_reltime.induct)
  case (1 clock c)
  show ?case
    using 1 by (subst os_get_reltime.simps) (cases c; auto split: option.splits)
qed

lemma alloc_size_exact:
  "os_calloc_size n sz = (if unat n * unat sz < 2 ^ 64 then Some (n * sz) else None)"
proof -
  have m: "unat (- 1 :: size_t) = 2 ^ 64 - 1" by (simp add: unsigned_minus_1_eq_mask mask_eq_exp_minus_1)
  show ?thesis
  proof (cases "sz = 0")
    case False
    then have p: "0 < unat sz" by (simp add: unat_gt_0)
    have "(- 1) div sz < n \<longleftrightarrow> (2 ^ 64 - 1) div unat sz < unat n"
      by (simp only: word_less_nat_alt unat_div_distrib m)
    also have "\<dots> \<longleftrightarrow> 2 ^ 64 - 1 < unat n * unat sz" by (rule div_less_iff_less_mult [OF p])
    also have "\<dots> \<longleftrightarrow> \<not> unat n * unat sz < 2 ^ 64"
      by (subst not_less, subst Suc_le_eq [symmetric]) simp
    finally show ?thesis using False by (simp add: os_calloc_size_def)
  qed (simp add: os_calloc_size_def)
qed

lemma memcmp_const_loop_zero:
  "n \<le> length a \<Longrightarrow> n \<le> length b \<Longrightarrow>
   \<exists>r. memcmp_const_loop n a b res = Ret r \<and> (r = 0 \<longleftrightarrow> res = 0 \<and> take n a = take n b)"
proof (induction n a b res rule: memcmp_const_loop.induct)
  case (2 n a aa b bb res)
  then obtain r where r: "memcmp_const_loop n aa bb (or res (xor a b)) = Ret r"
    "r = 0 \<longleftrightarrow> or res (xor a b) = 0 \<and> take n aa = take n bb" by auto
  have "or res (xor a b) = 0 \<longleftrightarrow> res = 0 \<and> a = b"
    by (auto simp: or_eq_0_iff bit_eq_iff bit_or_iff bit_xor_iff)
  with r show ?case by auto
qed auto

lemma os_memcmp_const_zero:
  "len \<le> length a \<Longrightarrow> len \<le> length b \<Longrightarrow>
   \<exists>r. os_memcmp_const a b len = Ret r \<and> (r = 0 \<longleftrightarrow> take len a = take len b)"
  using memcmp_const_loop_zero [of len a b 0] by (simp add: os_memcmp_const_def)

lemma strlcpy_loop_spec:
  assumes "holds_at src s t" "d + left \<le> length dest" "1 \<le> left"
  shows "strlcpy_loop dest d src s left =
    (if length t + 1 < left
     then Ret (take d dest @ t @ NUL # drop (d + length t + 1) dest, d + length t + 1, s + length t + 1, left - length t - 1)
     else Ret (take d dest @ take (left - 1) t @ drop (d + (left - 1)) dest, d + (left - 1), s + (left - 1), 0))"
  using assms
proof (induction t arbitrary: s d left dest)
  case Nil
  then have "s < length src" "src ! s = NUL" "d < length dest" using holds_at_Nil by auto
  with Nil show ?case
    by (subst strlcpy_loop.simps) (auto simp: rd_def wr_def upd_conv_take_nth_drop)
next
  case (Cons c t)
  have s: "s < length src" "src ! s = c" "c \<noteq> NUL" "holds_at src (Suc s) t"
    using holds_at_Cons [OF Cons.prems(1)] by auto
  show ?case
  proof (cases "left \<le> 1")
    case True
    with Cons.prems show ?thesis by (subst strlcpy_loop.simps) auto
  next
    case False
    have d: "d < length dest" using Cons.prems False by simp
    let ?dest = "dest[d := c]"
    have t: "take (Suc d) ?dest = take d dest @ [c]" "drop (Suc d + k) ?dest = drop (Suc d + k) dest" for k
      using d by (auto simp: take_Suc_conv_app_nth)
    obtain l where l: "left = Suc (Suc l)" using False by (metis One_nat_def Suc_le_D not_less_eq_eq le_SucE less_Suc_eq_le nat.exhaust le0)
    have "strlcpy_loop ?dest (Suc d) src (Suc s) (left - 1) =
      (if length t + 1 < left - 1
       then Ret (take (Suc d) ?dest @ t @ NUL # drop (Suc d + length t + 1) ?dest, Suc d + length t + 1, Suc s + length t + 1, left - 1 - length t - 1)
       else Ret (take (Suc d) ?dest @ take (left - 1 - 1) t @ drop (Suc d + (left - 1 - 1)) ?dest, Suc d + (left - 1 - 1), Suc s + (left - 1 - 1), 0))"
      using Cons.prems False s(4) by (intro Cons.IH) auto
    with s d l show ?thesis
      by (subst strlcpy_loop.simps) (simp add: rd_def wr_def t take_Suc_conv_app_nth)
  qed
qed

lemma os_strlcpy_spec:
  assumes "holds_at src 0 s" "siz \<le> length dest"
  shows "os_strlcpy dest src siz = Ret (length s,
    if siz = 0 then dest
    else take (siz - 1) s @ NUL # drop (min (length s) (siz - 1) + 1) dest)"
proof (cases "siz = 0")
  case True
  then show ?thesis using scan_holds [OF assms(1), of "\<lambda>_. True"] by (simp add: os_strlcpy_def)
next
  case False
  then have "1 \<le> siz" by simp
  note l = strlcpy_loop_spec [OF assms(1), of 0 siz dest] 
  show ?thesis
  proof (cases "length s + 1 < siz")
    case True
    with l assms(2) False show ?thesis by (auto simp: os_strlcpy_def)
  next
    case nfit: False
    have "length (take (siz - 1) s) = siz - 1" using nfit False by auto
    then have "holds_at src (siz - 1) (drop (siz - 1) s)"
      using holds_at_drop [of src 0 "take (siz - 1) s" "drop (siz - 1) s"] assms(1) by (simp only: append_take_drop_id add_0)
    then have "scan (\<lambda>_. True) src (siz - 1) = Ret (length s)"
      using nfit by (subst scan_holds) auto
    moreover obtain k where k: "siz = Suc k" "k \<le> length s" using nfit False by (cases siz) auto
    moreover have "min (length s) k = k" using k by simp
    ultimately show ?thesis using l assms(2) nfit
      by (simp add: os_strlcpy_def wr_def list_update_append upd_conv_take_nth_drop)
  qed
qed

end
