(* ===== verification/WpaCtrl.thy ===== *)
theory WpaCtrl
  imports OsUnix CNum
begin

text \<open>
  The control interface of wpa_supplicant, src/src/wifi/wpa_socket/wpa_ctrl.c as it is built here
  (\<open>CONFIG_CTRL_IFACE_UNIX\<close>): a datagram socket, requests and their replies, unsolicited messages.
  What the socket does is a script: the results of \<open>send\<close>, and what \<open>select\<close> and \<open>recv\<close> see.
\<close>

section \<open>The connection\<close>

text \<open>A busy \<open>send\<close> carries the time that \<open>os_get_reltime\<close> reads after it.\<close>

datatype send_res = SendOk | SendBusy os_reltime | SendErr

text \<open>A datagram, an interrupted or failing \<open>select\<close>, a failing \<open>recv\<close>, ten seconds without data.\<close>

datatype sock_ev = Datagram string | SelEintr | SelErr | RecvErr | SelQuiet

record wpa_ctrl =
  ctrl_local :: string
  ctrl_dest :: string
  sends :: "send_res list"
  sock_in :: "sock_ev list"
  requests :: "string list"

section \<open>Opening and closing\<close>

definition SUN_PATH_SIZE :: nat where "SUN_PATH_SIZE = 108"

definition CONFIG_CTRL_IFACE_CLIENT_DIR :: string where "CONFIG_CTRL_IFACE_CLIENT_DIR = ''/tmp''"
definition CONFIG_CTRL_IFACE_CLIENT_PREFIX :: string where "CONFIG_CTRL_IFACE_CLIENT_PREFIX = ''wpa_ctrl_''"

datatype bind_res = BindOk | BindInUse | BindErr

text \<open>What the system answers, and what was done to it; a successful \<open>bind\<close> creates a socket file.\<close>

record open_env =
  gets_socket :: bool
  binds :: "bind_res list"
  connects :: bool
  pid :: int

datatype sys_ev = Bound string | Unlinked string | Closed

definition client_path :: "string option \<Rightarrow> int \<Rightarrow> int \<Rightarrow> string" where
  "client_path cli_path p counter =
     (let tl = CONFIG_CTRL_IFACE_CLIENT_PREFIX @ show_int p @ ''-'' @ show_int counter in
      case cli_path of
        Some (c # cs) \<Rightarrow> if c = CHR ''/'' then (c # cs) @ ''/'' @ tl else CONFIG_CTRL_IFACE_CLIENT_DIR @ ''/'' @ tl
      | _ \<Rightarrow> CONFIG_CTRL_IFACE_CLIENT_DIR @ ''/'' @ tl)"

text \<open>From the label \<open>try_again\<close>: a name in use is removed and tried once more. A script of results
  that has ended stands for success.\<close>

fun bind_retry :: "bind_res list \<Rightarrow> string \<Rightarrow> nat \<Rightarrow> bool \<times> sys_ev list" where
  "bind_retry [] path tries = (True, [Bound path])"
| "bind_retry (BindOk # r) path tries = (True, [Bound path])"
| "bind_retry (BindErr # r) path tries = (False, [])"
| "bind_retry (BindInUse # r) path tries =
     (if tries < 2 then (case bind_retry r path (tries + 1) of (ok, l) \<Rightarrow> (ok, Unlinked path # l))
      else (False, []))"

text \<open>The result, the static counter, and what was done.\<close>

definition wpa_ctrl_open2 :: "string option \<Rightarrow> string option \<Rightarrow> int \<Rightarrow> open_env
    \<Rightarrow> wpa_ctrl option \<times> int \<times> sys_ev list" where
  "wpa_ctrl_open2 ctrl_path cli_path counter env = (case ctrl_path of
       None \<Rightarrow> (None, counter, [])
     | Some cp \<Rightarrow>
         if \<not> gets_socket env then (None, counter, [])
         else let n = counter + 1; path = client_path cli_path (pid env) n in
           if length path \<ge> SUN_PATH_SIZE then (None, n, [Closed])
           else (case bind_retry (binds env) path 1 of (ok, l) \<Rightarrow>
             if \<not> ok then (None, n, l @ [Closed])
             else let abstract = starts_with cp ''@abstract:'';
                      dest = (if abstract then NUL # take (SUN_PATH_SIZE - 2) (drop 10 cp) else cp) in
               if \<not> abstract \<and> length cp \<ge> SUN_PATH_SIZE then (None, n, l @ [Closed])
               else if \<not> connects env then (None, n, l @ [Closed, Unlinked path])
               else (Some \<lparr>ctrl_local = path, ctrl_dest = dest, sends = [], sock_in = [], requests = []\<rparr>, n, l)))"

definition wpa_ctrl_open :: "string option \<Rightarrow> int \<Rightarrow> open_env \<Rightarrow> wpa_ctrl option \<times> int \<times> sys_ev list" where
  "wpa_ctrl_open ctrl_path counter env = wpa_ctrl_open2 ctrl_path None counter env"

definition wpa_ctrl_close :: "wpa_ctrl option \<Rightarrow> sys_ev list" where
  "wpa_ctrl_close ctrl = (case ctrl of None \<Rightarrow> [] | Some c \<Rightarrow> [Unlinked (ctrl_local c), Closed])"

section \<open>Requests\<close>

text \<open>From the label \<open>retry_send\<close>; \<open>started_at\<close> is zero until the first busy result.\<close>

fun send_retry :: "send_res list \<Rightarrow> os_reltime \<Rightarrow> bool \<times> send_res list" where
  "send_retry [] started_at = (True, [])"
| "send_retry (SendOk # r) started_at = (True, r)"
| "send_retry (SendErr # r) started_at = (False, r)"
| "send_retry (SendBusy n # r) started_at =
     (if rt_sec started_at = 0 then send_retry r n
      else if os_reltime_expired n started_at 5 then (False, r)
      else send_retry r started_at)"

definition is_unsolicited :: "string \<Rightarrow> bool" where
  "is_unsolicited got = (length got > 0 \<and> hd got = CHR ''<'' \<or> length got > 6 \<and> take 7 got = ''IFNAME='')"

text \<open>
  The loop around \<open>select\<close>: \<open>recv\<close> stores at most \<open>reply_len\<close> bytes of the datagram, the rest is
  lost, and no terminator is written. No caller here passes a \<open>msg_cb\<close>.
\<close>

fun await_reply :: "sock_ev list \<Rightarrow> mem \<Rightarrow> nat \<Rightarrow> (int \<times> mem \<times> nat \<times> sock_ev list) outcome" where
  "await_reply [] reply reply_len = Ret (-2, reply, reply_len, [])"
| "await_reply (SelQuiet # r) reply reply_len = Ret (-2, reply, reply_len, r)"
| "await_reply (SelEintr # r) reply reply_len = await_reply r reply reply_len"
| "await_reply (SelErr # r) reply reply_len = Ret (-1, reply, reply_len, r)"
| "await_reply (RecvErr # r) reply reply_len = Ret (-1, reply, reply_len, r)"
| "await_reply (Datagram bs # r) reply reply_len = (let got = take reply_len bs in
     if reply_len > length reply then Fault OutOfBounds
     else let reply' = got @ drop (length got) reply in
       if is_unsolicited got then await_reply r reply' reply_len
       else Ret (0, reply', length got, r))"

definition wpa_ctrl_request :: "wpa_ctrl \<Rightarrow> string \<Rightarrow> mem \<Rightarrow> nat \<Rightarrow> (int \<times> mem \<times> nat \<times> wpa_ctrl) outcome" where
  "wpa_ctrl_request c cmd reply reply_len =
     (case send_retry (sends c) \<lparr>rt_sec = 0, rt_usec = 0\<rparr> of (ok, ss) \<Rightarrow>
        if \<not> ok then Ret (-1, reply, reply_len, c\<lparr>sends := ss\<rparr>)
        else obind (await_reply (sock_in c) reply reply_len) (\<lambda>(ret, reply', len', r).
          Ret (ret, reply', len', c\<lparr>sends := ss, sock_in := r, requests := requests c @ [cmd]\<rparr>)))"

definition wpa_ctrl_attach_helper :: "wpa_ctrl \<Rightarrow> bool \<Rightarrow> (int \<times> wpa_ctrl) outcome" where
  "wpa_ctrl_attach_helper c attach =
     obind (wpa_ctrl_request c (if attach then ''ATTACH'' else ''DETACH'') (replicate 10 NUL) 10)
       (\<lambda>(ret, buf, len, c'). Ret (if ret < 0 then ret
          else if len = 3 \<and> take 3 buf = ''OK'' @ [LF] then 0 else -1, c'))"

definition wpa_ctrl_attach :: "wpa_ctrl \<Rightarrow> (int \<times> wpa_ctrl) outcome" where
  "wpa_ctrl_attach c = wpa_ctrl_attach_helper c True"

definition wpa_ctrl_detach :: "wpa_ctrl \<Rightarrow> (int \<times> wpa_ctrl) outcome" where
  "wpa_ctrl_detach c = wpa_ctrl_attach_helper c False"

section \<open>Events\<close>

text \<open>The socket is non-blocking: without a datagram \<open>recv\<close> fails.\<close>

definition wpa_ctrl_recv :: "wpa_ctrl \<Rightarrow> mem \<Rightarrow> nat \<Rightarrow> (int \<times> mem \<times> nat \<times> wpa_ctrl) outcome" where
  "wpa_ctrl_recv c reply reply_len = (case sock_in c of
       Datagram bs # r \<Rightarrow>
         if reply_len > length reply then Fault OutOfBounds
         else Ret (0, take reply_len bs @ drop (length (take reply_len bs)) reply,
                   length (take reply_len bs), c\<lparr>sock_in := r\<rparr>)
     | _ # r \<Rightarrow> Ret (-1, reply, reply_len, c\<lparr>sock_in := r\<rparr>)
     | [] \<Rightarrow> Ret (-1, reply, reply_len, c))"

text \<open>A failing \<open>select\<close> leaves the descriptor set as it was filled, so it counts as pending.\<close>

definition wpa_ctrl_pending :: "wpa_ctrl \<Rightarrow> bool" where
  "wpa_ctrl_pending c = (case sock_in c of [] \<Rightarrow> False | e # _ \<Rightarrow> e \<noteq> SelQuiet)"

section \<open>What a request gives\<close>

text \<open>Messages of the supplicant that are not a reply, then the reply.\<close>

definition reply_events :: "string list \<Rightarrow> string \<Rightarrow> sock_ev list" where
  "reply_events msgs bs = map (\<lambda>m. Datagram (CHR ''<'' # m)) msgs @ [Datagram bs]"

definition over_prefix :: "string \<Rightarrow> string \<Rightarrow> string" where
  "over_prefix bs m = bs @ drop (length bs) m"

lemma length_over_prefix [simp]: "length bs \<le> length m \<Longrightarrow> length (over_prefix bs m) = length m"
  by (simp add: over_prefix_def)

lemma await_reply_at_once:
  assumes "n \<le> length m" "\<not> is_unsolicited (take n bs)"
  shows "await_reply (Datagram bs # r) m n = Ret (0, over_prefix (take n bs) m, length (take n bs), r)"
  using assms by (simp add: Let_def over_prefix_def)

lemma await_reply_skips:
  assumes "0 < n" "n \<le> length m" "\<not> is_unsolicited (take n bs)"
  shows "\<exists>m'. await_reply (reply_events msgs bs @ r) m n = Ret (0, over_prefix (take n bs) m', length (take n bs), r)
    \<and> length m' = length m \<and> (msgs = [] \<longrightarrow> m' = m)"
  using assms
proof (induction msgs arbitrary: m)
  case Nil
  then show ?case using await_reply_at_once [of n m bs r] by (auto simp: reply_events_def)
next
  case (Cons x xs)
  let ?got = "take n (CHR ''<'' # x)"
  have u: "is_unsolicited ?got" using Cons.prems(1) by (cases n) (auto simp: is_unsolicited_def)
  have l: "length (?got @ drop (length ?got) m) = length m" using Cons.prems(2) by simp
  from Cons.IH [of "?got @ drop (length ?got) m"] Cons.prems u l show ?case
    by (auto simp: reply_events_def Let_def)
qed

text \<open>Whatever the socket does, the wait ends; only a reply length beyond the buffer is a fault.\<close>

lemma await_reply_returns:
  assumes "n \<le> length m"
  shows "\<exists>ret m' n' r. await_reply es m n = Ret (ret, m', n', r) \<and> ret \<in> {0, -1, -2}
    \<and> length m' = length m \<and> n' \<le> n"
  using assms
proof (induction es m n rule: await_reply.induct)
  case (6 bs r reply n)
  let ?got = "take n bs"
  show ?case
  proof (cases "is_unsolicited ?got")
    case True
    have "length (?got @ drop (length ?got) reply) = length reply" using 6(2) by simp
    with 6 True show ?thesis by (simp add: Let_def)
  qed (use 6(2) in \<open>auto simp: Let_def\<close>)
qed auto

text \<open>The times read after busy sends: none is five seconds later than the first one that is not zero.\<close>

definition patient :: "os_reltime list \<Rightarrow> bool" where
  "patient ks = (case dropWhile (\<lambda>k. rt_sec k = 0) ks of
       [] \<Rightarrow> True
     | k0 # later \<Rightarrow> list_all (\<lambda>k. \<not> os_reltime_expired k k0 5) later)"

lemma send_retry_started:
  assumes "rt_sec t \<noteq> 0" "list_all (\<lambda>k. \<not> os_reltime_expired k t 5) ks"
  shows "send_retry (map SendBusy ks @ r) t = send_retry r t"
  using assms(2) by (induction ks) (simp_all add: assms(1))

lemma send_retry_ends:
  assumes "patient ks" "rt_sec t = 0"
  shows "send_retry (map SendBusy ks @ SendErr # r) t = (False, r)"
    "send_retry (map SendBusy ks @ SendOk # r) t = (True, r)"
    "send_retry (map SendBusy ks) t = (True, [])"
    "\<not> patient (ks @ [k]) \<Longrightarrow> send_retry (map SendBusy (ks @ [k]) @ r) t = (False, r)"
  using assms
proof (induction ks arbitrary: t)
  case (Cons k0 ks)
  { case 1 then show ?case using Cons.IH(1) [of k0] send_retry_started [of k0 ks "SendErr # r"]
      by (cases "rt_sec k0 = 0") (simp_all add: patient_def) }
  { case 2 then show ?case using Cons.IH(2) [of k0] send_retry_started [of k0 ks "SendOk # r"]
      by (cases "rt_sec k0 = 0") (simp_all add: patient_def) }
  { case 3 then show ?case using Cons.IH(3) [of k0] send_retry_started [of k0 ks "[]"]
      by (cases "rt_sec k0 = 0") (simp_all add: patient_def) }
  { case 4 then show ?case using Cons.IH(4) [of k0] send_retry_started [of k0 ks "SendBusy k # r"]
      by (cases "rt_sec k0 = 0") (simp_all add: patient_def) }
qed (simp_all add: patient_def split: if_splits)

text \<open>What the wait passes over, and what that leaves in the buffer: each message lies over the one before.\<close>

definition skipped :: "nat \<Rightarrow> sock_ev \<Rightarrow> bool" where
  "skipped n e = (case e of SelEintr \<Rightarrow> True | Datagram bs \<Rightarrow> is_unsolicited (take n bs) | _ \<Rightarrow> False)"

definition noise :: "nat \<Rightarrow> sock_ev list \<Rightarrow> mem \<Rightarrow> mem" where
  "noise n es m = fold (\<lambda>e m. case e of Datagram bs \<Rightarrow> over_prefix (take n bs) m | _ \<Rightarrow> m) es m"

lemma await_reply_passes:
  assumes "n \<le> length m" "list_all (skipped n) es"
  shows "await_reply (es @ q) m n = await_reply q (noise n es m) n
    \<and> length (noise n es m) = length m \<and> drop n (noise n es m) = drop n m"
  using assms
proof (induction es arbitrary: m)
  case (Cons e es)
  show ?case
  proof (cases e)
    case (Datagram bs)
    let ?m = "over_prefix (take n bs) m"
    have "length ?m = length m" "drop n ?m = drop n m"
      using Cons.prems(1) by (auto simp: over_prefix_def min_def)
    moreover have "await_reply (e # es @ q) m n = await_reply (es @ q) ?m n"
      using Cons.prems by (simp add: Datagram skipped_def over_prefix_def Let_def)
    ultimately show ?thesis using Cons by (simp add: Datagram noise_def)
  qed (use Cons in \<open>simp_all add: skipped_def noise_def\<close>)
qed (simp add: noise_def)

text \<open>
  C24: what a request gives, by cause. The socket's script is finite and stands for silence after
  its end, so that the request returns, with 0, -1 or -2, once interrupts and unsolicited messages
  stop; as long as they come it waits. When \<open>send\<close> fails, or is still busy more than five seconds after
  it was first found busy, it fails with -1, with nothing received and the buffer as it was. Once
  sent, the request passes over any interrupts and unsolicited messages, and then: a message is the
  reply, delivered with 0, cut to the length that was asked for; a failing \<open>select\<close> or \<open>recv\<close> gives
  -1; ten seconds of silence give -2. The buffer is given exactly: every message that came lies
  over the first bytes of the one before, the bytes beyond the length that was asked for stay, and
  no terminator is written.
\<close>

theorem wpa_request_reply:
  assumes "n \<le> length m"
  shows "(\<exists>ret m' n' c'. wpa_ctrl_request c cmd m n = Ret (ret, m', n', c') \<and> ret \<in> {0, -1, -2}
      \<and> length m' = length m \<and> n' \<le> n)
    \<and> (patient ks \<and> (sends c = map SendBusy ks @ SendErr # r
          \<or> sends c = map SendBusy (ks @ [k]) @ r \<and> \<not> patient (ks @ [k])) \<longrightarrow>
        wpa_ctrl_request c cmd m n = Ret (-1, m, n, c\<lparr>sends := r\<rparr>))
    \<and> (patient ks \<and> (sends c = map SendBusy ks @ SendOk # r \<or> sends c = map SendBusy ks \<and> r = [])
        \<and> list_all (skipped n) es \<longrightarrow>
        (let m' = noise n es m; sent = (\<lambda>q. c\<lparr>sends := r, sock_in := q, requests := requests c @ [cmd]\<rparr>) in
          length m' = length m \<and> drop n m' = drop n m
        \<and> (sock_in c = es @ Datagram bs # q \<and> \<not> is_unsolicited (take n bs) \<longrightarrow>
            wpa_ctrl_request c cmd m n = Ret (0, over_prefix (take n bs) m', length (take n bs), sent q))
        \<and> (sock_in c = es @ SelErr # q \<or> sock_in c = es @ RecvErr # q \<longrightarrow>
            wpa_ctrl_request c cmd m n = Ret (-1, m', n, sent q))
        \<and> (sock_in c = es @ SelQuiet # q \<or> sock_in c = es \<and> q = [] \<longrightarrow>
            wpa_ctrl_request c cmd m n = Ret (-2, m', n, sent q))))"
proof (intro conjI impI)
  show "\<exists>ret m' n' c'. wpa_ctrl_request c cmd m n = Ret (ret, m', n', c') \<and> ret \<in> {0, -1, -2}
      \<and> length m' = length m \<and> n' \<le> n"
    using await_reply_returns [OF assms, of "sock_in c"]
    by (auto simp: wpa_ctrl_request_def split: prod.splits)
next
  assume "patient ks \<and> (sends c = map SendBusy ks @ SendErr # r
    \<or> sends c = map SendBusy (ks @ [k]) @ r \<and> \<not> patient (ks @ [k]))"
  then have "send_retry (sends c) \<lparr>rt_sec = 0, rt_usec = 0\<rparr> = (False, r)"
    using send_retry_ends(1,4) [of ks "\<lparr>rt_sec = 0, rt_usec = 0\<rparr>"] by auto
  then show "wpa_ctrl_request c cmd m n = Ret (-1, m, n, c\<lparr>sends := r\<rparr>)" by (simp add: wpa_ctrl_request_def)
next
  assume s: "patient ks \<and> (sends c = map SendBusy ks @ SendOk # r \<or> sends c = map SendBusy ks \<and> r = [])
    \<and> list_all (skipped n) es"
  then have "send_retry (sends c) \<lparr>rt_sec = 0, rt_usec = 0\<rparr> = (True, r)"
    using send_retry_ends(2,3) [of ks "\<lparr>rt_sec = 0, rt_usec = 0\<rparr>"] by auto
  moreover note pass = await_reply_passes [OF assms conjunct2 [OF conjunct2 [OF s]]]
  moreover have "await_reply (Datagram bs # q) (noise n es m) n =
      Ret (0, over_prefix (take n bs) (noise n es m), length (take n bs), q)" if "\<not> is_unsolicited (take n bs)"
    using pass assms that by (intro await_reply_at_once) simp_all
  ultimately show "let m' = noise n es m; sent = (\<lambda>q. c\<lparr>sends := r, sock_in := q, requests := requests c @ [cmd]\<rparr>) in
          length m' = length m \<and> drop n m' = drop n m
        \<and> (sock_in c = es @ Datagram bs # q \<and> \<not> is_unsolicited (take n bs) \<longrightarrow>
            wpa_ctrl_request c cmd m n = Ret (0, over_prefix (take n bs) m', length (take n bs), sent q))
        \<and> (sock_in c = es @ SelErr # q \<or> sock_in c = es @ RecvErr # q \<longrightarrow>
            wpa_ctrl_request c cmd m n = Ret (-1, m', n, sent q))
        \<and> (sock_in c = es @ SelQuiet # q \<or> sock_in c = es \<and> q = [] \<longrightarrow>
            wpa_ctrl_request c cmd m n = Ret (-2, m', n, sent q))"
    using pass [of "[]"] by (auto simp: wpa_ctrl_request_def Let_def)
qed

definition idle_ctrl :: "sock_ev list \<Rightarrow> wpa_ctrl" where
  "idle_ctrl es = \<lparr>ctrl_local = ''/tmp/wpa_ctrl_1-1'', ctrl_dest = ''/var/run/wpa_supplicant/wlan0'', sends = [],
     sock_in = es, requests = []\<rparr>"

text \<open>A connection whose \<open>send\<close> is busy at the given seconds, and what its socket then sees.\<close>

definition busy_ctrl :: "int list \<Rightarrow> send_res list \<Rightarrow> sock_ev list \<Rightarrow> wpa_ctrl" where
  "busy_ctrl ts r es =
     (idle_ctrl es)\<lparr>sends := map (\<lambda>t. SendBusy \<lparr>rt_sec = t, rt_usec = 0\<rparr>) ts @ r\<rparr>"

text \<open>A send busy for two seconds, then a message, an interrupt and a reply, or a failing \<open>recv\<close>; and
  a send that is busy for six seconds.\<close>

theorem wpa_request_reply_witness:
  "wpa_ctrl_request (busy_ctrl [7, 9] [SendOk] [Datagram ''<3>X'', SelEintr, Datagram ''FAIL'']) ''PING'' ''abcdef'' 2
      = Ret (0, ''FAcdef'', 2, (busy_ctrl [] [] [])\<lparr>requests := [''PING'']\<rparr>)
   \<and> wpa_ctrl_request (busy_ctrl [7, 9] [SendOk] [Datagram ''<3>X'', SelEintr, RecvErr]) ''PING'' ''abcdef'' 2
      = Ret (-1, ''<3cdef'', 2, (busy_ctrl [] [] [])\<lparr>requests := [''PING'']\<rparr>)
   \<and> wpa_ctrl_request (busy_ctrl [7, 13] [SendOk] [Datagram ''FAIL'']) ''PING'' ''abcdef'' 2
      = Ret (-1, ''abcdef'', 2, busy_ctrl [] [SendOk] [Datagram ''FAIL''])"
proof -
  let ?t = "\<lambda>s. \<lparr>rt_sec = s, rt_usec = 0\<rparr>"
  have calm: "patient (map ?t [7, 9])" "patient (map ?t [7])" and late: "\<not> patient (map ?t [7] @ [?t 13])"
    by (simp_all add: patient_def os_reltime_expired_def os_reltime_sub_def os_reltime_before_def)
  have skip: "list_all (skipped 2) [Datagram ''<3>X'', SelEintr]" by (simp add: skipped_def is_unsolicited_def)
  note req = wpa_request_reply [of 2 "''abcdef''" _ "''PING''"]
  have "wpa_ctrl_request (busy_ctrl [7, 9] [SendOk] [Datagram ''<3>X'', SelEintr, Datagram ''FAIL'']) ''PING'' ''abcdef'' 2
      = Ret (0, ''FAcdef'', 2, (busy_ctrl [] [] [])\<lparr>requests := [''PING'']\<rparr>)"
    using req [of "busy_ctrl [7, 9] [SendOk] [Datagram ''<3>X'', SelEintr, Datagram ''FAIL'']" "map ?t [7, 9]"
        "[]" _ "[Datagram ''<3>X'', SelEintr]" "''FAIL''" "[]"] calm skip
    by (simp add: busy_ctrl_def idle_ctrl_def noise_def over_prefix_def is_unsolicited_def Let_def)
  moreover have "wpa_ctrl_request (busy_ctrl [7, 9] [SendOk] [Datagram ''<3>X'', SelEintr, RecvErr]) ''PING'' ''abcdef'' 2
      = Ret (-1, ''<3cdef'', 2, (busy_ctrl [] [] [])\<lparr>requests := [''PING'']\<rparr>)"
    using req [of "busy_ctrl [7, 9] [SendOk] [Datagram ''<3>X'', SelEintr, RecvErr]" "map ?t [7, 9]"
        "[]" _ "[Datagram ''<3>X'', SelEintr]" _ "[]"] calm skip
    by (simp add: busy_ctrl_def idle_ctrl_def noise_def over_prefix_def Let_def)
  moreover have "wpa_ctrl_request (busy_ctrl [7, 13] [SendOk] [Datagram ''FAIL'']) ''PING'' ''abcdef'' 2
      = Ret (-1, ''abcdef'', 2, busy_ctrl [] [SendOk] [Datagram ''FAIL''])"
    using req [of "busy_ctrl [7, 13] [SendOk] [Datagram ''FAIL'']" "map ?t [7]" "[SendOk]" "?t 13"] calm late
    by (simp add: busy_ctrl_def idle_ctrl_def)
  ultimately show ?thesis by blast
qed

section \<open>What opening leaves behind\<close>

text \<open>The socket files that exist after a series of events.\<close>

fun files_after :: "sys_ev list \<Rightarrow> string set \<Rightarrow> string set" where
  "files_after [] fs = fs"
| "files_after (Bound p # l) fs = files_after l (insert p fs)"
| "files_after (Unlinked p # l) fs = files_after l (fs - {p})"
| "files_after (Closed # l) fs = files_after l fs"

lemma files_after_append: "files_after (a @ b) fs = files_after b (files_after a fs)"
  by (induction a fs rule: files_after.induct) auto

lemma bind_retry_files:
  "bind_retry bs p t = (ok, l) \<Longrightarrow> files_after l fs - {p} = fs - {p} \<and> (ok \<longrightarrow> p \<in> files_after l fs)"
proof (induction bs p t arbitrary: l fs rule: bind_retry.induct)
  case (4 r path tries)
  show ?case
  proof (cases "tries < 2")
    case True
    then obtain l' where b: "bind_retry r path (tries + 1) = (ok, l')" "l = Unlinked path # l'"
      using 4(2) by (cases "bind_retry r path (tries + 1)") auto
    from 4(1) [OF True b(1), of "fs - {path}"] b(2) show ?thesis by simp
  qed (use 4(2) in simp)
qed auto

text \<open>
  Opening either connects, with its own socket file in place, or fails with the socket closed;
  no other file is touched. A failure to connect removes the socket file again, but a control path
  too long for the address leaves it behind.
\<close>

theorem open2_files:
  assumes "wpa_ctrl_open2 (Some cp) cli n env = (res, n', l)" "gets_socket env"
  defines "p \<equiv> client_path cli (pid env) (n + 1)"
  shows "n' = n + 1 \<and> files_after l fs - {p} = fs - {p}
    \<and> (case res of Some c \<Rightarrow> ctrl_local c = p \<and> p \<in> files_after l fs \<and> length p < SUN_PATH_SIZE
        | None \<Rightarrow> Closed \<in> set l)
    \<and> (length p < SUN_PATH_SIZE \<and> binds env = [] \<and> \<not> starts_with cp ''@abstract:'' \<longrightarrow>
        (length cp \<ge> SUN_PATH_SIZE \<longrightarrow> res = None \<and> p \<in> files_after l fs)
      \<and> (length cp < SUN_PATH_SIZE \<and> \<not> connects env \<longrightarrow> res = None \<and> p \<notin> files_after l fs)
      \<and> (length cp < SUN_PATH_SIZE \<and> connects env \<longrightarrow> res \<noteq> None))"
proof (cases "length p \<ge> SUN_PATH_SIZE")
  case True
  then have "(res, n', l) = (None, n + 1, [Closed])"
    using assms(1,2) by (simp add: wpa_ctrl_open2_def p_def)
  with True show ?thesis by simp
next
  case False
  obtain ok bl where b: "bind_retry (binds env) p 1 = (ok, bl)" by (cases "bind_retry (binds env) p 1")
  have f: "files_after bl fs - {p} = fs - {p}" "ok \<longrightarrow> p \<in> files_after bl fs"
    using bind_retry_files [OF b] by auto
  have e: "binds env = [] \<longrightarrow> ok \<and> bl = [Bound p]" using b by auto
  let ?long = "\<not> starts_with cp ''@abstract:'' \<and> length cp \<ge> SUN_PATH_SIZE"
  let ?c = "\<lparr>ctrl_local = p, ctrl_dest = if starts_with cp ''@abstract:'' then NUL # take (SUN_PATH_SIZE - 2) (drop 10 cp) else cp,
    sends = [], sock_in = [], requests = []\<rparr>"
  have "wpa_ctrl_open2 (Some cp) cli n env = (if \<not> ok then (None, n + 1, bl @ [Closed]) else if ?long then (None, n + 1, bl @ [Closed])
    else if \<not> connects env then (None, n + 1, bl @ [Closed, Unlinked p]) else (Some ?c, n + 1, bl))"
    using assms(2) False b by (simp add: wpa_ctrl_open2_def Let_def p_def)
  note eq = this [unfolded assms(1)]
  consider "\<not> ok" | "ok" "?long" | "ok" "\<not> ?long" "\<not> connects env" | "ok" "\<not> ?long" "connects env" by blast
  then show ?thesis
  proof cases
    case 1
    with eq f e show ?thesis by (auto simp: files_after_append not_le)
  next
    case 2
    with eq f e show ?thesis by (auto simp: files_after_append not_le)
  next
    case 3
    with eq f e show ?thesis by (auto simp: files_after_append not_le)
  next
    case 4
    with eq f e False show ?thesis by (auto simp: files_after_append not_le)
  qed
qed

end
