(* ===== verification/WpaBytes.thy ===== *)
theory WpaBytes
  imports CMem "HOL-Library.Word"
begin

text \<open>
  The byte order helpers and Ethernet address tests of src/src/wifi/wpa_socket/common.h. A pointer
  to bytes is the list of the bytes behind it; every function checks that there are enough.
\<close>

unbundle bit_operations_syntax

section \<open>Unaligned access\<close>

definition get_bytes :: "nat \<Rightarrow> u8 list \<Rightarrow> (u8 list \<Rightarrow> 'a) \<Rightarrow> 'a outcome" where
  "get_bytes n a f = (if n \<le> length a then Ret (f a) else Fault OutOfBounds)"

text \<open>Writing the first bytes leaves the others alone.\<close>

definition put_bytes :: "u8 list \<Rightarrow> u8 list \<Rightarrow> u8 list outcome" where
  "put_bytes bs a = (if length bs \<le> length a then Ret (bs @ drop (length bs) a) else Fault OutOfBounds)"

definition WPA_GET_BE16 :: "u8 list \<Rightarrow> 16 word outcome" where
  "WPA_GET_BE16 a = get_bytes 2 a (\<lambda>a. push_bit 8 (ucast (a ! 0)) OR ucast (a ! 1))"

definition WPA_PUT_BE16 :: "16 word \<Rightarrow> u8 list \<Rightarrow> u8 list outcome" where
  "WPA_PUT_BE16 v = put_bytes [ucast (drop_bit 8 v), ucast (v AND 0xff)]"

definition WPA_GET_LE16 :: "u8 list \<Rightarrow> 16 word outcome" where
  "WPA_GET_LE16 a = get_bytes 2 a (\<lambda>a. push_bit 8 (ucast (a ! 1)) OR ucast (a ! 0))"

definition WPA_PUT_LE16 :: "16 word \<Rightarrow> u8 list \<Rightarrow> u8 list outcome" where
  "WPA_PUT_LE16 v = put_bytes [ucast (v AND 0xff), ucast (drop_bit 8 v)]"

definition WPA_GET_BE24 :: "u8 list \<Rightarrow> 32 word outcome" where
  "WPA_GET_BE24 a = get_bytes 3 a (\<lambda>a. push_bit 16 (ucast (a ! 0)) OR push_bit 8 (ucast (a ! 1)) OR ucast (a ! 2))"

definition WPA_PUT_BE24 :: "32 word \<Rightarrow> u8 list \<Rightarrow> u8 list outcome" where
  "WPA_PUT_BE24 v = put_bytes [ucast (drop_bit 16 v AND 0xff), ucast (drop_bit 8 v AND 0xff), ucast (v AND 0xff)]"

definition WPA_GET_BE32 :: "u8 list \<Rightarrow> 32 word outcome" where
  "WPA_GET_BE32 a = get_bytes 4 a (\<lambda>a. push_bit 24 (ucast (a ! 0)) OR push_bit 16 (ucast (a ! 1))
     OR push_bit 8 (ucast (a ! 2)) OR ucast (a ! 3))"

definition WPA_PUT_BE32 :: "32 word \<Rightarrow> u8 list \<Rightarrow> u8 list outcome" where
  "WPA_PUT_BE32 v = put_bytes [ucast (drop_bit 24 v AND 0xff), ucast (drop_bit 16 v AND 0xff),
     ucast (drop_bit 8 v AND 0xff), ucast (v AND 0xff)]"

definition WPA_GET_LE32 :: "u8 list \<Rightarrow> 32 word outcome" where
  "WPA_GET_LE32 a = get_bytes 4 a (\<lambda>a. push_bit 24 (ucast (a ! 3)) OR push_bit 16 (ucast (a ! 2))
     OR push_bit 8 (ucast (a ! 1)) OR ucast (a ! 0))"

definition WPA_PUT_LE32 :: "32 word \<Rightarrow> u8 list \<Rightarrow> u8 list outcome" where
  "WPA_PUT_LE32 v = put_bytes [ucast (v AND 0xff), ucast (drop_bit 8 v AND 0xff),
     ucast (drop_bit 16 v AND 0xff), ucast (drop_bit 24 v AND 0xff)]"

definition WPA_GET_BE64 :: "u8 list \<Rightarrow> 64 word outcome" where
  "WPA_GET_BE64 a = get_bytes 8 a (\<lambda>a. push_bit 56 (ucast (a ! 0)) OR push_bit 48 (ucast (a ! 1))
     OR push_bit 40 (ucast (a ! 2)) OR push_bit 32 (ucast (a ! 3)) OR push_bit 24 (ucast (a ! 4))
     OR push_bit 16 (ucast (a ! 5)) OR push_bit 8 (ucast (a ! 6)) OR ucast (a ! 7))"

definition WPA_PUT_BE64 :: "64 word \<Rightarrow> u8 list \<Rightarrow> u8 list outcome" where
  "WPA_PUT_BE64 v = put_bytes [ucast (drop_bit 56 v), ucast (drop_bit 48 v), ucast (drop_bit 40 v),
     ucast (drop_bit 32 v), ucast (drop_bit 24 v), ucast (drop_bit 16 v), ucast (drop_bit 8 v), ucast (v AND 0xff)]"

definition WPA_GET_LE64 :: "u8 list \<Rightarrow> 64 word outcome" where
  "WPA_GET_LE64 a = get_bytes 8 a (\<lambda>a. push_bit 56 (ucast (a ! 7)) OR push_bit 48 (ucast (a ! 6))
     OR push_bit 40 (ucast (a ! 5)) OR push_bit 32 (ucast (a ! 4)) OR push_bit 24 (ucast (a ! 3))
     OR push_bit 16 (ucast (a ! 2)) OR push_bit 8 (ucast (a ! 1)) OR ucast (a ! 0))"

definition WPA_PUT_LE64 :: "64 word \<Rightarrow> u8 list \<Rightarrow> u8 list outcome" where
  "WPA_PUT_LE64 v = put_bytes [ucast (v AND 0xff), ucast (drop_bit 8 v), ucast (drop_bit 16 v),
     ucast (drop_bit 24 v), ucast (drop_bit 32 v), ucast (drop_bit 40 v), ucast (drop_bit 48 v), ucast (drop_bit 56 v)]"

lemmas wpa_get_defs = WPA_GET_BE16_def WPA_GET_LE16_def WPA_GET_BE24_def WPA_GET_BE32_def WPA_GET_LE32_def
  WPA_GET_BE64_def WPA_GET_LE64_def get_bytes_def

lemmas wpa_put_defs = WPA_PUT_BE16_def WPA_PUT_LE16_def WPA_PUT_BE24_def WPA_PUT_BE32_def WPA_PUT_LE32_def
  WPA_PUT_BE64_def WPA_PUT_LE64_def put_bytes_def

section \<open>Ethernet addresses\<close>

definition is_zero_ether_addr :: "u8 list \<Rightarrow> bool outcome" where
  "is_zero_ether_addr a = get_bytes 6 a (\<lambda>a. (a ! 0 OR a ! 1 OR a ! 2 OR a ! 3 OR a ! 4 OR a ! 5) = 0)"

definition is_broadcast_ether_addr :: "u8 list \<Rightarrow> bool outcome" where
  "is_broadcast_ether_addr a = get_bytes 6 a (\<lambda>a. (a ! 0 AND a ! 1 AND a ! 2 AND a ! 3 AND a ! 4 AND a ! 5) = 0xff)"

definition is_multicast_ether_addr :: "u8 list \<Rightarrow> bool outcome" where
  "is_multicast_ether_addr a = get_bytes 1 a (\<lambda>a. (a ! 0 AND 1) \<noteq> 0)"

section \<open>Round trips\<close>

lemma and_ff: "(ucast (x AND 0xff) :: u8) = ucast (x :: 'a::len word)"
proof -
  have "(0xff :: 'a word) = mask 8" by (simp add: mask_eq_exp_minus_1)
  then have "x AND 0xff = take_bit 8 x" by (simp only: take_bit_eq_mask)
  then show ?thesis
    by (intro bit_word_eqI) (auto simp: bit_simps dest: bit_imp_le_length)
qed

lemma byte_bit:
  "bit (push_bit k (ucast (ucast (drop_bit k v) :: u8)) :: 'a word) n \<longleftrightarrow> k \<le> n \<and> n < k + 8 \<and> bit v n"
  for v :: "'a::len word"
  using bit_imp_le_length [of v n] by (auto simp: bit_simps)

lemma byte_bit0:
  "bit (ucast (ucast v :: u8) :: 'a word) n \<longleftrightarrow> n < 8 \<and> bit v n"
  for v :: "'a::len word"
  using bit_imp_le_length [of v n] by (auto simp: bit_simps)

lemma join16: "push_bit 8 (ucast (ucast (drop_bit 8 v) :: u8)) OR ucast (ucast v :: u8) = (v :: 16 word)" (is "?l = v")
proof (rule bit_word_eqI)
  fix n assume "n < LENGTH(16)"
  then have "n < 16" by simp
  then show "bit ?l n = bit v n" by (auto simp: bit_or_iff byte_bit byte_bit0)
qed

lemma join32: "push_bit 24 (ucast (ucast (drop_bit 24 v) :: u8)) OR push_bit 16 (ucast (ucast (drop_bit 16 v) :: u8))
   OR push_bit 8 (ucast (ucast (drop_bit 8 v) :: u8)) OR ucast (ucast v :: u8) = (v :: 32 word)" (is "?l = v")
proof (rule bit_word_eqI)
  fix n assume "n < LENGTH(32)"
  then have "n < 32" by simp
  then show "bit ?l n = bit v n" by (auto simp: bit_or_iff byte_bit byte_bit0)
qed

lemma join64: "push_bit 56 (ucast (ucast (drop_bit 56 v) :: u8)) OR push_bit 48 (ucast (ucast (drop_bit 48 v) :: u8))
   OR push_bit 40 (ucast (ucast (drop_bit 40 v) :: u8)) OR push_bit 32 (ucast (ucast (drop_bit 32 v) :: u8))
   OR push_bit 24 (ucast (ucast (drop_bit 24 v) :: u8)) OR push_bit 16 (ucast (ucast (drop_bit 16 v) :: u8))
   OR push_bit 8 (ucast (ucast (drop_bit 8 v) :: u8)) OR ucast (ucast v :: u8) = (v :: 64 word)" (is "?l = v")
proof (rule bit_word_eqI)
  fix n assume "n < LENGTH(64)"
  then have "n < 64" by simp
  then show "bit ?l n = bit v n" by (simp only: bit_or_iff byte_bit byte_bit0) (auto)
qed

lemma join24: "push_bit 16 (ucast (ucast (drop_bit 16 v) :: u8)) OR push_bit 8 (ucast (ucast (drop_bit 8 v) :: u8))
   OR ucast (ucast v :: u8) = take_bit 24 (v :: 32 word)" (is "?l = _")
proof (rule bit_word_eqI)
  fix n assume "n < LENGTH(32)"
  then have "n < 32" by simp
  then show "bit ?l n = bit (take_bit 24 v) n" by (auto simp: bit_or_iff bit_take_bit_iff byte_bit byte_bit0)
qed

text \<open>
  A value written with one of the PUT helpers is read back by the GET helper of the same width and
  order (24 bits of it for the 24-bit pair), and the bytes behind it stay as they were.
\<close>

lemma wpa_put_get_BE24:
  "3 \<le> length a \<Longrightarrow> \<exists>b. WPA_PUT_BE24 v a = Ret b \<and> WPA_GET_BE24 b = Ret (take_bit 24 v) \<and> drop 3 b = drop 3 a"
  by (simp add: wpa_put_defs wpa_get_defs and_ff join24 numeral_3_eq_3)

theorem wpa_put_get:
  assumes "8 \<le> length a"
  shows "(\<exists>b. WPA_PUT_BE16 v16 a = Ret b \<and> WPA_GET_BE16 b = Ret v16 \<and> drop 2 b = drop 2 a)
    \<and> (\<exists>b. WPA_PUT_LE16 v16 a = Ret b \<and> WPA_GET_LE16 b = Ret v16 \<and> drop 2 b = drop 2 a)
    \<and> (\<exists>b. WPA_PUT_BE32 v32 a = Ret b \<and> WPA_GET_BE32 b = Ret v32 \<and> drop 4 b = drop 4 a)
    \<and> (\<exists>b. WPA_PUT_LE32 v32 a = Ret b \<and> WPA_GET_LE32 b = Ret v32 \<and> drop 4 b = drop 4 a)
    \<and> (\<exists>b. WPA_PUT_BE64 v64 a = Ret b \<and> WPA_GET_BE64 b = Ret v64 \<and> drop 8 b = drop 8 a)
    \<and> (\<exists>b. WPA_PUT_LE64 v64 a = Ret b \<and> WPA_GET_LE64 b = Ret v64 \<and> drop 8 b = drop 8 a)"
  using assms by (simp add: wpa_put_defs wpa_get_defs and_ff join16 join32 join64 numeral_2_eq_2 numeral_3_eq_3
      flip: Suc_eq_plus1 drop_drop) (simp add: eval_nat_numeral)

text \<open>The three address tests say what their names promise.\<close>

lemma ether_addr_tests:
  assumes "length a = 6"
  shows "is_zero_ether_addr a = Ret (a = replicate 6 0)"
    and "is_broadcast_ether_addr a = Ret (a = replicate 6 0xff)"
    and "is_multicast_ether_addr a = Ret (odd (hd a))"
proof -
  obtain x0 x1 x2 x3 x4 x5 where a: "a = [x0, x1, x2, x3, x4, x5]"
    using assms by (auto simp: length_Suc_conv eval_nat_numeral)
  show "is_zero_ether_addr a = Ret (a = replicate 6 0)"
    by (simp add: a is_zero_ether_addr_def get_bytes_def or_eq_0_iff eval_nat_numeral)
  have ff: "(x :: u8) AND y = 0xff \<longleftrightarrow> x = 0xff \<and> y = 0xff" for x y
  proof
    assume h: "x AND y = 0xff"
    have m: "(0xff :: u8) = - 1" by simp
    have "bit x n \<and> bit y n" if "n < 8" for n
    proof -
      have "bit (x AND y) n" unfolding h m using that by simp
      then show ?thesis by (simp add: bit_and_iff)
    qed
    then show "x = 0xff \<and> y = 0xff" unfolding m by (auto intro!: bit_word_eqI)
  qed simp
  show "is_broadcast_ether_addr a = Ret (a = replicate 6 0xff)"
    by (simp add: a is_broadcast_ether_addr_def get_bytes_def ff eval_nat_numeral)
  show "is_multicast_ether_addr a = Ret (odd (hd a))"
    by (simp add: a is_multicast_ether_addr_def get_bytes_def and_one_eq odd_iff_mod_2_eq_one)
qed

end
