(* ===== verification/CStdio.thy ===== *)
theory CStdio
  imports Prelude
begin

text \<open>
  Reading the output of a command: \<open>fgets\<close> of the C library and the loop of the sources around it,
  with the lemma that the result is a prefix of the output that fits the buffer.
\<close>

text \<open>\<open>fgets(buf, n, f)\<close>: at most \<open>n - 1\<close> characters, up to the first newline.\<close>

fun take_line :: "string \<Rightarrow> string" where
  "take_line [] = []"
| "take_line (c # s) = (if c = LF then [c] else c # take_line s)"

definition fgets :: "nat \<Rightarrow> string \<Rightarrow> string" where
  "fgets n f = take_line (take (n - 1) f)"

lemma take_line_prefix: "\<exists>r. s = take_line s @ r"
  by (induction s) auto

lemma fgets_prefix: "\<exists>r. f = fgets n f @ r"
proof -
  obtain r where "take (n - 1) f = fgets n f @ r" using take_line_prefix by (metis fgets_def)
  then have "f = fgets n f @ r @ drop (n - 1) f" by (metis append.assoc append_take_drop_id)
  then show ?thesis by blast
qed

lemma fgets_len: "length (fgets n f) \<le> n - 1"
proof -
  obtain r where "take (n - 1) f = fgets n f @ r" using take_line_prefix by (metis fgets_def)
  then have "length (fgets n f) \<le> length (take (n - 1) f)" by (metis length_append le_add1)
  then show ?thesis by simp
qed

lemma fgets_Nil: "fgets n f = [] \<longleftrightarrow> n \<le> 1 \<or> f = []"
  by (cases f; cases "n - 1") (auto simp: fgets_def)

text \<open>
  The loop that both radios run around it, in \<open>modem_hal_run_sys_cmd\<close> and
  \<open>wifi_hal_run_sys_cmd\<close>: what it appends to the buffer.
\<close>

function read_output :: "nat \<Rightarrow> string \<Rightarrow> string \<Rightarrow> string" where
  "read_output sz f acc =
     (let resp_buf_bytes = (if sz \<ge> 128 then 128 else sz - 1);
          line = fgets resp_buf_bytes f; s = arr_str line
      in if s = [] then acc else read_output (sz - length s) (drop (length line) f) (acc @ s))"
  by pat_completeness auto
termination
proof (relation "measure (\<lambda>(sz, f, acc). length f)", goal_cases)
  case (2 sz f acc n line s)
  then have l: "line \<noteq> []" by (auto simp: arr_str_def)
  have "f \<noteq> []" using l fgets_Nil [of n f] 2(2) by blast
  with l show ?case by (cases f; cases line) auto
qed simp

declare read_output.simps [simp del]

lemma read_output_part:
  "NUL \<notin> set f \<Longrightarrow> 0 < sz \<Longrightarrow> \<exists>r t. read_output sz f acc = acc @ r \<and> f = r @ t \<and> length r < sz
     \<and> (length f + 2 \<le> sz \<longrightarrow> t = [])"
proof (induction sz f acc rule: read_output.induct)
  case (1 sz f acc)
  define n where "n = (if sz \<ge> 128 then 128 else sz - 1)"
  define line where "line = fgets n f"
  obtain r0 where f: "f = line @ r0" using fgets_prefix [of f n] by (auto simp: line_def)
  have s: "arr_str line = line" using 1(2) f by (auto simp: arr_str_def intro: takeWhile_all)
  have len: "length line < sz" using fgets_len [of n f] 1(3) by (auto simp: line_def n_def split: if_splits)
  have R: "read_output sz f acc = (if line = [] then acc
      else read_output (sz - length line) (drop (length line) f) (acc @ line))"
    by (subst read_output.simps) (simp only: Let_def s n_def [symmetric] line_def [symmetric])
  show ?case
  proof (cases "line = []")
    case True
    then have "n \<le> 1 \<or> f = []" using fgets_Nil [of n f] by (simp add: line_def)
    then have "length f + 2 \<le> sz \<longrightarrow> f = []" by (cases f) (auto simp: n_def split: if_splits)
    then show ?thesis using R True 1(3) by (intro exI [of _ "[]"] exI [of _ f]) simp
  next
    case False
    have "NUL \<notin> set (drop (length line) f)" "0 < sz - length line"
      using 1(2) f len by auto
    from 1(1) [OF n_def line_def s [symmetric] False this] obtain r t where
      "read_output (sz - length line) (drop (length line) f) (acc @ line) = (acc @ line) @ r"
      "r0 = r @ t" "length r < sz - length line" "length r0 + 2 \<le> sz - length line \<longrightarrow> t = []"
      using f by auto
    then show ?thesis using R False f by (intro exI [of _ "line @ r"] exI [of _ t]) auto
  qed
qed

end
