(* ===== verification/WifiTypes.thy ===== *)
theory WifiTypes
  imports RadioYaml WpaCtrl WpaBytes CStdio "HOL-Library.Signed_Division"
begin

text \<open>
  The types and the pure helpers of the WiFi HAL: the enumerations and the \<open>wifi_softc\<close> of
  src/src/wifi/wifi_hal.h, the netlink messages that the HAL exchanges, and from
  src/src/wifi/wifi_hal_main.cpp the channel numbers, the MAC address text and the coverage class.
  A fixed array with one element per radio is a list; the buffers inside it that are written by
  \<open>snprintf\<close> only are the strings they hold.
\<close>

section \<open>States, events, drivers\<close>

datatype wifi_state = UNKNOWN_STATE | INIT_STATE | IF_DOWN_STATE | IF_INIT_STAGE_1 | IF_UP_STATE
  | ASSOCIATED_STATE | CONNECTED_STATE | DISCONNECTED_STATE | SHUTDOWN_STATE | LAST_STATE

definition wifi_state_code :: "wifi_state \<Rightarrow> int" where
  "wifi_state_code s = (case s of UNKNOWN_STATE \<Rightarrow> -2 | INIT_STATE \<Rightarrow> -1 | IF_DOWN_STATE \<Rightarrow> 0 | IF_INIT_STAGE_1 \<Rightarrow> 1
     | IF_UP_STATE \<Rightarrow> 2 | ASSOCIATED_STATE \<Rightarrow> 3 | CONNECTED_STATE \<Rightarrow> 4 | DISCONNECTED_STATE \<Rightarrow> 5 | SHUTDOWN_STATE \<Rightarrow> 6
     | LAST_STATE \<Rightarrow> 7)"

text \<open>The states are compared as C compares the constants.\<close>

lemma wifi_state_code_inj: "wifi_state_code s = wifi_state_code t \<longleftrightarrow> s = t"
  by (cases s; cases t) (simp_all add: wifi_state_code_def)

instantiation wifi_state :: linorder
begin

definition less_eq_wifi_state :: "wifi_state \<Rightarrow> wifi_state \<Rightarrow> bool" where
  "less_eq_wifi_state s t = (wifi_state_code s \<le> wifi_state_code t)"

definition less_wifi_state :: "wifi_state \<Rightarrow> wifi_state \<Rightarrow> bool" where
  "less_wifi_state s t = (wifi_state_code s < wifi_state_code t)"

instance
  by standard (auto simp: less_eq_wifi_state_def less_wifi_state_def wifi_state_code_inj)

end

datatype wifi_SystemEvent = NO_EVENT | STARTUP_EVENT | STARTUP_STAGE_2_EVENT | AP_ENABLED_EVENT
  | MESH_GROUP_STARTED_EVENT | DISCONNECTED_EVENT | CONNECTED_EVENT | TERMINATE_EVENT | LAST_EVENT

datatype wifi_driver_version = WIFI_DRIVER_ATH9K | WIFI_DRIVER_ATH10K | WIFI_DRIVER_ATH11K
  | WIFI_DRIVER_BRCM_FMAC | WIFI_DRIVER_VERSION_MAX

section \<open>Netlink\<close>

text \<open>
  What libnl delivers while the HAL waits: an interface, a station, the end of a dump, an
  acknowledgement, an error message. The HAL registers a callback for each kind but the last, so
  an error runs none of its code. The attributes that are read are there or not; a nested rate is
  there (None: it does not parse) or not, and holds a bit rate or not. The kernel sends the index of
  an interface with its name, and with every station.
\<close>

record if_msg =
  im_ifname :: "string option"
  im_ifindex :: nat
  im_wiphy :: "nat option"

record sta_msg =
  sm_ifindex :: nat
  sm_info :: "bool option"
  sm_signal :: "nat option"
  sm_tx :: "nat option option option"
  sm_rx :: "nat option option option"

datatype nl_ev = NlInterface if_msg | NlStation sta_msg | NlFinish | NlAck | NlError

text \<open>What becomes of a request: sent, refused by \<open>nl_send_auto\<close>, or no memory for the message.\<close>

datatype nl_res = NlSent | NlRefused | NlNoMemory

text \<open>The requests, with the attributes that the HAL puts into them.\<close>

datatype nl_req = GetInterface | GetStation int | SetCoverage int int | SetTxPower int int
  | ReqSetReg string | SetMeshForwarding int int | SwitchChannel int nat nat | TxFrame int "u8 list"

section \<open>The state\<close>

text \<open>The descriptor \<open>fd\<close> that is stored beside the connections is never read.\<close>

record wpa_ctrl_ctx =
  wx_ctrl :: "wpa_ctrl option"
  wx_monitor :: "wpa_ctrl option"
  wx_mesh_ctrl :: "wpa_ctrl option"

text \<open>What ends a \<open>poll\<close> without a timeout: input on stdin, a datagram on the monitor of a radio, an
  error.\<close>

datatype poll_ev = PollStdin | PollMsg nat string | PollErr

text \<open>
  \<open>wifi_softc\<close> with the configurations of the context, and the world around it: the netlink
  messages that arrive and the requests that were sent, the files and directories, the commands,
  the answers of the system to the coming control connections, what was done to the sockets, the
  connections that were freed (by their socket name, which the counter makes unique), and the
  \<open>poll\<close> results.
\<close>

record wifi_ctx =
  wifi_configs :: "wifi_config list"
  mac_addr :: "string list"
  ifindex :: "int list"
  ifname :: "string list"
  phyname :: "string list"
  debugfs_root :: "string list"
  drv_version :: "wifi_driver_version list"
  wpa_ctx :: "wpa_ctrl_ctx list"
  signal :: "int list"
  txrate :: "int list"
  rxrate :: "int list"
  wifi_states :: "wifi_state list"
  radio_amount :: nat
  nl_in :: "nl_ev list"
  nl_results :: "nl_res list"
  nl_out :: "nl_req list"
  dir_exists :: "string \<Rightarrow> bool"
  can_write :: "string \<Rightarrow> bool"
  file_text :: "string \<Rightarrow> string option"
  files_written :: "(string \<times> string) list"
  shell_out :: "string option list"
  shell_cmds :: "string list"
  new_ctrls :: "(open_env \<times> sock_ev list) list"
  ctrl_counter :: int
  sys_log :: "sys_ev list"
  freed :: "string list"
  nametoindex :: "string \<Rightarrow> int"
  hwaddr :: "string \<Rightarrow> u8 list"
  polls :: "poll_ev list"

text \<open>An array element by its index; the arrays have \<open>WIFI_RADIO_MAX\<close> elements.\<close>

definition elem :: "'a list \<Rightarrow> nat \<Rightarrow> 'a outcome" where
  "elem xs i = (if i < length xs then Ret (xs ! i) else Fault OutOfBounds)"

lemma elem_simps [simp]: "i < length xs \<Longrightarrow> elem xs i = Ret (xs ! i)"
  by (simp add: elem_def)

section \<open>Integers\<close>

definition chk_int :: "int \<Rightarrow> int outcome" where
  "chk_int x = (if - (2 ^ 31) \<le> x \<and> x < 2 ^ 31 then Ret x else Fault BadArith)"

lemma chk_int_ok [simp]: "- (2 ^ 31) \<le> x \<Longrightarrow> x < 2 ^ 31 \<Longrightarrow> chk_int x = Ret x"
  by (simp add: chk_int_def)

section \<open>Channels and frequencies\<close>

datatype nl80211_band = NL80211_BAND_2GHZ | NL80211_BAND_5GHZ | NL80211_BAND_60GHZ | NL80211_BAND_OTHER

definition wifi_hal_channel_to_frequency :: "int \<Rightarrow> nl80211_band \<Rightarrow> int outcome" where
  "wifi_hal_channel_to_frequency chan band =
     (if chan \<le> 0 then Ret 0 else (case band of
        NL80211_BAND_2GHZ \<Rightarrow> Ret (if chan = 14 then 2484 else if chan < 14 then 2407 + chan * 5 else 0)
      | NL80211_BAND_5GHZ \<Rightarrow> if chan \<ge> 182 \<and> chan \<le> 196 then Ret (4000 + chan * 5)
          else obind (chk_int (chan * 5)) (\<lambda>x. chk_int (5000 + x))
      | NL80211_BAND_60GHZ \<Rightarrow> Ret (if chan < 5 then 56160 + chan * 2160 else 0)
      | NL80211_BAND_OTHER \<Rightarrow> Ret 0))"

definition wifi_hal_frequency_to_channel :: "int \<Rightarrow> int" where
  "wifi_hal_frequency_to_channel freq =
     (if freq = 2484 then 14
      else if freq < 2484 then (freq - 2407) sdiv 5
      else if freq \<ge> 4910 \<and> freq \<le> 4980 then (freq - 4000) sdiv 5
      else if freq \<le> 45000 then (freq - 5000) sdiv 5
      else if freq \<ge> 58320 \<and> freq \<le> 64800 then (freq - 56160) sdiv 2160
      else 0)"

text \<open>The attributes of \<open>wifi_hal_switch_channel\<close>: frequency, count and channel type. The name
  table is searched for the channel number itself.\<close>

definition tolower :: "char \<Rightarrow> char" where
  "tolower c = (let n = (of_char c :: nat) in if 65 \<le> n \<and> n \<le> 90 then char_of (n + 32) else c)"

definition strcasecmp_eq :: "string \<Rightarrow> string \<Rightarrow> bool" where
  "strcasecmp_eq a b = (map tolower a = map tolower b)"

definition htmap :: "(string \<times> nat) list" where
  "htmap = [(''HT20'', 1), (''HT40+'', 3), (''HT40-'', 2)]"

definition switch_channel_attrs :: "string \<Rightarrow> nat \<Rightarrow> (int \<times> nat \<times> nat) outcome" where
  "switch_channel_attrs channel count =
     (let chan = c_int (fst (strtoul 10 channel));
          band = (if chan \<le> 14 then NL80211_BAND_2GHZ else NL80211_BAND_5GHZ) in
      obind (wifi_hal_channel_to_frequency chan band) (\<lambda>f.
        Ret (f, count, (case filter (\<lambda>(name, val). strcasecmp_eq name channel) htmap of
                          [] \<Rightarrow> 0 | (_, val) # _ \<Rightarrow> val))))"

section \<open>MAC addresses\<close>

definition hex_digit :: "nat \<Rightarrow> char" where
  "hex_digit d = (if d < 10 then char_of (48 + d) else char_of (87 + d))"

definition hex2 :: "u8 \<Rightarrow> string" where
  "hex2 b = [hex_digit (unat b div 16), hex_digit (unat b mod 16)]"

definition wifi_hal_mac_addr_n2a :: "u8 list \<Rightarrow> string outcome" where
  "wifi_hal_mac_addr_n2a arg = get_bytes 6 arg (\<lambda>a.
     concat (map (\<lambda>i. if i = 0 then hex2 (a ! i) else CHR '':'' # hex2 (a ! i)) [0..<6]))"

section \<open>Coverage class and power\<close>

text \<open>None: the jump to \<open>invalid_distance\<close>. The quotient is converted to \<open>unsigned int\<close>.\<close>

definition coverage_class :: "int \<Rightarrow> int option outcome" where
  "coverage_class distance = obind (chk_int (distance + 449)) (\<lambda>x.
     let coverage = (x sdiv 450) mod 2 ^ 32 in Ret (if coverage > 255 then None else Some coverage))"

definition tx_power_level :: "int \<Rightarrow> int outcome" where
  "tx_power_level dbm = chk_int (dbm * 100)"

section \<open>Lemmas\<close>

text \<open>
  Every channel number of a band is the channel of its frequency: 1 to 14 at 2.4 GHz, all
  channels at 5 GHz (182 to 196 being the ones below 5 GHz) and 1 to 4 at 60 GHz.
\<close>

theorem channel_roundtrip:
  "(1 \<le> c \<and> c \<le> 14 \<longrightarrow> (\<exists>f. wifi_hal_channel_to_frequency c NL80211_BAND_2GHZ = Ret f \<and> wifi_hal_frequency_to_channel f = c))
   \<and> (1 \<le> c \<and> c \<le> 8000 \<longrightarrow> (\<exists>f. wifi_hal_channel_to_frequency c NL80211_BAND_5GHZ = Ret f \<and> wifi_hal_frequency_to_channel f = c))
   \<and> (1 \<le> c \<and> c \<le> 4 \<longrightarrow> (\<exists>f. wifi_hal_channel_to_frequency c NL80211_BAND_60GHZ = Ret f \<and> wifi_hal_frequency_to_channel f = c))"
proof (intro conjI impI)
  assume c: "1 \<le> c \<and> c \<le> 14"
  then show "\<exists>f. wifi_hal_channel_to_frequency c NL80211_BAND_2GHZ = Ret f \<and> wifi_hal_frequency_to_channel f = c"
    by (auto simp: wifi_hal_channel_to_frequency_def wifi_hal_frequency_to_channel_def signed_divide_int_def sgn_if)
next
  assume c: "1 \<le> c \<and> c \<le> 8000"
  then show "\<exists>f. wifi_hal_channel_to_frequency c NL80211_BAND_5GHZ = Ret f \<and> wifi_hal_frequency_to_channel f = c"
    by (auto simp: wifi_hal_channel_to_frequency_def wifi_hal_frequency_to_channel_def signed_divide_int_def sgn_if)
next
  assume c: "1 \<le> c \<and> c \<le> 4"
  then show "\<exists>f. wifi_hal_channel_to_frequency c NL80211_BAND_60GHZ = Ret f \<and> wifi_hal_frequency_to_channel f = c"
    by (auto simp: wifi_hal_channel_to_frequency_def wifi_hal_frequency_to_channel_def signed_divide_int_def sgn_if)
qed

lemma coverage_class_exact:
  assumes "0 \<le> d" "d < 2 ^ 31 - 449"
  shows "coverage_class d = Ret (if d \<le> 114750 then Some ((d + 449) div 450) else None)"
  using assms by (auto simp: coverage_class_def signed_divide_int_def sgn_if Let_def)

lemma mac_text_length: "6 \<le> length a \<Longrightarrow> \<exists>s. wifi_hal_mac_addr_n2a a = Ret s \<and> length s = 17"
  by (simp add: wifi_hal_mac_addr_n2a_def get_bytes_def hex2_def upt_rec)

end
