(* ===== verification/WifiNl.thy ===== *)
theory WifiNl
  imports WifiTypes
begin

text \<open>
  The netlink side of src/src/wifi/wifi_hal_main.cpp: the callbacks that collect interfaces and
  station data, the requests and their waiting loops, and the radio parameters.
\<close>

section \<open>Sending and waiting\<close>

text \<open>\<open>nlmsg_alloc\<close> and \<open>nl_send_auto\<close>: what they return is a script, a request is sent when the script has
  ended. \<open>err\<close> is returned when there is no memory for the message.\<close>

definition ENOMEM :: int where "ENOMEM = 12"

definition with_nlmsg :: "int \<Rightarrow> (wifi_ctx \<Rightarrow> (int \<times> wifi_ctx) outcome) \<Rightarrow> wifi_ctx \<Rightarrow> (int \<times> wifi_ctx) outcome" where
  "with_nlmsg err f w = (case nl_results w of NlNoMemory # r \<Rightarrow> Ret (err, w\<lparr>nl_results := r\<rparr>) | _ \<Rightarrow> f w)"

definition nl_send :: "nl_req \<Rightarrow> wifi_ctx \<Rightarrow> bool \<times> wifi_ctx" where
  "nl_send req w = (case nl_results w of
       [] \<Rightarrow> (True, w\<lparr>nl_out := nl_out w @ [req]\<rparr>)
     | b # r \<Rightarrow> if b = NlSent then (True, w\<lparr>nl_results := r, nl_out := nl_out w @ [req]\<rparr>)
         else (False, w\<lparr>nl_results := r\<rparr>))"

section \<open>Interfaces\<close>

definition name_known :: "string \<Rightarrow> wifi_ctx \<Rightarrow> bool" where
  "name_known nm w = list_ex (\<lambda>s. starts_with s nm) (ifname w)"

definition fill_name :: "if_msg \<Rightarrow> string \<Rightarrow> nat \<Rightarrow> wifi_ctx \<Rightarrow> wifi_ctx" where
  "fill_name m nm i w = (if ifname w ! i = []
     then w\<lparr>ifname := (ifname w)[i := take (RADIO_IFNAME_SIZE - 1) nm],
            ifindex := (ifindex w)[i := c_int (int (im_ifindex m))]\<rparr> else w)"

definition fill_phy :: "if_msg \<Rightarrow> nat \<Rightarrow> wifi_ctx \<Rightarrow> wifi_ctx" where
  "fill_phy m i w = (case im_wiphy m of
       Some p \<Rightarrow> if phyname w ! i = []
         then w\<lparr>phyname := (phyname w)[i := take 7 (show_int (c_int (int p)))], radio_amount := radio_amount w + 1\<rparr> else w
     | None \<Rightarrow> w)"

definition fill_slot :: "if_msg \<Rightarrow> string \<Rightarrow> nat \<Rightarrow> wifi_ctx \<Rightarrow> wifi_ctx" where
  "fill_slot m nm i w = (if name_known nm w then w else fill_phy m i (fill_name m nm i w))"

text \<open>\<open>nla_get_string\<close> of an attribute that is not there reads near NULL.\<close>

definition wifi_hal_ifname_resp_hdlr :: "if_msg \<Rightarrow> wifi_ctx \<Rightarrow> wifi_ctx outcome" where
  "wifi_hal_ifname_resp_hdlr m w = (case im_ifname m of
       None \<Rightarrow> Fault NullDeref
     | Some nm \<Rightarrow> Ret (fill_slot m nm 1 (fill_slot m nm 0 w)))"

text \<open>\<open>while (if_cb_err > 0) nl_recvmsgs(..)\<close>: until the end of the dump.\<close>

fun recv_interfaces :: "nl_ev list \<Rightarrow> wifi_ctx \<Rightarrow> wifi_ctx outcome" where
  "recv_interfaces [] w = Blocked"
| "recv_interfaces (NlFinish # r) w = Ret (w\<lparr>nl_in := r\<rparr>)"
| "recv_interfaces (NlInterface m # r) w = obind (wifi_hal_ifname_resp_hdlr m w) (recv_interfaces r)"
| "recv_interfaces (_ # r) w = recv_interfaces r w"

definition EINVAL :: int where "EINVAL = 22"

definition wifi_hal_get_interface :: "wifi_ctx \<Rightarrow> (int \<times> wifi_ctx) outcome" where
  "wifi_hal_get_interface w = with_nlmsg (- ENOMEM) (\<lambda>w. case nl_send GetInterface w of (ok, w1) \<Rightarrow>
     if \<not> ok then Ret (-1, w1)
     else obind (recv_interfaces (nl_in w1) w1) (\<lambda>w2.
       Ret (if ifindex w2 ! 0 = 0 then - EINVAL else 0, w2))) w"

section \<open>Stations\<close>

definition set_matching :: "nat \<Rightarrow> int list \<Rightarrow> int \<Rightarrow> int \<Rightarrow> int list \<Rightarrow> int list outcome" where
  "set_matching n idxs k v xs =
     (if n > length idxs \<or> n > length xs then Fault OutOfBounds
      else Ret (map (\<lambda>i. if i < n \<and> idxs ! i = k then v else xs ! i) [0..<length xs]))"

text \<open>The bit rate of a nested rate attribute, if there is one to store.\<close>

definition nested_rate :: "nat option option option \<Rightarrow> int option" where
  "nested_rate r = (case r of Some (Some (Some v)) \<Rightarrow> Some (int v div 10) | _ \<Rightarrow> None)"

definition store_opt :: "int option \<Rightarrow> (int \<Rightarrow> int list outcome) \<Rightarrow> int list \<Rightarrow> int list outcome" where
  "store_opt v f xs = (case v of None \<Rightarrow> Ret xs | Some x \<Rightarrow> f x)"

text \<open>The signal is taken as an \<open>unsigned char\<close>.\<close>

definition wifi_hal_connection_info_hdlr :: "sta_msg \<Rightarrow> wifi_ctx \<Rightarrow> wifi_ctx outcome" where
  "wifi_hal_connection_info_hdlr m w =
     (if sm_info m \<noteq> Some True then Ret w
      else let k = c_int (int (sm_ifindex m)); put = (\<lambda>xs v. set_matching (radio_amount w) (ifindex w) k v xs) in
        obind (store_opt (map_option (\<lambda>s. int (s mod 256)) (sm_signal m)) (put (signal w)) (signal w)) (\<lambda>sg.
        obind (store_opt (nested_rate (sm_tx m)) (put (txrate w)) (txrate w)) (\<lambda>tx.
        obind (store_opt (nested_rate (sm_rx m)) (put (rxrate w)) (rxrate w)) (\<lambda>rx.
          Ret (w\<lparr>signal := sg, txrate := tx, rxrate := rx\<rparr>)))))"

fun recv_stations :: "nl_ev list \<Rightarrow> wifi_ctx \<Rightarrow> wifi_ctx outcome" where
  "recv_stations [] w = Blocked"
| "recv_stations (NlFinish # r) w = Ret (w\<lparr>nl_in := r\<rparr>)"
| "recv_stations (NlStation m # r) w = obind (wifi_hal_connection_info_hdlr m w) (recv_stations r)"
| "recv_stations (_ # r) w = recv_stations r w"

definition wifi_hal_get_stainfo :: "nat \<Rightarrow> wifi_ctx \<Rightarrow> (int \<times> wifi_ctx) outcome" where
  "wifi_hal_get_stainfo index w = with_nlmsg (- ENOMEM) (\<lambda>w. obind (elem (ifindex w) index) (\<lambda>k.
     case nl_send (GetStation k) w of (ok, w1) \<Rightarrow>
     if \<not> ok then Ret (-1, w1)
     else obind (recv_stations (nl_in w1) w1) (\<lambda>w2. Ret (0, w2)))) w"

definition after_queries :: "nat \<Rightarrow> (wifi_ctx \<Rightarrow> int list) \<Rightarrow> wifi_ctx \<Rightarrow> (int \<times> wifi_ctx) outcome" where
  "after_queries index field w =
     obind (wifi_hal_get_interface w) (\<lambda>(_, w1). obind (wifi_hal_get_stainfo index w1) (\<lambda>(_, w2).
     obind (elem (field w2) index) (\<lambda>v. Ret (v, w2))))"

definition wifi_hal_get_rssi :: "nat \<Rightarrow> wifi_ctx \<Rightarrow> (int \<times> wifi_ctx) outcome" where
  "wifi_hal_get_rssi index w = after_queries index signal w"

definition wifi_hal_get_txrate :: "nat \<Rightarrow> wifi_ctx \<Rightarrow> (int \<times> wifi_ctx) outcome" where
  "wifi_hal_get_txrate index w = after_queries index txrate w"

definition wifi_hal_get_rxrate :: "nat \<Rightarrow> wifi_ctx \<Rightarrow> (int \<times> wifi_ctx) outcome" where
  "wifi_hal_get_rxrate index w = after_queries index rxrate w"

section \<open>Radio parameters\<close>

text \<open>The wait for the acknowledgement of a setting.\<close>

fun recv_ack :: "nl_ev list \<Rightarrow> wifi_ctx \<Rightarrow> (int \<times> wifi_ctx) outcome" where
  "recv_ack [] w = Blocked"
| "recv_ack (NlAck # r) w = Ret (0, w\<lparr>nl_in := r\<rparr>)"
| "recv_ack (NlFinish # r) w = Ret (0, w\<lparr>nl_in := r\<rparr>)"
| "recv_ack (_ # r) w = recv_ack r w"

definition nl_set :: "nl_req \<Rightarrow> wifi_ctx \<Rightarrow> (int \<times> wifi_ctx) outcome" where
  "nl_set req w = (case nl_send req w of (ok, w1) \<Rightarrow> if \<not> ok then Ret (-1, w1) else recv_ack (nl_in w1) w1)"

definition wifi_hal_set_distance :: "nat \<Rightarrow> wifi_config \<Rightarrow> wifi_ctx \<Rightarrow> (int \<times> wifi_ctx) outcome" where
  "wifi_hal_set_distance index config w = with_nlmsg (- ENOMEM) (\<lambda>w. obind (elem (phyname w) index) (\<lambda>phy.
     case strtol 10 phy of (v, none) \<Rightarrow>
     if none then Ret (-1, w)
     else obind (coverage_class (wc_distance config)) (\<lambda>cv. case cv of
         None \<Rightarrow> Ret (-1, w)
       | Some coverage \<Rightarrow> nl_set (SetCoverage (c_int v) coverage) w))) w"

definition wifi_hal_set_txpower :: "nat \<Rightarrow> wifi_config \<Rightarrow> wifi_ctx \<Rightarrow> (int \<times> wifi_ctx) outcome" where
  "wifi_hal_set_txpower index config w = with_nlmsg (- ENOMEM) (\<lambda>w. obind (elem (ifname w) index) (\<lambda>nm.
     obind (tx_power_level (wc_tx_power config)) (\<lambda>lvl. nl_set (SetTxPower (nametoindex w nm) lvl) w))) w"

definition wifi_hal_set_country :: "nat \<Rightarrow> wifi_config \<Rightarrow> wifi_ctx \<Rightarrow> (int \<times> wifi_ctx) outcome" where
  "wifi_hal_set_country index config w = with_nlmsg (- ENOMEM) (nl_set (ReqSetReg (country_str config))) w"

text \<open>\<open>fwd\<close> is the read of \<open>config->mesh_fwding\<close>, whose low byte goes into the message.\<close>

definition wifi_hal_set_mesh_fwding :: "nat \<Rightarrow> int outcome \<Rightarrow> wifi_ctx \<Rightarrow> (int \<times> wifi_ctx) outcome" where
  "wifi_hal_set_mesh_fwding index fwd w = with_nlmsg (-1) (\<lambda>w. obind (elem (ifname w) index) (\<lambda>nm.
     obind fwd (\<lambda>v. nl_set (SetMeshForwarding (nametoindex w nm) (v mod 256)) w))) w"

section \<open>Operations that nothing calls\<close>

text \<open>
  \<open>wifi_hal_switch_channel\<close> sends its attributes with the command that asks for the stations. The
  callbacks \<open>gen_nl_cb\<close> of its wait are never set: they are NULL from \<open>calloc\<close>, and libnl reads the
  handlers out of them.
\<close>

definition wifi_hal_switch_channel :: "string \<Rightarrow> nat \<Rightarrow> wifi_ctx \<Rightarrow> (int \<times> wifi_ctx) outcome" where
  "wifi_hal_switch_channel channel count w = with_nlmsg (- ENOMEM) (\<lambda>w.
     obind (switch_channel_attrs channel count) (\<lambda>(freq, cnt, ht).
     case nl_send (SwitchChannel freq cnt ht) w of (_, w1) \<Rightarrow> Fault NullDeref)) w"

text \<open>\<open>nl_wait_for_ack\<close> returns at an acknowledgement or an error; its result is not looked at.
  \<open>cb_ok\<close> is whether the callbacks could be allocated, \<open>send_err\<close> the negative result of a send that
  is refused.\<close>

fun wait_for_ack :: "nl_ev list \<Rightarrow> wifi_ctx \<Rightarrow> wifi_ctx outcome" where
  "wait_for_ack [] w = Blocked"
| "wait_for_ack (NlAck # r) w = Ret (w\<lparr>nl_in := r\<rparr>)"
| "wait_for_ack (NlError # r) w = Ret (w\<lparr>nl_in := r\<rparr>)"
| "wait_for_ack (_ # r) w = wait_for_ack r w"

definition wifi_hal_nl80211_tx_frame :: "bool \<Rightarrow> int \<Rightarrow> u8 list \<Rightarrow> nat \<Rightarrow> wifi_ctx \<Rightarrow> (int \<times> wifi_ctx) outcome" where
  "wifi_hal_nl80211_tx_frame cb_ok send_err action_frame index w = (if \<not> cb_ok then Ret (- ENOMEM, w)
     else with_nlmsg (- ENOMEM) (\<lambda>w. obind (elem (ifindex w) index) (\<lambda>k.
       case nl_send (TxFrame k action_frame) w of (ok, w1) \<Rightarrow>
       if \<not> ok then Ret (send_err, w1)
       else obind (wait_for_ack (nl_in w1) w1) (\<lambda>w2. Ret (0, w2)))) w)"

lemma tx_frame_sent:
  assumes "index < length (ifindex w)" "nl_results w = []" "nl_in w = map NlStation ms @ e # r" "e = NlAck \<or> e = NlError"
  shows "wifi_hal_nl80211_tx_frame True k f index w = Ret (0, w\<lparr>nl_in := r, nl_out := nl_out w @ [TxFrame (ifindex w ! index) f]\<rparr>)"
proof -
  have "wait_for_ack (map NlStation ms @ e # r) v = Ret (v\<lparr>nl_in := r\<rparr>)" for v
    using assms(4) by (induction ms) auto
  with assms(1-3) show ?thesis by (simp add: wifi_hal_nl80211_tx_frame_def with_nlmsg_def nl_send_def)
qed

section \<open>Names and addresses\<close>

definition wifi_hal_get_iface_name :: "nat \<Rightarrow> wifi_ctx \<Rightarrow> string outcome" where
  "wifi_hal_get_iface_name index w = elem (ifname w) index"

definition get_mac_addr :: "nat \<Rightarrow> wifi_ctx \<Rightarrow> (string \<times> wifi_ctx) outcome" where
  "get_mac_addr index w = obind (elem (ifname w) index) (\<lambda>nm.
     obind (wifi_hal_mac_addr_n2a (hwaddr w (take (RADIO_IFNAME_SIZE - 1) nm))) (\<lambda>s.
       if index < length (mac_addr w) then Ret (s, w\<lparr>mac_addr := (mac_addr w)[index := s]\<rparr>) else Fault OutOfBounds))"

definition wifi_hal_get_mac_addr :: "nat \<Rightarrow> wifi_ctx \<Rightarrow> (int \<times> string \<times> wifi_ctx) outcome" where
  "wifi_hal_get_mac_addr index w = obind (get_mac_addr index w) (\<lambda>(s, w'). Ret (0, s, w'))"

definition wifi_hal_get_no_of_radio :: "radio_type \<Rightarrow> wifi_ctx \<Rightarrow> nat option" where
  "wifi_hal_get_no_of_radio t w = (case t of RADIO_WIFI \<Rightarrow> Some (radio_amount w) | _ \<Rightarrow> None)"

definition WIFI_RADIO_HAL_MAJOR_VERSION :: int where "WIFI_RADIO_HAL_MAJOR_VERSION = 1"
definition WIFI_RADIO_HAL_MINOR_VERSION :: int where "WIFI_RADIO_HAL_MINOR_VERSION = 0"

definition wifi_hal_get_hal_version :: string where
  "wifi_hal_get_hal_version = take 31 (show_int WIFI_RADIO_HAL_MAJOR_VERSION @ ''.'' @ show_int WIFI_RADIO_HAL_MINOR_VERSION)"

section \<open>The tables keep their shape\<close>

definition sc_ok :: "wifi_ctx \<Rightarrow> bool" where
  "sc_ok w = (length (ifindex w) = WIFI_RADIO_MAX \<and> length (ifname w) = WIFI_RADIO_MAX
     \<and> length (phyname w) = WIFI_RADIO_MAX \<and> length (signal w) = WIFI_RADIO_MAX
     \<and> length (txrate w) = WIFI_RADIO_MAX \<and> length (rxrate w) = WIFI_RADIO_MAX
     \<and> radio_amount w \<le> length (filter (\<lambda>s. s \<noteq> []) (phyname w))
     \<and> list_all (\<lambda>s. length s < RADIO_IFNAME_SIZE) (ifname w)
     \<and> list_all (\<lambda>s. length s < 8) (phyname w))"

lemma sc_ok_amount: "sc_ok w \<Longrightarrow> radio_amount w \<le> WIFI_RADIO_MAX"
  by (metis sc_ok_def length_filter_le le_trans)

lemma filter_fill:
  "i < length xs \<Longrightarrow> xs ! i = [] \<Longrightarrow> y \<noteq> [] \<Longrightarrow>
   length (filter (\<lambda>s. s \<noteq> []) (xs[i := y])) = Suc (length (filter (\<lambda>s. s \<noteq> []) xs))"
proof (induction xs arbitrary: i)
  case (Cons x xs)
  then show ?case by (cases i) auto
qed simp

lemma phy_text_nonempty: "take 7 (show_int p) \<noteq> []"
  using show_nat_not_Nil [of "nat p"] by (cases "show_nat (nat p)") (auto simp: show_int_def)

lemma fill_name_ok: "sc_ok w \<Longrightarrow> sc_ok (fill_name m nm i w)"
  by (auto simp: fill_name_def sc_ok_def RADIO_IFNAME_SIZE_def intro!: list_all_update)

lemma fill_phy_ok: "sc_ok w \<Longrightarrow> i < WIFI_RADIO_MAX \<Longrightarrow> sc_ok (fill_phy m i w)"
  using phy_text_nonempty
  by (auto simp: fill_phy_def sc_ok_def filter_fill intro!: list_all_update split: option.splits)

lemma fill_slot_ok: "sc_ok w \<Longrightarrow> i < WIFI_RADIO_MAX \<Longrightarrow> sc_ok (fill_slot m nm i w)"
  by (simp add: fill_slot_def fill_name_ok fill_phy_ok)

lemma with_nlmsg_Nil [simp]: "nl_results w = [] \<Longrightarrow> with_nlmsg err f w = f w"
  by (simp add: with_nlmsg_def)

lemma with_nlmsg_cases: "with_nlmsg err f w = f w \<or> (\<exists>r. with_nlmsg err f w = Ret (err, w\<lparr>nl_results := r\<rparr>))"
proof (cases "\<exists>r. nl_results w = NlNoMemory # r")
  case True
  then obtain r where "with_nlmsg err f w = Ret (err, w\<lparr>nl_results := r\<rparr>)" by (auto simp: with_nlmsg_def)
  then show ?thesis by blast
next
  case False
  then have "with_nlmsg err f w = f w" by (simp add: with_nlmsg_def split: list.split nl_res.split)
  then show ?thesis ..
qed

lemma nl_send_frame [simp]: "sc_ok (snd (nl_send r w)) = sc_ok w"
  by (simp add: nl_send_def sc_ok_def split: list.splits)

lemma recv_interfaces_ok: "recv_interfaces es w = Ret w' \<Longrightarrow> sc_ok w \<Longrightarrow> sc_ok w'"
proof (induction es w rule: recv_interfaces.induct)
  case (3 m r w)
  from 3(2) obtain nm where nm: "im_ifname m = Some nm"
    "recv_interfaces r (fill_slot m nm 1 (fill_slot m nm 0 w)) = Ret w'"
    by (auto simp: wifi_hal_ifname_resp_hdlr_def outcome_simps split: option.splits)
  then have h: "wifi_hal_ifname_resp_hdlr m w = Ret (fill_slot m nm 1 (fill_slot m nm 0 w))"
    by (simp add: wifi_hal_ifname_resp_hdlr_def)
  have "sc_ok (fill_slot m nm 1 (fill_slot m nm 0 w))"
    using 3(3) by (intro fill_slot_ok) (simp_all add: WIFI_RADIO_MAX_def)
  with 3(1) [OF h nm(2)] show ?case by simp
qed (auto simp: sc_ok_def)

lemma set_matching_ok:
  "n \<le> length idxs \<Longrightarrow> n \<le> length xs \<Longrightarrow> \<exists>ys. set_matching n idxs k v xs = Ret ys \<and> length ys = length xs"
  by (simp add: set_matching_def)

lemma store_opt_ok:
  assumes "radio_amount w \<le> length (ifindex w)" "radio_amount w \<le> length xs"
  shows "\<exists>ys. store_opt v (\<lambda>v. set_matching (radio_amount w) (ifindex w) k v xs) xs = Ret ys \<and> length ys = length xs"
  using set_matching_ok [OF assms] by (cases v) (auto simp: store_opt_def)

lemma connection_info_ok:
  assumes "sc_ok w"
  shows "\<exists>w'. wifi_hal_connection_info_hdlr m w = Ret w' \<and> sc_ok w'"
proof -
  have l: "radio_amount w \<le> length (ifindex w)" "radio_amount w \<le> length (signal w)"
    "radio_amount w \<le> length (txrate w)" "radio_amount w \<le> length (rxrate w)"
    using sc_ok_amount [OF assms] assms by (simp_all add: sc_ok_def)
  let ?put = "\<lambda>xs v. set_matching (radio_amount w) (ifindex w) (c_int (int (sm_ifindex m))) v xs"
  obtain sg tx rx where r:
    "store_opt (map_option (\<lambda>s. int (s mod 256)) (sm_signal m)) (?put (signal w)) (signal w) = Ret sg" "length sg = length (signal w)"
    "store_opt (nested_rate (sm_tx m)) (?put (txrate w)) (txrate w) = Ret tx" "length tx = length (txrate w)"
    "store_opt (nested_rate (sm_rx m)) (?put (rxrate w)) (rxrate w) = Ret rx" "length rx = length (rxrate w)"
    using store_opt_ok [OF l(1,2)] store_opt_ok [OF l(1,3)] store_opt_ok [OF l(1,4)] by metis
  have "sc_ok (w\<lparr>signal := sg, txrate := tx, rxrate := rx\<rparr>)"
    using assms r(2,4,6) by (simp add: sc_ok_def)
  then show ?thesis using assms by (simp add: wifi_hal_connection_info_hdlr_def Let_def r(1,3,5))
qed

lemma recv_stations_ok:
  "sc_ok w \<Longrightarrow> (\<exists>w'. recv_stations es w = Ret w' \<and> sc_ok w') \<or> recv_stations es w = Blocked"
proof (induction es w rule: recv_stations.induct)
  case (3 m r w)
  from connection_info_ok [OF 3(2)] obtain w1 where "wifi_hal_connection_info_hdlr m w = Ret w1" "sc_ok w1" by blast
  with 3(1) show ?case by simp
qed (auto simp: sc_ok_def)

text \<open>
  The script of a query: how many dumps it ends, and whether an interface without a name comes before
  the end of the first one. The \<open>k\<close> dumps that a query waits for bound when it can wait for ever.
\<close>

definition dumps :: "nl_ev list \<Rightarrow> nat" where
  "dumps evs = length (filter (\<lambda>e. e = NlFinish) evs)"

definition unnamed :: "nl_ev list \<Rightarrow> bool" where
  "unnamed evs = list_ex (\<lambda>e. case e of NlInterface m \<Rightarrow> im_ifname m = None | _ \<Rightarrow> False) (takeWhile (\<lambda>e. e \<noteq> NlFinish) evs)"

definition ends_ok :: "nat \<Rightarrow> nl_ev list \<Rightarrow> ('a \<times> wifi_ctx) outcome \<Rightarrow> bool" where
  "ends_ok k evs r = (case r of Ret (_, w) \<Rightarrow> sc_ok w | Fault f \<Rightarrow> f = NullDeref \<and> unnamed evs | Blocked \<Rightarrow> dumps evs < k)"

lemma dumps_simps [simp]: "dumps [] = 0" "dumps (e # es) = (if e = NlFinish then Suc (dumps es) else dumps es)"
  by (simp_all add: dumps_def)

lemma unnamed_simps [simp]: "\<not> unnamed []" "\<not> unnamed (NlFinish # es)"
  "unnamed (NlInterface m # es) \<longleftrightarrow> im_ifname m = None \<or> unnamed es" "unnamed (NlStation s # es) \<longleftrightarrow> unnamed es"
  "unnamed (NlAck # es) \<longleftrightarrow> unnamed es" "unnamed (NlError # es) \<longleftrightarrow> unnamed es"
  by (simp_all add: unnamed_def)

lemma with_nlmsg_intro: "P (f w) \<Longrightarrow> (\<And>r. P (Ret (err, w\<lparr>nl_results := r\<rparr>))) \<Longrightarrow> P (with_nlmsg err f w)"
  using with_nlmsg_cases [of err f w] by auto

lemma sc_ok_results [simp]: "sc_ok (w\<lparr>nl_results := r\<rparr>) = sc_ok w"
  by (simp add: sc_ok_def)

text \<open>The first dump: what becomes of it, and what is left of the script.\<close>

lemma recv_interfaces_cases:
  "case recv_interfaces es w of Ret w' \<Rightarrow> \<not> unnamed es \<and> dumps es = Suc (dumps (nl_in w'))
   | Fault f \<Rightarrow> f = NullDeref \<and> unnamed es | Blocked \<Rightarrow> \<not> unnamed es \<and> dumps es = 0"
proof (induction es w rule: recv_interfaces.induct)
  case (3 m r w)
  show ?case
  proof (cases "im_ifname m")
    case (Some nm)
    then have h: "wifi_hal_ifname_resp_hdlr m w = Ret (fill_slot m nm 1 (fill_slot m nm 0 w))"
      by (simp add: wifi_hal_ifname_resp_hdlr_def)
    from 3 [OF h] Some show ?thesis by (simp add: h split: outcome.splits)
  qed (simp add: wifi_hal_ifname_resp_hdlr_def)
qed (simp_all split: outcome.splits)

lemma recv_stations_cases: "sc_ok w \<Longrightarrow> recv_stations es w = Blocked \<Longrightarrow> dumps es = 0"
proof (induction es w rule: recv_stations.induct)
  case (3 m r w)
  from connection_info_ok [OF 3(2)] obtain w1 where "wifi_hal_connection_info_hdlr m w = Ret w1" "sc_ok w1" by blast
  with 3(1) [of w1] 3(3) show ?case by simp
qed auto

lemma nl_send_in [simp]: "nl_in (snd (nl_send r w)) = nl_in w"
  by (simp add: nl_send_def split: list.split)

text \<open>Asking for the interfaces: what is left of the script suffices for the next dump.\<close>

lemma get_interface_cases:
  assumes "sc_ok w"
  shows "case wifi_hal_get_interface w of Ret (_, w') \<Rightarrow> sc_ok w' \<and> dumps (nl_in w) \<le> Suc (dumps (nl_in w'))
    | Fault f \<Rightarrow> f = NullDeref \<and> unnamed (nl_in w) | Blocked \<Rightarrow> dumps (nl_in w) = 0"
proof -
  obtain ok w1 where s: "nl_send GetInterface w = (ok, w1)" by (cases "nl_send GetInterface w")
  with assms nl_send_frame [of GetInterface w] nl_send_in [of GetInterface w] have w1: "sc_ok w1" "nl_in w1 = nl_in w" by simp_all
  have c: "case recv_interfaces (nl_in w1) w1 of Ret w' \<Rightarrow> sc_ok w' \<and> dumps (nl_in w) \<le> Suc (dumps (nl_in w'))
      | Fault f \<Rightarrow> f = NullDeref \<and> unnamed (nl_in w) | Blocked \<Rightarrow> dumps (nl_in w) = 0"
    using recv_interfaces_cases [of "nl_in w1" w1] recv_interfaces_ok [of "nl_in w1" w1] w1
    by (auto split: outcome.splits)
  show ?thesis unfolding wifi_hal_get_interface_def
    by (rule with_nlmsg_intro [where P = "\<lambda>r. case r of Ret (_, w') \<Rightarrow> sc_ok w' \<and> dumps (nl_in w) \<le> Suc (dumps (nl_in w'))
      | Fault f \<Rightarrow> f = NullDeref \<and> unnamed (nl_in w) | Blocked \<Rightarrow> dumps (nl_in w) = 0"])
      (use c s w1 assms in \<open>auto split: outcome.splits\<close>)
qed

lemma get_stainfo_ends_ok:
  assumes "sc_ok w" "i < WIFI_RADIO_MAX"
  shows "ends_ok 1 (nl_in w) (wifi_hal_get_stainfo i w)" "wifi_hal_get_stainfo i w \<noteq> Fault f"
proof -
  have e: "elem (ifindex w) i = Ret (ifindex w ! i)" using assms by (simp add: sc_ok_def)
  obtain ok w1 where s: "nl_send (GetStation (ifindex w ! i)) w = (ok, w1)"
    by (cases "nl_send (GetStation (ifindex w ! i)) w")
  with assms nl_send_frame [of "GetStation (ifindex w ! i)" w] nl_send_in [of "GetStation (ifindex w ! i)" w]
  have w1: "sc_ok w1" "nl_in w1 = nl_in w" by simp_all
  have c: "(\<exists>w'. recv_stations (nl_in w1) w1 = Ret w' \<and> sc_ok w') \<or> recv_stations (nl_in w1) w1 = Blocked \<and> dumps (nl_in w) = 0"
    using recv_stations_ok [OF w1(1), of "nl_in w1"] recv_stations_cases [OF w1(1), of "nl_in w1"] w1(2) by auto
  have "(\<exists>x w'. wifi_hal_get_stainfo i w = Ret (x, w') \<and> sc_ok w') \<or> wifi_hal_get_stainfo i w = Blocked \<and> dumps (nl_in w) = 0"
    unfolding wifi_hal_get_stainfo_def
    by (rule with_nlmsg_intro [where P = "\<lambda>r. (\<exists>x w'. r = Ret (x, w') \<and> sc_ok w') \<or> r = Blocked \<and> dumps (nl_in w) = 0"])
      (use c s e w1(1) assms(1) in auto)
  then show "ends_ok 1 (nl_in w) (wifi_hal_get_stainfo i w)" "wifi_hal_get_stainfo i w \<noteq> Fault f" by (auto simp: ends_ok_def)
qed

lemma after_queries_ends_ok:
  assumes "sc_ok w" "i < WIFI_RADIO_MAX" "\<And>w'. sc_ok w' \<Longrightarrow> length (field w') = WIFI_RADIO_MAX"
  shows "ends_ok 2 (nl_in w) (after_queries i field w)"
proof (cases "wifi_hal_get_interface w")
  case (Ret r)
  obtain x w1 where r: "r = (x, w1)" by (cases r)
  with get_interface_cases [OF assms(1)] Ret have w1: "sc_ok w1" "dumps (nl_in w) \<le> Suc (dumps (nl_in w1))" by simp_all
  show ?thesis
  proof (cases "wifi_hal_get_stainfo i w1")
    case (Ret r2)
    with get_stainfo_ends_ok(1) [OF w1(1) assms(2)] have "sc_ok (snd r2)" by (auto simp: ends_ok_def split: prod.splits)
    with Ret assms(2,3) \<open>wifi_hal_get_interface w = Ret r\<close> r show ?thesis
      by (cases r2) (simp add: after_queries_def ends_ok_def)
  next
    case Blocked
    with get_stainfo_ends_ok(1) [OF w1(1) assms(2)] w1(2) \<open>wifi_hal_get_interface w = Ret r\<close> r
    show ?thesis by (simp add: after_queries_def ends_ok_def)
  qed (use get_stainfo_ends_ok(2) [OF w1(1) assms(2)] in simp)
next
  case (Fault f)
  with get_interface_cases [OF assms(1)] show ?thesis by (simp add: after_queries_def ends_ok_def)
next
  case Blocked
  with get_interface_cases [OF assms(1)] show ?thesis by (simp add: after_queries_def ends_ok_def)
qed

text \<open>
  C38: the tables of the WiFi HAL are well formed after every query: one entry per possible radio,
  names and phy numbers shorter than their arrays, and no more radios than phys. Collecting
  interfaces, station data, signal and rates keeps this, and no query leaves an array. A query of the
  stations never faults; the others, which collect the interfaces first, read through NULL only for an
  interface without a name in the dump, and collecting does so whenever its request is sent. A query waits for ever only
  when the one dump that it asks for, or the two for signal and rates, do not all end.
\<close>

theorem wifi_tables_typed:
  assumes "sc_ok w" "i < WIFI_RADIO_MAX"
  shows "ends_ok 1 (nl_in w) (wifi_hal_get_interface w) \<and> ends_ok 1 (nl_in w) (wifi_hal_get_stainfo i w)
    \<and> ends_ok 2 (nl_in w) (wifi_hal_get_rssi i w) \<and> ends_ok 2 (nl_in w) (wifi_hal_get_txrate i w)
    \<and> ends_ok 2 (nl_in w) (wifi_hal_get_rxrate i w)
    \<and> (\<forall>f. wifi_hal_get_stainfo i w \<noteq> Fault f)
    \<and> (nl_results w = [] \<longrightarrow> (wifi_hal_get_interface w = Fault NullDeref) = unnamed (nl_in w))"
proof (intro conjI impI allI)
  show "ends_ok 1 (nl_in w) (wifi_hal_get_interface w)"
    using get_interface_cases [OF assms(1)] by (auto simp: ends_ok_def split: outcome.splits)
  show "ends_ok 1 (nl_in w) (wifi_hal_get_stainfo i w)" "\<And>f. wifi_hal_get_stainfo i w \<noteq> Fault f"
    by (rule get_stainfo_ends_ok [OF assms])+
  show "ends_ok 2 (nl_in w) (wifi_hal_get_rssi i w)" "ends_ok 2 (nl_in w) (wifi_hal_get_txrate i w)"
    "ends_ok 2 (nl_in w) (wifi_hal_get_rxrate i w)"
    using after_queries_ends_ok [OF assms] by (simp_all add: wifi_hal_get_rssi_def wifi_hal_get_txrate_def wifi_hal_get_rxrate_def sc_ok_def)
  assume n: "nl_results w = []"
  show "(wifi_hal_get_interface w = Fault NullDeref) = unnamed (nl_in w)"
    using recv_interfaces_cases [of "nl_in w" "w\<lparr>nl_out := nl_out w @ [GetInterface]\<rparr>"] n
    by (auto simp: wifi_hal_get_interface_def nl_send_def split: outcome.splits)
qed

section \<open>Collecting interfaces\<close>

definition iface :: "string \<Rightarrow> nat \<Rightarrow> nat \<Rightarrow> nl_ev" where
  "iface nm idx p = NlInterface \<lparr>im_ifname = Some nm, im_ifindex = idx, im_wiphy = Some p\<rparr>"

lemma starts_with_Nil_left [simp]: "starts_with [] s \<longleftrightarrow> s = []"
  by (auto simp: starts_with_def)

lemma starts_with_self [simp]: "starts_with s s"
  by (simp add: starts_with_def)

text \<open>Two interfaces of different phys, whatever the netlink socket delivers behind the dump.\<close>

lemma interfaces_found:
  assumes "ifname w = [[], []]" "phyname w = [[], []]" "ifindex w = [-1, -1]" "radio_amount w = 0" "nl_results w = []"
    and "nl_in w = iface n0 i0 p0 # iface n1 i1 p1 # NlFinish # rest"
    and "n0 \<noteq> []" "n1 \<noteq> []" "length n0 < RADIO_IFNAME_SIZE" "length n1 < RADIO_IFNAME_SIZE" "\<not> starts_with n0 n1"
    and "0 < i0" "i0 < 2 ^ 31" "0 < i1" "i1 < 2 ^ 31" "p0 < 10" "p1 < 10"
  shows "wifi_hal_get_interface w = Ret (0, w\<lparr>ifname := [n0, n1], phyname := [show_nat p0, show_nat p1], ifindex := [int i0, int i1],
    radio_amount := 2, nl_in := rest, nl_out := nl_out w @ [GetInterface]\<rparr>)"
proof -
  have t: "take (RADIO_IFNAME_SIZE - Suc 0) n0 = n0" "take (RADIO_IFNAME_SIZE - Suc 0) n1 = n1"
    using assms(9,10) by simp_all
  have s: "take 7 (show_int (c_int (int p0))) = show_nat p0" "take 7 (show_int (c_int (int p1))) = show_nat p1"
    using assms(16,17) by (simp_all add: c_int_id show_int_def show_nat.simps)
  have c: "c_int (int i0) = int i0" "c_int (int i1) = int i1"
    using assms(12-15) by (simp_all add: c_int_id)
  show ?thesis using assms(1-8,11,12)
    by (simp add: wifi_hal_get_interface_def nl_send_def iface_def wifi_hal_ifname_resp_hdlr_def
        fill_slot_def fill_name_def fill_phy_def name_known_def t s c numeral_2_eq_2)
qed

text \<open>The name of the second is a prefix of that of the first, wlan1 behind wlan10: it is taken for the same
  interface and dropped.\<close>

lemma prefix_name_dropped:
  assumes "ifname w = [[], []]" "phyname w = [[], []]" "ifindex w = [-1, -1]" "radio_amount w = 0" "nl_results w = []"
    and "nl_in w = iface n0 i0 p0 # iface n1 i1 p1 # NlFinish # rest"
    and "n0 \<noteq> []" "length n0 < RADIO_IFNAME_SIZE" "starts_with n0 n1" "n1 \<noteq> []" "0 < i0" "i0 < 2 ^ 31" "p0 < 10"
  shows "wifi_hal_get_interface w = Ret (0, w\<lparr>ifname := [n0, []], phyname := [show_nat p0, []], ifindex := [int i0, -1],
    radio_amount := 1, nl_in := rest, nl_out := nl_out w @ [GetInterface]\<rparr>)"
proof -
  have t: "take (RADIO_IFNAME_SIZE - Suc 0) n0 = n0" using assms(8) by simp
  have s: "take 7 (show_int (c_int (int p0))) = show_nat p0" using assms(13) by (simp add: c_int_id show_int_def show_nat.simps)
  have c: "c_int (int i0) = int i0" using assms(11,12) by (simp add: c_int_id)
  show ?thesis using assms(1-7,9-11)
    by (simp add: wifi_hal_get_interface_def nl_send_def iface_def wifi_hal_ifname_resp_hdlr_def
        fill_slot_def fill_name_def fill_phy_def name_known_def t s c)
qed

definition wifi_ctx0 :: "nl_ev list \<Rightarrow> wifi_ctx" where
  "wifi_ctx0 evs = \<lparr>wifi_configs = [wifi_config_zero, wifi_config_zero], mac_addr = [[], []], ifindex = [-1, -1],
     ifname = [[], []], phyname = [[], []], debugfs_root = [[], []],
     drv_version = [WIFI_DRIVER_ATH9K, WIFI_DRIVER_ATH9K],
     wpa_ctx = replicate 2 \<lparr>wx_ctrl = None, wx_monitor = None, wx_mesh_ctrl = None\<rparr>,
     signal = [0, 0], txrate = [0, 0], rxrate = [0, 0], wifi_states = [IF_DOWN_STATE, IF_DOWN_STATE],
     radio_amount = 0, nl_in = evs, nl_results = [], nl_out = [], dir_exists = (\<lambda>_. False),
     can_write = (\<lambda>_. True), file_text = (\<lambda>_. None), files_written = [], shell_out = [], shell_cmds = [],
     new_ctrls = [], ctrl_counter = 0, sys_log = [], freed = [], nametoindex = (\<lambda>_. 3), hwaddr = (\<lambda>_. replicate 6 0), polls = []\<rparr>"

text \<open>Two interfaces, and a station of the second; then an interface without a name.\<close>

definition station0 :: sta_msg where
  "station0 = \<lparr>sm_ifindex = 4, sm_info = Some True, sm_signal = Some 206, sm_tx = None, sm_rx = Some (Some (Some 540))\<rparr>"

theorem wifi_tables_typed_witness:
  "(\<exists>v w. wifi_hal_get_rssi 1 (wifi_ctx0 [iface ''wlan0'' 3 0, iface ''wlan1'' 4 1, NlFinish, NlStation station0, NlFinish]) = Ret (v, w)
      \<and> sc_ok w)
    \<and> wifi_hal_get_interface (wifi_ctx0 [NlInterface \<lparr>im_ifname = None, im_ifindex = 3, im_wiphy = None\<rparr>, NlFinish]) = Fault NullDeref"
proof
  let ?evs = "[iface ''wlan0'' 3 0, iface ''wlan1'' 4 1, NlFinish, NlStation station0, NlFinish]"
  have ok: "sc_ok (wifi_ctx0 evs)" for evs
    by (simp add: wifi_ctx0_def sc_ok_def WIFI_RADIO_MAX_def RADIO_IFNAME_SIZE_def)
  have i: "1 < WIFI_RADIO_MAX" by (simp add: WIFI_RADIO_MAX_def)
  have e: "nl_in (wifi_ctx0 evs) = evs" "nl_results (wifi_ctx0 evs) = []" for evs by (simp_all add: wifi_ctx0_def)
  have "ends_ok 2 ?evs (wifi_hal_get_rssi 1 (wifi_ctx0 ?evs))" using wifi_tables_typed [OF ok i, of ?evs] by (simp only: e)
  then show "\<exists>v w. wifi_hal_get_rssi 1 (wifi_ctx0 ?evs) = Ret (v, w) \<and> sc_ok w"
    by (auto simp: ends_ok_def iface_def split: outcome.splits)
  show "wifi_hal_get_interface (wifi_ctx0 [NlInterface \<lparr>im_ifname = None, im_ifindex = 3, im_wiphy = None\<rparr>, NlFinish]) = Fault NullDeref"
    using wifi_tables_typed [OF ok i, of "[NlInterface \<lparr>im_ifname = None, im_ifindex = 3, im_wiphy = None\<rparr>, NlFinish]"]
    by (simp add: e)
qed

section \<open>Signal and parameters\<close>

text \<open>The signal of a station comes back as the unsigned byte it arrived in: -50 dBm as 206.\<close>

lemma rssi_value:
  assumes "sc_ok w" "index < radio_amount w" "nl_results w = []" "nl_in w = [NlFinish, NlStation m, NlFinish]"
    and "sm_info m = Some True" "sm_signal m = Some s" "c_int (int (sm_ifindex m)) = ifindex w ! index"
    and "ifindex w ! 0 \<noteq> 0"
  shows "\<exists>w'. wifi_hal_get_rssi index w = Ret (int (s mod 256), w')"
proof -
  have l: "index < 2" "length (ifindex w) = 2" "length (signal w) = 2" "length (txrate w) = 2" "length (rxrate w) = 2"
    "radio_amount w \<le> 2"
    using sc_ok_amount [OF assms(1)] assms(1,2) by (simp_all add: sc_ok_def WIFI_RADIO_MAX_def)
  obtain w2 where w2: "wifi_hal_get_interface w = Ret (0, w2)" "w2 = w\<lparr>nl_out := nl_out w @ [GetInterface], nl_in := [NlStation m, NlFinish]\<rparr>"
    using assms(3,4,8) by (simp add: wifi_hal_get_interface_def nl_send_def)
  let ?w3 = "w2\<lparr>nl_out := nl_out w2 @ [GetStation (ifindex w ! index)]\<rparr>"
  have w3: "sc_ok ?w3" using assms(1) w2(2) by (simp add: sc_ok_def)
  from connection_info_ok [OF w3, of m] obtain w4 where w4: "wifi_hal_connection_info_hdlr m ?w3 = Ret w4" "sc_ok w4" by blast
  have "signal w4 ! index = int (s mod 256)"
    using w4(1) assms(2,5,6,7) l w2(2)
    by (auto simp: wifi_hal_connection_info_hdlr_def Let_def outcome_simps store_opt_def set_matching_def split: if_splits)
  moreover have "wifi_hal_get_stainfo index w2 = Ret (0, w4\<lparr>nl_in := []\<rparr>)"
    using l w2(2) assms(3) w4(1) by (simp add: wifi_hal_get_stainfo_def nl_send_def)
  moreover have "index < length (signal w4)" using w4(2) l(1) by (simp add: sc_ok_def WIFI_RADIO_MAX_def)
  ultimately show ?thesis using w2(1) by (simp add: wifi_hal_get_rssi_def after_queries_def)
qed

lemma nl_set_ack:
  "nl_results w = [] \<Longrightarrow> nl_in w = NlAck # r \<Longrightarrow> nl_set req w = Ret (0, w\<lparr>nl_in := r, nl_out := nl_out w @ [req]\<rparr>)"
  by (simp add: nl_set_def nl_send_def)

lemma recv_ack_errors: "set es \<subseteq> {NlError} \<Longrightarrow> recv_ack es w = Blocked"
  by (induction es) auto

lemma nl_set_errors: "nl_results w = [] \<Longrightarrow> set (nl_in w) \<subseteq> {NlError} \<Longrightarrow> nl_set req w = Blocked"
  by (simp add: nl_set_def nl_send_def recv_ack_errors)

text \<open>
  C39: an acknowledged setting returns 0 and has put its value into the request: the power in
  hundredths of dBm, the coverage class as the distance over 450 rounded up, the two letters of the
  country. A setting that the driver answers with an error never returns, whatever the comment of
  the callers about cards that do not support it; only a distance beyond 114750 m is refused.
\<close>

theorem radio_settings:
  assumes "sc_ok w" "i < WIFI_RADIO_MAX" "nl_results w = []" "phyname w ! i = show_int p" "0 \<le> p" "p < 2 ^ 31"
    and "\<bar>wc_tx_power c\<bar> \<le> 1000" "0 \<le> wc_distance c" "wc_distance c < 2 ^ 31 - 449"
  shows "(nl_in w = [NlAck] \<longrightarrow>
        wifi_hal_set_txpower i c w = Ret (0, w\<lparr>nl_in := [], nl_out := nl_out w @ [SetTxPower (nametoindex w (ifname w ! i)) (wc_tx_power c * 100)]\<rparr>)
      \<and> wifi_hal_set_country i c w = Ret (0, w\<lparr>nl_in := [], nl_out := nl_out w @ [ReqSetReg (country_str c)]\<rparr>)
      \<and> (wc_distance c \<le> 114750 \<longrightarrow>
          wifi_hal_set_distance i c w = Ret (0, w\<lparr>nl_in := [], nl_out := nl_out w @ [SetCoverage p ((wc_distance c + 449) div 450)]\<rparr>)))
    \<and> (wc_distance c > 114750 \<longrightarrow> wifi_hal_set_distance i c w = Ret (-1, w))
    \<and> (set (nl_in w) \<subseteq> {NlError} \<longrightarrow> wifi_hal_set_txpower i c w = Blocked \<and> wifi_hal_set_country i c w = Blocked
      \<and> (wc_distance c \<le> 114750 \<longrightarrow> wifi_hal_set_distance i c w = Blocked))"
proof -
  have l: "i < length (ifname w)" "i < length (phyname w)" using assms(1,2) by (simp_all add: sc_ok_def)
  have n: "strtol 10 (phyname w ! i) = (p, False)"
    using strtol_show_int [of "[]" p] assms(4-6) by (simp add: no_digit_first_def)
  have p: "c_int p = p" using assms(5,6) by (simp add: c_int_id)
  have t: "tx_power_level (wc_tx_power c) = Ret (wc_tx_power c * 100)" using assms(7) by (simp add: tx_power_level_def)
  note d = coverage_class_exact [OF assms(8,9)]
  show ?thesis
    using l n p t d assms(3) nl_set_ack nl_set_errors
    by (simp add: wifi_hal_set_txpower_def wifi_hal_set_country_def wifi_hal_set_distance_def)
qed

theorem radio_settings_witness:
  "wifi_hal_set_distance 0 (wifi_config_zero\<lparr>wc_distance := 3000\<rparr>) (wifi_ctx0 [NlAck]\<lparr>phyname := [show_int 0, []]\<rparr>)
    = Ret (0, wifi_ctx0 [NlAck]\<lparr>phyname := [show_int 0, []], nl_in := [], nl_out := [] @ [SetCoverage 0 7]\<rparr>)"
  using radio_settings [of "wifi_ctx0 [NlAck]\<lparr>phyname := [show_int 0, []]\<rparr>" 0 0 "wifi_config_zero\<lparr>wc_distance := 3000\<rparr>"]
  by (simp add: wifi_ctx0_def sc_ok_def WIFI_RADIO_MAX_def RADIO_IFNAME_SIZE_def wifi_config_zero_def show_int_def show_nat.simps)

end
