(* ===== verification/WifiCmd.thy ===== *)
theory WifiCmd
  imports WifiNl
begin

text \<open>
  Requests to wpa_supplicant and the debug file system: the sending functions, scans and the
  bring-up sequences of src/src/wifi/wifi_hal_main.cpp, and src/src/wifi/wifi_stats.cpp.
\<close>

section \<open>The debug file system\<close>

definition wifi_get_dbgfs_basedir :: "wifi_driver_version \<Rightarrow> string" where
  "wifi_get_dbgfs_basedir v = (case v of WIFI_DRIVER_ATH9K \<Rightarrow> ''ath9k'' | WIFI_DRIVER_ATH10K \<Rightarrow> ''ath10k''
     | WIFI_DRIVER_ATH11K \<Rightarrow> ''ath11k'' | _ \<Rightarrow> [])"

definition phy_dir :: "string \<Rightarrow> string \<Rightarrow> string" where
  "phy_dir phy d = take 63 (''/sys/kernel/debug/ieee80211/'' @ ''phy'' @ phy @ d)"

definition wifi_get_driver_version :: "nat \<Rightarrow> wifi_ctx \<Rightarrow> wifi_driver_version option" where
  "wifi_get_driver_version index w = (let phy = phyname w ! index in
     if dir_exists w (phy_dir phy ''/ath9k/'') then Some WIFI_DRIVER_ATH9K
     else if dir_exists w (phy_dir phy ''/ath10k/'') then Some WIFI_DRIVER_ATH10K
     else if dir_exists w (phy_dir phy ''/ath11k/'') then Some WIFI_DRIVER_ATH11K
     else if dir_exists w ''sys/kernel/debug/brcmfmac/'' then Some WIFI_DRIVER_BRCM_FMAC
     else None)"

definition EACCES :: int where "EACCES = 13"

definition wifi_debugfs_init :: "nat \<Rightarrow> wifi_ctx \<Rightarrow> int \<times> wifi_ctx" where
  "wifi_debugfs_init index w = (case wifi_get_driver_version index w of
       None \<Rightarrow> (- EACCES, w\<lparr>debugfs_root := (debugfs_root w)[index := []]\<rparr>)
     | Some v \<Rightarrow>
         let root = ''/sys/kernel/debug/ieee80211/'' @ ''phy'' @ phyname w ! index @ ''/''
               @ wifi_get_dbgfs_basedir v @ ''/'';
             w1 = w\<lparr>drv_version := (drv_version w)[index := v]\<rparr> in
         if dir_exists w root then (0, w1\<lparr>debugfs_root := (debugfs_root w1)[index := root]\<rparr>)
         else (- EACCES, w1\<lparr>debugfs_root := (debugfs_root w1)[index := []]\<rparr>))"

definition debugfs_path :: "string \<Rightarrow> nat \<Rightarrow> wifi_ctx \<Rightarrow> string" where
  "debugfs_path filename index w = debugfs_root w ! index @ ''/'' @ filename"

definition wifi_debugfs_open :: "string \<Rightarrow> bool \<Rightarrow> nat \<Rightarrow> wifi_ctx \<Rightarrow> bool" where
  "wifi_debugfs_open filename writing index w = (let p = debugfs_path filename index w in
     if writing then can_write w p else file_text w p \<noteq> None)"

text \<open>The bytes that end up in the buffer, with the terminator.\<close>

definition wifi_debugfs_read :: "string \<Rightarrow> nat \<Rightarrow> nat \<Rightarrow> wifi_ctx \<Rightarrow> int \<times> string" where
  "wifi_debugfs_read filename buf_size index w =
     (if \<not> wifi_debugfs_open filename False index w then (-1, [])
      else (case file_text w (debugfs_path filename index w) of
          Some t \<Rightarrow> (0, take (buf_size - 1) t @ [NUL]) | None \<Rightarrow> (-1, [])))"

definition wifi_debugfs_write :: "string \<Rightarrow> string \<Rightarrow> nat \<Rightarrow> wifi_ctx \<Rightarrow> int \<times> wifi_ctx" where
  "wifi_debugfs_write filename cmd index w =
     (if \<not> wifi_debugfs_open filename True index w then (-1, w)
      else (0, w\<lparr>files_written := files_written w @ [(debugfs_path filename index w, cmd)]\<rparr>))"

text \<open>\<open>getline\<close> on the stream that could not be opened.\<close>

definition wifi_debugfs_search :: "string \<Rightarrow> string \<Rightarrow> nat \<Rightarrow> wifi_ctx \<Rightarrow> int outcome" where
  "wifi_debugfs_search filename substring index w =
     (if wifi_debugfs_open filename False index w then Ret (-1) else Fault NullDeref)"

definition wifi_get_fw_stats :: "nat \<Rightarrow> nat \<Rightarrow> wifi_ctx \<Rightarrow> int \<times> string" where
  "wifi_get_fw_stats buf_size index w = wifi_debugfs_read ''fw_stats'' buf_size index w"

definition wifi_hal_get_fw_stats :: "nat \<Rightarrow> nat \<Rightarrow> wifi_ctx \<Rightarrow> int \<times> string" where
  "wifi_hal_get_fw_stats buf_size index w =
     (case wifi_get_fw_stats buf_size index w of (ret, s) \<Rightarrow> (if ret \<noteq> 0 then -1 else 0, s))"

section \<open>Sending a command\<close>

type_synonym reply_buf = "mem \<times> nat"

text \<open>
  The buffer and \<open>*resp_size\<close> go through every call: a reply is cut to the length of the one
  before it, and its bytes lie over those of the one before it. The debugging build strips the
  newline of the reply.
\<close>

definition strip_reply :: "mem \<Rightarrow> nat \<Rightarrow> mem" where
  "strip_reply buf n = (let len = length (arr_str (take n buf)) in
     if len > 0 \<and> buf ! (len - 1) = LF then buf[len - 1 := NUL] else buf)"

definition reply_check :: "int \<Rightarrow> mem \<Rightarrow> nat \<Rightarrow> int \<times> mem" where
  "reply_check ret buf len = (if ret = -2 then (-2, buf)
     else if ret < 0 \<or> starts_with (arr_str buf) ''FAIL'' then (-1, buf)
     else (0, strip_reply buf len))"

definition send_on :: "(wpa_ctrl_ctx \<Rightarrow> wpa_ctrl option) \<Rightarrow> (wpa_ctrl \<Rightarrow> wpa_ctrl_ctx \<Rightarrow> wpa_ctrl_ctx) \<Rightarrow> nat \<Rightarrow> string
    \<Rightarrow> reply_buf \<Rightarrow> wifi_ctx \<Rightarrow> (int \<times> reply_buf \<times> wifi_ctx) outcome" where
  "send_on get put index cmd b w = obind (elem (wpa_ctx w) index) (\<lambda>x. case get x of
       None \<Rightarrow> Fault NullDeref
     | Some c \<Rightarrow> if ctrl_local c \<in> set (freed w) then Fault UseAfterFree
         else obind (wpa_ctrl_request c cmd (fst b) (snd b)) (\<lambda>(ret, buf, len, c').
         case reply_check ret buf len of (r, buf') \<Rightarrow>
           Ret (r, (buf', len), w\<lparr>wpa_ctx := (wpa_ctx w)[index := put c' x]\<rparr>)))"

definition wifi_hal_send_wpa_command :: "nat \<Rightarrow> string \<Rightarrow> reply_buf \<Rightarrow> wifi_ctx \<Rightarrow> (int \<times> reply_buf \<times> wifi_ctx) outcome" where
  "wifi_hal_send_wpa_command index cmd b w = obind (elem (wpa_ctx w) index) (\<lambda>x.
     if wx_monitor x = None then Ret (-1, b, w)
     else send_on wx_ctrl (\<lambda>c x. x\<lparr>wx_ctrl := Some c\<rparr>) index cmd b w)"

definition wifi_hal_send_wpa_mesh_command :: "nat \<Rightarrow> string \<Rightarrow> reply_buf \<Rightarrow> wifi_ctx \<Rightarrow> (int \<times> reply_buf \<times> wifi_ctx) outcome" where
  "wifi_hal_send_wpa_mesh_command index cmd b w = obind (elem (wpa_ctx w) index) (\<lambda>x.
     if wx_mesh_ctrl x = None then Ret (-1, b, w)
     else send_on wx_mesh_ctrl (\<lambda>c x. x\<lparr>wx_mesh_ctrl := Some c\<rparr>) index cmd b w)"

definition resp_buf0 :: reply_buf where
  "resp_buf0 = (replicate 2048 NUL, 2047)"

section \<open>Scans\<close>

text \<open>The buffers of the scans are not cleared: \<open>junk\<close> is what they hold.\<close>

definition wifi_hal_trigger_scan :: "mem \<Rightarrow> nat \<Rightarrow> wifi_ctx \<Rightarrow> (int \<times> wifi_ctx) outcome" where
  "wifi_hal_trigger_scan junk index w =
     obind (wifi_hal_send_wpa_command index ''SCAN'' (junk, 2047) w) (\<lambda>(_, _, w'). Ret (0, w'))"

definition wifi_hal_get_scan_results :: "mem \<Rightarrow> mem \<Rightarrow> nat \<Rightarrow> wifi_ctx \<Rightarrow> (int \<times> string \<times> wifi_ctx) outcome" where
  "wifi_hal_get_scan_results junk junk4 index w = obind (wifi_hal_trigger_scan junk index w) (\<lambda>(_, w1).
     obind (wifi_hal_send_wpa_command index ''SCAN_RESULTS'' (junk4, 4095) w1) (\<lambda>(_, (buf, len), w2).
       Ret (0, take len buf, w2)))"

text \<open>\<open>filename\<close> is what \<open>strftime\<close> makes of the time.\<close>

definition ENOTSUP :: int where "ENOTSUP = 95"

definition spectral_cmd :: "string \<Rightarrow> string \<Rightarrow> string \<Rightarrow> string" where
  "spectral_cmd phy drv filename = ''cat /sys/kernel/debug/ieee80211/phy'' @ phy @ ''/'' @ drv @ ''/spectral_scan0 > '' @ filename"

definition spectral_run :: "string list \<Rightarrow> string \<Rightarrow> string \<Rightarrow> mem \<Rightarrow> nat \<Rightarrow> wifi_ctx \<Rightarrow> (int \<times> wifi_ctx) outcome" where
  "spectral_run starts drv filename junk index w =
     (case foldl (\<lambda>(ret, v) s. if ret \<noteq> 0 then (ret, v) else wifi_debugfs_write ''spectral_scan_ctl'' s index v) (0, w) starts of
        (ret, w1) \<Rightarrow> if ret \<noteq> 0 then Ret (ret, w1)
        else obind (wifi_hal_trigger_scan junk index w1) (\<lambda>(_, w2).
          case wifi_debugfs_write ''spectral_scan_ctl'' ''disable'' index w2 of (ret, w3) \<Rightarrow>
            if ret \<noteq> 0 then Ret (ret, w3)
            else let cmd = spectral_cmd (phyname w3 ! index) drv filename in
              Ret (int (length cmd), w3\<lparr>shell_cmds := shell_cmds w3 @ [cmd]\<rparr>)))"

definition wifi_capture_spectral_scan :: "string \<Rightarrow> mem \<Rightarrow> nat \<Rightarrow> wifi_ctx \<Rightarrow> (int \<times> wifi_ctx) outcome" where
  "wifi_capture_spectral_scan filename junk index w =
     (if drv_version w ! index = WIFI_DRIVER_ATH9K then spectral_run [''chanscan''] ''ath9k'' filename junk index w
      else if drv_version w ! index = WIFI_DRIVER_ATH10K
      then spectral_run [''background'', ''trigger''] ''ath10k'' filename junk index w
      else Ret (- ENOTSUP, w))"

definition wifi_hal_capture_spectral_scan :: "string \<Rightarrow> mem \<Rightarrow> nat \<Rightarrow> wifi_ctx \<Rightarrow> (int \<times> wifi_ctx) outcome" where
  "wifi_hal_capture_spectral_scan filename junk index w =
     obind (wifi_capture_spectral_scan filename junk index w) (\<lambda>(ret, w'). Ret (if ret \<noteq> 0 then -1 else 0, w'))"

section \<open>Bringing a network up\<close>

text \<open>The network id from the reply: copied when it is shorter than five bytes, without its newline.\<close>

definition nw_id_of :: "mem \<Rightarrow> string" where
  "nw_id_of buf = (let s = arr_str buf in
     if length s < 5 then (if s \<noteq> [] \<and> last s = LF then butlast s else s) else [])"

text \<open>The settings of the card; each failure is only reported.\<close>

definition radio_params :: "nat \<Rightarrow> wifi_config \<Rightarrow> wifi_ctx \<Rightarrow> wifi_ctx outcome" where
  "radio_params index config w =
     (case wifi_debugfs_write ''chanbw'' (bw_str config) index w of (_, w1) \<Rightarrow>
      obind (wifi_hal_set_txpower index config w1) (\<lambda>(_, w2).
      obind (wifi_hal_set_distance index config w2) (\<lambda>(_, w3).
      obind (wifi_hal_set_country index config w3) (\<lambda>(_, w4). Ret w4))))"

type_synonym sender = "nat \<Rightarrow> string \<Rightarrow> reply_buf \<Rightarrow> wifi_ctx \<Rightarrow> (int \<times> reply_buf \<times> wifi_ctx) outcome"

definition is_ok :: "mem \<Rightarrow> bool" where
  "is_ok buf = starts_with (arr_str buf) ''OK''"

text \<open>A series of commands each of which has to be answered with OK; False at the first that is not.\<close>

fun send_steps :: "sender \<Rightarrow> nat \<Rightarrow> string list \<Rightarrow> reply_buf \<Rightarrow> wifi_ctx \<Rightarrow> (bool \<times> reply_buf \<times> wifi_ctx) outcome" where
  "send_steps send index [] b w = Ret (True, b, w)"
| "send_steps send index (c # cs) b w = obind (send index c b w) (\<lambda>(ret, b', w').
     if ret \<noteq> 0 \<or> \<not> is_ok (fst b') then Ret (False, b', w') else send_steps send index cs b' w')"

definition quoted :: "string \<Rightarrow> string" where
  "quoted s = [QUOTE] @ s @ [QUOTE]"

definition wifi_hal_connect_ap :: "nat \<Rightarrow> wifi_ctx \<Rightarrow> (int \<times> wifi_ctx) outcome" where
  "wifi_hal_connect_ap index w = obind (elem (wifi_configs w) index) (\<lambda>config.
     let send = wifi_hal_send_wpa_command index in
     obind (send ''REMOVE_NETWORK all'' resp_buf0 w) (\<lambda>(ret, b1, w1).
     if ret < 0 then Ret (ret, w1) else
     obind (send ''ADD_NETWORK'' b1 w1) (\<lambda>(ret, b2, w2).
     if ret < 0 then Ret (ret, w2) else
     let nw_id = nw_id_of (fst b2) in
     obind (radio_params index config w2) (\<lambda>w3.
     obind (send (''SET_NETWORK '' @ nw_id @ '' ssid '' @ quoted (ssid_str config)) b2 w3) (\<lambda>(ret, b4, w4).
     if ret \<noteq> 0 \<or> \<not> is_ok (fst b4) then Ret (ret, w4) else
     obind (send (''SET_NETWORK '' @ nw_id @ '' psk '' @ quoted (key_str config)) b4 w4) (\<lambda>(_, b5, w5).
     if \<not> is_ok (fst b5) then Ret (-1, w5) else
     obind (send (''ENABLE_NETWORK '' @ nw_id) b5 w5) (\<lambda>(_, _, w6). Ret (0, w6))))))))"

definition wifi_hal_create_ap :: "nat \<Rightarrow> wifi_ctx \<Rightarrow> (int \<times> wifi_ctx) outcome" where
  "wifi_hal_create_ap index w = obind (elem (wifi_configs w) index) (\<lambda>config.
     let send = wifi_hal_send_wpa_command in
     obind (send index ''REMOVE_NETWORK all'' resp_buf0 w) (\<lambda>(ret, b1, w1).
     if ret < 0 then Ret (ret, w1) else
     obind (send index ''ADD_NETWORK'' b1 w1) (\<lambda>(ret, b2, w2).
     if ret < 0 then Ret (ret, w2) else
     let set = ''SET_NETWORK '' @ nw_id_of (fst b2) in
     obind (send_steps send index [set @ '' mode 2''] b2 w2) (\<lambda>(ok, b3, w3).
     if \<not> ok then Ret (-1, w3) else
     obind (radio_params index config w3) (\<lambda>w4.
     obind (send_steps send index [set @ '' ssid '' @ quoted (ssid_str config), set @ '' frequency '' @ freq_str config,
         set @ '' key_mgmt WPA-PSK'', set @ '' psk '' @ quoted (key_str config),
         ''ENABLE_NETWORK '' @ nw_id_of (fst b2)] b3 w4) (\<lambda>(ok, _, w5).
       Ret (if ok then 0 else -1, w5)))))))"

text \<open>\<open>snprintf(sock_path + len, ..)\<close> behind the directory.\<close>

definition WIFI_HAL_WPA_SOCK_PATH :: string where "WIFI_HAL_WPA_SOCK_PATH = ''/var/run/wpa_supplicant/''"

definition sock_path :: "nat \<Rightarrow> wifi_ctx \<Rightarrow> string" where
  "sock_path index w = WIFI_HAL_WPA_SOCK_PATH @ ifname w ! index"

text \<open>A new control connection; the system's answer and the peer's messages are next in the script.\<close>

definition open_ctrl :: "string \<Rightarrow> wifi_ctx \<Rightarrow> (wpa_ctrl option \<times> wifi_ctx) outcome" where
  "open_ctrl path w = (case new_ctrls w of
       [] \<Rightarrow> Blocked
     | (env, evs) # r \<Rightarrow> (case wpa_ctrl_open2 (Some path) None (ctrl_counter w) env of (c, n, l) \<Rightarrow>
         Ret (map_option (\<lambda>c. c\<lparr>sock_in := evs\<rparr>) c,
              w\<lparr>new_ctrls := r, ctrl_counter := n, sys_log := sys_log w @ l\<rparr>)))"

definition put_wpa :: "nat \<Rightarrow> (wpa_ctrl_ctx \<Rightarrow> wpa_ctrl_ctx) \<Rightarrow> wifi_ctx \<Rightarrow> wifi_ctx" where
  "put_wpa index f w = w\<lparr>wpa_ctx := (wpa_ctx w)[index := f (wpa_ctx w ! index)]\<rparr>"

definition wifi_hal_wpa_mesh_attach :: "nat \<Rightarrow> wifi_ctx \<Rightarrow> (int \<times> wifi_ctx) outcome" where
  "wifi_hal_wpa_mesh_attach index w = obind (open_ctrl (sock_path index w) w) (\<lambda>(c, w1).
     Ret (if c = None then -1 else 0, put_wpa index (\<lambda>x. x\<lparr>wx_mesh_ctrl := c\<rparr>) w1))"

definition wifi_hal_join_mesh :: "nat \<Rightarrow> wifi_ctx \<Rightarrow> (int \<times> wifi_ctx) outcome" where
  "wifi_hal_join_mesh index w = obind (elem (wifi_configs w) index) (\<lambda>config.
     let send = wifi_hal_send_wpa_mesh_command in
     obind (wifi_hal_wpa_mesh_attach index w) (\<lambda>(ret, w0).
     if ret \<noteq> 0 then Ret (-1, w0) else
     obind (wifi_hal_send_wpa_command index ''REMOVE_NETWORK all'' resp_buf0 w0) (\<lambda>(_, b1, w1).
     obind (send index ''ADD_NETWORK'' b1 w1) (\<lambda>(ret, b2, w2).
     if ret < 0 then Ret (-1, w2) else
     let set = ''SET_NETWORK '' @ nw_id_of (fst b2) in
     obind (send_steps send index [set @ '' mode 5''] b2 w2) (\<lambda>(ok, b3, w3).
     if \<not> ok then Ret (-1, w3) else
     obind (radio_params index config w3) (\<lambda>w4.
     obind (send_steps send index [set @ '' ssid '' @ quoted (ssid_str config), set @ '' frequency '' @ freq_str config,
         set @ '' key_mgmt '' @ enc_str config, set @ '' psk '' @ quoted (key_str config),
         ''MESH_GROUP_ADD '' @ nw_id_of (fst b2)] b3 w4) (\<lambda>(ok, _, w5).
       Ret (if ok then 0 else -1, w5))))))))"

section \<open>Lemmas\<close>

text \<open>A scan that has been captured is reported as a failure, like one that has not: the length of the
  command is taken for an error.\<close>

lemma spectral_run_fails:
  assumes "spectral_run starts drv filename junk index w = Ret (ret, w')"
  shows "ret \<noteq> 0"
proof
  assume r: "ret = 0"
  obtain a w1 where f: "foldl (\<lambda>(ret, v) s. if ret \<noteq> 0 then (ret, v) else wifi_debugfs_write ''spectral_scan_ctl'' s index v) (0, w) starts = (a, w1)"
    by (rule prod.exhaust)
  note e = assms [unfolded spectral_run_def f prod.case]
  from e r have a: "a = 0" by (cases "a = 0") simp_all
  obtain x w2 where t: "wifi_hal_trigger_scan junk index w1 = Ret (x, w2)"
    using e a by (cases "wifi_hal_trigger_scan junk index w1") auto
  obtain b w3 where d: "wifi_debugfs_write ''spectral_scan_ctl'' ''disable'' index w2 = (b, w3)" by (rule prod.exhaust)
  show False
  proof (cases "b = 0")
    case True
    with e a t d r show False by (simp add: spectral_cmd_def Let_def)
  next
    case False
    with e a t d r show False by simp
  qed
qed

lemma capture_reports_failure:
  "wifi_hal_capture_spectral_scan filename junk index w = Ret (ret, w') \<Longrightarrow> ret = -1"
  using spectral_run_fails
  by (fastforce simp: wifi_hal_capture_spectral_scan_def wifi_capture_spectral_scan_def ENOTSUP_def outcome_simps split: if_splits)

end
