(* ===== verification/WifiBringUp.thy ===== *)
theory WifiBringUp
  imports WifiCmd
begin

text \<open>
  What the bring-up sequences of src/src/wifi/wifi_hal_main.cpp ask of wpa_supplicant and what they
  return: the contract of the two sending functions as a locale with both as its instances, and the
  access point, the client and the mesh on top of it.
\<close>

section \<open>Replies\<close>

text \<open>The connection of a radio that a sender uses, and its update.\<close>

definition cmd_ctl :: "nat \<Rightarrow> wifi_ctx \<Rightarrow> wpa_ctrl option" where
  "cmd_ctl i w = (if i < length (wpa_ctx w) \<and> wx_monitor (wpa_ctx w ! i) \<noteq> None then wx_ctrl (wpa_ctx w ! i) else None)"

definition cmd_upd :: "nat \<Rightarrow> wpa_ctrl \<Rightarrow> wifi_ctx \<Rightarrow> wifi_ctx" where
  "cmd_upd i c w = w\<lparr>wpa_ctx := (wpa_ctx w)[i := (wpa_ctx w ! i)\<lparr>wx_ctrl := Some c\<rparr>]\<rparr>"

definition mesh_ctl :: "nat \<Rightarrow> wifi_ctx \<Rightarrow> wpa_ctrl option" where
  "mesh_ctl i w = (if i < length (wpa_ctx w) then wx_mesh_ctrl (wpa_ctx w ! i) else None)"

definition mesh_upd :: "nat \<Rightarrow> wpa_ctrl \<Rightarrow> wifi_ctx \<Rightarrow> wifi_ctx" where
  "mesh_upd i c w = w\<lparr>wpa_ctx := (wpa_ctx w)[i := (wpa_ctx w ! i)\<lparr>wx_mesh_ctrl := Some c\<rparr>]\<rparr>"

definition live :: "wpa_ctrl \<Rightarrow> wifi_ctx \<Rightarrow> bool" where
  "live c w = (sends c = [] \<and> ctrl_local c \<notin> set (freed w))"

definition answered :: "string \<Rightarrow> sock_ev list \<Rightarrow> wpa_ctrl \<Rightarrow> wpa_ctrl" where
  "answered cmd r c = c\<lparr>sock_in := r, requests := requests c @ [cmd]\<rparr>"

definition checked :: "string \<Rightarrow> mem \<Rightarrow> nat \<Rightarrow> int \<times> mem" where
  "checked bs buf len = reply_check 0 (over_prefix (take len bs) buf) (length (take len bs))"

lemma wpa_request_at_once:
  assumes "sends c = []" "sock_in c = Datagram bs # r" "\<not> is_unsolicited (take n bs)" "n \<le> length m"
  shows "wpa_ctrl_request c cmd m n = Ret (0, over_prefix (take n bs) m, length (take n bs), answered cmd r c)"
  using assms await_reply_at_once [OF assms(4,3)]
  by (simp add: wpa_ctrl_request_def answered_def del: length_take)

lemma send_wpa_reply:
  assumes "cmd_ctl i w = Some c" "live c w" "sock_in c = Datagram bs # r" "\<not> is_unsolicited (take len bs)" "len \<le> length buf"
  shows "wifi_hal_send_wpa_command i cmd (buf, len) w
    = Ret (fst (checked bs buf len), (snd (checked bs buf len), length (take len bs)), cmd_upd i (answered cmd r c) w)"
  using assms wpa_request_at_once [of c bs r len buf cmd]
  by (auto simp: wifi_hal_send_wpa_command_def send_on_def cmd_ctl_def cmd_upd_def live_def checked_def
      simp del: length_take split: if_splits prod.splits)

lemma send_mesh_reply:
  assumes "mesh_ctl i w = Some c" "live c w" "sock_in c = Datagram bs # r" "\<not> is_unsolicited (take len bs)" "len \<le> length buf"
  shows "wifi_hal_send_wpa_mesh_command i cmd (buf, len) w
    = Ret (fst (checked bs buf len), (snd (checked bs buf len), length (take len bs)), mesh_upd i (answered cmd r c) w)"
  using assms wpa_request_at_once [of c bs r len buf cmd]
  by (auto simp: wifi_hal_send_wpa_mesh_command_def send_on_def mesh_ctl_def mesh_upd_def live_def checked_def
      simp del: length_take split: if_splits prod.splits)

text \<open>The two answers of wpa_supplicant to a setting.\<close>

definition answer :: "bool \<Rightarrow> string" where
  "answer ok = (if ok then ''OK'' else ''FAIL'') @ [LF]"

lemma arr_str_Nil [simp]: "arr_str [] = []"
  by (simp add: arr_str_def)

lemma arr_str_Cons [simp]: "arr_str (c # s) = (if c = NUL then [] else c # arr_str s)"
  by (simp add: arr_str_def)

lemma length_strip_reply [simp]: "length (strip_reply m n) = length m"
  by (simp add: strip_reply_def Let_def)

lemma length_checked [simp]: "len \<le> length buf \<Longrightarrow> length (snd (checked bs buf len)) = length buf"
  by (simp add: checked_def reply_check_def)

lemma strip_keeps_OK: "starts_with m ''OK'' \<Longrightarrow> starts_with (strip_reply m n) ''OK''"
proof -
  assume "starts_with m ''OK''"
  then obtain t where m: "m = CHR ''O'' # CHR ''K'' # t" by (auto simp: starts_with_iff)
  show ?thesis
  proof (cases "n \<le> 2")
    case True
    then have "n = 0 \<or> n = 1 \<or> n = 2" by auto
    then show ?thesis using m by (auto simp: strip_reply_def Let_def starts_with_def arr_str_def)
  next
    case False
    then obtain k where n: "n = Suc (Suc k)" by (metis add_2_eq_Suc le_add_diff_inverse nat_le_linear)
    have "arr_str (take n m) = CHR ''O'' # CHR ''K'' # arr_str (take k t)" by (simp add: m n)
    then show ?thesis by (auto simp: strip_reply_def Let_def m starts_with_def split: nat.splits)
  qed
qed

lemma is_ok_iff: "is_ok m \<longleftrightarrow> starts_with m ''OK''"
  by (cases m; cases "tl m") (auto simp: is_ok_def starts_with_def arr_str_def)

lemma update_OK_back: "starts_with (m[k := NUL]) ''OK'' \<Longrightarrow> starts_with m ''OK''"
  by (cases m rule: remdups_adj.cases; cases k rule: nat.exhaust; cases "k - 1")
    (auto simp: starts_with_def split: nat.splits)

lemma strip_OK_back: "starts_with (strip_reply m n) ''OK'' \<Longrightarrow> starts_with m ''OK''"
  by (auto simp: strip_reply_def Let_def update_OK_back split: if_splits)

lemma checked_answer:
  assumes "2 \<le> len" "len \<le> length buf"
  shows "(fst (checked (answer ok) buf len) = 0 \<and> is_ok (snd (checked (answer ok) buf len))) = ok"
proof -
  obtain k where len: "len = Suc (Suc k)" using assms(1) by (metis add_2_eq_Suc le_Suc_ex)
  show ?thesis
  proof (cases ok)
    case True
    let ?m = "over_prefix (take len (answer True)) buf"
    have "starts_with ?m ''OK''" by (simp add: over_prefix_def answer_def len starts_with_def)
    moreover have "\<not> starts_with (arr_str ?m) ''FAIL''"
      by (simp add: over_prefix_def answer_def len starts_with_def)
    ultimately show ?thesis using True strip_keeps_OK [of ?m] by (simp add: checked_def reply_check_def is_ok_iff)
  next
    case False
    let ?m = "over_prefix (take len (answer False)) buf"
    have h: "\<exists>t. ?m = CHR ''F'' # CHR ''A'' # t" by (simp add: over_prefix_def answer_def len)
    then have "\<not> starts_with ?m ''OK''" by (auto simp: starts_with_def)
    then have "\<not> is_ok ?m" "\<not> is_ok (strip_reply ?m n)" for n
      using strip_OK_back by (auto simp: is_ok_iff)
    then show ?thesis using False by (simp add: checked_def reply_check_def)
  qed
qed

lemma answer_solicited [simp]: "\<not> is_unsolicited (take n (answer ok))"
proof -
  have "take 7 (take n (answer ok)) \<noteq> ''IFNAME=''" by (cases n) (auto simp: answer_def)
  then show ?thesis by (cases n) (auto simp: is_unsolicited_def answer_def)
qed

text \<open>How many commands are asked before a refusal stops the series.\<close>

fun asked :: "bool list \<Rightarrow> nat" where
  "asked [] = 0"
| "asked (b # bs) = Suc (if b then asked bs else 0)"

lemma length_answer [simp]: "length (answer ok) = (if ok then 3 else 5)"
  by (simp add: answer_def)

section \<open>The settings of the card\<close>

definition set_params :: "nat \<Rightarrow> wifi_config \<Rightarrow> wifi_ctx \<Rightarrow> wifi_ctx" where
  "set_params i cfg w = w\<lparr>nl_in := drop 3 (nl_in w),
     nl_out := nl_out w @ [SetTxPower (nametoindex w (ifname w ! i)) (wc_tx_power cfg * 100),
       SetCoverage (c_int (fst (strtol 10 (phyname w ! i)))) ((wc_distance cfg + 449) div 450), ReqSetReg (country_str cfg)],
     files_written := files_written w @ (if can_write w (debugfs_path ''chanbw'' i w)
       then [(debugfs_path ''chanbw'' i w, bw_str cfg)] else [])\<rparr>"

definition card_ready :: "nat \<Rightarrow> wifi_config \<Rightarrow> wifi_ctx \<Rightarrow> bool" where
  "card_ready i cfg w = (i < length (ifname w) \<and> i < length (phyname w) \<and> nl_results w = [] \<and> take 3 (nl_in w) = replicate 3 NlAck
     \<and> snd (strtol 10 (phyname w ! i)) = False \<and> \<bar>wc_tx_power cfg\<bar> \<le> 1000
     \<and> 0 \<le> wc_distance cfg \<and> wc_distance cfg \<le> 114750)"

lemma radio_params_ok:
  assumes "card_ready i cfg w"
  shows "radio_params i cfg w = Ret (set_params i cfg w)"
proof -
  obtain v where n: "strtol 10 (phyname w ! i) = (v, False)"
    using assms by (cases "strtol 10 (phyname w ! i)") (auto simp: card_ready_def)
  have t: "tx_power_level (wc_tx_power cfg) = Ret (wc_tx_power cfg * 100)" using assms by (auto simp: tx_power_level_def card_ready_def abs_le_iff)
  have d: "coverage_class (wc_distance cfg) = Ret (Some ((wc_distance cfg + 449) div 450))"
    using assms coverage_class_exact [of "wc_distance cfg"] by (simp add: card_ready_def)
  have r: "nl_in w = NlAck # NlAck # NlAck # drop 3 (nl_in w)"
    using assms append_take_drop_id [of 3 "nl_in w"] by (simp add: card_ready_def numeral_3_eq_3)
  obtain ret w1 where f: "wifi_debugfs_write ''chanbw'' (bw_str cfg) i w = (ret, w1)" by (metis surj_pair)
  have w1: "w1 = w\<lparr>files_written := files_written w @ (if can_write w (debugfs_path ''chanbw'' i w)
      then [(debugfs_path ''chanbw'' i w, bw_str cfg)] else [])\<rparr>"
    using f by (auto simp: wifi_debugfs_write_def wifi_debugfs_open_def Let_def split: if_splits)
  have l: "i < length (ifname w)" "i < length (phyname w)" "nl_results w = []" using assms by (simp_all add: card_ready_def)
  show ?thesis using l n t d r f
    by (simp add: radio_params_def wifi_hal_set_txpower_def wifi_hal_set_distance_def wifi_hal_set_country_def
        nl_set_ack w1 set_params_def)
qed

definition card_requests :: "nat \<Rightarrow> wifi_config \<Rightarrow> wifi_ctx \<Rightarrow> nl_req list" where
  "card_requests i cfg w = [SetTxPower (nametoindex w (ifname w ! i)) (wc_tx_power cfg * 100),
     SetCoverage (c_int (fst (strtol 10 (phyname w ! i)))) ((wc_distance cfg + 449) div 450), ReqSetReg (country_str cfg)]"

lemma params_frame [simp]:
  "cmd_ctl j (set_params i cfg w) = cmd_ctl j w" "mesh_ctl j (set_params i cfg w) = mesh_ctl j w"
  "live c (set_params i cfg w) = live c w"
  "nl_out (set_params i cfg w) = nl_out w @ card_requests i cfg w"
  by (auto simp: set_params_def cmd_ctl_def mesh_ctl_def live_def card_requests_def)

lemma upd_frame [simp]:
  "card_ready i cfg (cmd_upd j c w) = card_ready i cfg w" "card_requests i cfg (cmd_upd j c w) = card_requests i cfg w"
  "wifi_configs (cmd_upd j c w) = wifi_configs w" "nl_out (cmd_upd j c w) = nl_out w"
  "card_ready i cfg (mesh_upd j c w) = card_ready i cfg w" "card_requests i cfg (mesh_upd j c w) = card_requests i cfg w"
  "wifi_configs (mesh_upd j c w) = wifi_configs w" "nl_out (mesh_upd j c w) = nl_out w"
  "live x (mesh_upd j c w) = live x w" "live x (cmd_upd j c w) = live x w"
  by (simp_all add: card_ready_def card_requests_def cmd_upd_def mesh_upd_def live_def)

lemma other_connection [simp]:
  "cmd_ctl i (mesh_upd j c w) = cmd_ctl i w" "mesh_ctl i (cmd_upd j c w) = mesh_ctl i w"
  by (cases "i = j"; cases "i < length (wpa_ctx w)"; auto simp: cmd_ctl_def mesh_ctl_def cmd_upd_def mesh_upd_def)+

text \<open>A bring-up behind ADD_NETWORK: the mode, the settings of the card, the other commands.\<close>

definition bring_up :: "sender \<Rightarrow> nat \<Rightarrow> wifi_config \<Rightarrow> string list \<Rightarrow> reply_buf \<Rightarrow> wifi_ctx \<Rightarrow> (int \<times> wifi_ctx) outcome" where
  "bring_up send i cfg steps b w = obind (send_steps send i [hd steps] b w) (\<lambda>(ok, b3, w3).
     if \<not> ok then Ret (-1, w3) else obind (radio_params i cfg w3) (\<lambda>w4.
       obind (send_steps send i (tl steps) b3 w4) (\<lambda>(ok, _, w5). Ret (if ok then 0 else -1, w5))))"

section \<open>A connection that answers\<close>

text \<open>
  What the bring-up sequences need of a sending function: the answer to a command decides whether the
  step counts as done, the command is asked, the radio's connection is the only thing that changes.
\<close>

locale ctrl_sender =
  fixes send :: sender
    and ctl :: "nat \<Rightarrow> wifi_ctx \<Rightarrow> wpa_ctrl option"
    and upd :: "nat \<Rightarrow> wpa_ctrl \<Rightarrow> wifi_ctx \<Rightarrow> wifi_ctx"
  assumes send_reply: "ctl i w = Some c \<Longrightarrow> live c w \<Longrightarrow> sock_in c = Datagram bs # r \<Longrightarrow> \<not> is_unsolicited (take len bs)
      \<Longrightarrow> len \<le> length buf \<Longrightarrow> send i cmd (buf, len) w
        = Ret (fst (checked bs buf len), (snd (checked bs buf len), length (take len bs)), upd i (answered cmd r c) w)"
    and ctl_upd: "ctl i w = Some c \<Longrightarrow> ctl i (upd i c' w) = Some c'"
    and live_upd: "live c (upd i c' w) = live c w"
    and upd_upd: "upd i c (upd i c' w) = upd i c w"
    and upd_same: "ctl i w = Some c \<Longrightarrow> upd i c w = w"
    and ctl_params: "ctl i (set_params j cfg w) = ctl i w"
    and card_upd: "card_ready j cfg (upd i c w) = card_ready j cfg w" "card_requests j cfg (upd i c w) = card_requests j cfg w"
      "nl_out (upd i c w) = nl_out w"
    and upd_params: "set_params j cfg (upd i c w) = upd i c (set_params j cfg w)"
begin

text \<open>One step of a series.\<close>

lemma send_answer:
  assumes "ctl i w = Some c" "live c w" "sock_in c = Datagram (answer ok) # r" "2 \<le> len" "len \<le> length buf"
  shows "\<exists>ret buf' len'. send i cmd (buf, len) w = Ret (ret, (buf', len'), upd i (answered cmd r c) w)
    \<and> (ret = 0 \<and> is_ok buf') = ok \<and> 2 \<le> len' \<and> len' \<le> length buf' \<and> length buf' = length buf"
  using send_reply [OF assms(1-3) answer_solicited assms(5), of cmd] checked_answer [OF assms(4,5), of ok] assms(4,5)
  by auto

lemma send_steps_answers:
  assumes "ctl i w = Some c" "live c w" "sock_in c = map (\<lambda>b. Datagram (answer b)) bs @ r" "length bs = length cs"
    and "2 \<le> len" "len \<le> length buf"
  shows "\<exists>b'. send_steps send i cs (buf, len) w = Ret (list_all id bs, b',
      upd i (c\<lparr>sock_in := map (\<lambda>b. Datagram (answer b)) (drop (asked bs) bs) @ r,
               requests := requests c @ take (asked bs) cs\<rparr>) w)
    \<and> 2 \<le> snd b' \<and> snd b' \<le> length (fst b')"
  using assms
proof (induction cs arbitrary: bs c w buf len)
  case Nil
  have "c\<lparr>sock_in := sock_in c, requests := requests c\<rparr> = c" by simp
  with Nil show ?case using upd_same [OF Nil(1)] by auto
next
  case (Cons cmd cs)
  from Cons.prems(4) obtain b bs' where bs: "bs = b # bs'" by (cases bs) auto
  let ?r = "map (\<lambda>b. Datagram (answer b)) bs' @ r"
  from send_answer [OF Cons.prems(1,2) _ Cons.prems(5,6), of b ?r cmd] Cons.prems(3) bs obtain ret buf' len' where
    s: "send i cmd (buf, len) w = Ret (ret, (buf', len'), upd i (answered cmd ?r c) w)"
    and ok: "(ret = 0 \<and> is_ok buf') = b" and l: "2 \<le> len'" "len' \<le> length buf'" by auto
  show ?case
  proof (cases b)
    case False
    with s ok bs l show ?thesis by (auto simp: answered_def)
  next
    case True
    let ?w = "upd i (answered cmd ?r c) w" let ?c = "answered cmd ?r c"
    have "live ?c ?w" using Cons.prems(2) by (simp add: live_upd) (simp add: live_def answered_def)
    from Cons.IH [OF ctl_upd [OF Cons.prems(1), of ?c] this _ _ l, of bs'] Cons.prems(4) bs s ok True
    show ?thesis by (auto simp: answered_def upd_upd)
  qed
qed

lemma bring_up_answers:
  assumes "ctl i w = Some c" "live c w" "sock_in c = map (\<lambda>b. Datagram (answer b)) bs" "length bs = length steps" "steps \<noteq> []"
    and "2 \<le> snd b" "snd b \<le> length (fst b)" "card_ready i cfg w"
  defines "c' \<equiv> c\<lparr>sock_in := map (\<lambda>b. Datagram (answer b)) (drop (asked bs) bs), requests := requests c @ take (asked bs) steps\<rparr>"
  defines "w' \<equiv> upd i c' (if hd bs then set_params i cfg w else w)"
  shows "bring_up send i cfg steps b w = Ret (if list_all id bs then 0 else -1, w')" "ctl i w' = Some c'"
    "nl_out w' = nl_out w @ (if hd bs then card_requests i cfg w else [])"
proof -
  obtain s0 ss where ss: "steps = s0 # ss" using assms(5) by (cases steps) auto
  obtain b0 bt where bs: "bs = b0 # bt" "length bt = length ss" using assms(4) ss by (cases bs) auto
  let ?rt = "map (\<lambda>b. Datagram (answer b)) bt"
  define c3 where "c3 = c\<lparr>sock_in := ?rt, requests := requests c @ [s0]\<rparr>"
  have "sock_in c = map (\<lambda>b. Datagram (answer b)) [b0] @ ?rt" using assms(3) bs(1) by simp
  from send_steps_answers [OF assms(1,2) this, of "[s0]" "snd b" "fst b"] assms(6,7) obtain b3 where
    s3: "send_steps send i [s0] b w = Ret (b0, b3, upd i c3 w)"
    and l3: "2 \<le> snd b3" "snd b3 \<le> length (fst b3)" by (auto simp: c3_def)
  have c3: "ctl i (upd i c3 w) = Some c3" "live c3 (upd i c3 w)"
    using ctl_upd [OF assms(1)] assms(2) by (simp_all add: live_upd) (simp_all add: c3_def live_def)
  show "ctl i w' = Some c'" "nl_out w' = nl_out w @ (if hd bs then card_requests i cfg w else [])"
    using ctl_upd [of i _ c c'] assms(1) by (simp_all add: w'_def card_upd ctl_params)
  show "bring_up send i cfg steps b w = Ret (if list_all id bs then 0 else -1, w')"
  proof (cases b0)
    case False
    then show ?thesis using s3 bs(1) ss by (simp add: bring_up_def w'_def c'_def c3_def)
  next
    case True
    define w4 where "w4 = set_params i cfg (upd i c3 w)"
    have p: "radio_params i cfg (upd i c3 w) = Ret w4" using assms(8) by (simp add: w4_def radio_params_ok card_upd)
    have c4: "ctl i w4 = Some c3" "live c3 w4" using c3 by (simp_all add: w4_def ctl_params)
    have "sock_in c3 = map (\<lambda>b. Datagram (answer b)) bt @ []" by (simp add: c3_def)
    from send_steps_answers [OF c4 this _ l3, of ss] bs(2) obtain b5 where
      s5: "send_steps send i ss b3 w4 = Ret (list_all id bt, b5,
        upd i (c3\<lparr>sock_in := map (\<lambda>b. Datagram (answer b)) (drop (asked bt) bt) @ [],
               requests := requests c3 @ take (asked bt) ss\<rparr>) w4)" by auto
    have "upd i (c3\<lparr>sock_in := map (\<lambda>b. Datagram (answer b)) (drop (asked bt) bt) @ [],
               requests := requests c3 @ take (asked bt) ss\<rparr>) w4 = w'"
      using True bs(1) ss by (simp add: w4_def w'_def c'_def c3_def upd_params upd_upd)
    then show ?thesis using s3 p s5 True bs(1) ss by (simp add: bring_up_def)
  qed
qed

end

lemma cmd_upd_upd: "cmd_upd i c (cmd_upd i c' w) = cmd_upd i c w"
  by (cases "i < length (wpa_ctx w)") (simp_all add: cmd_upd_def list_update_beyond)

lemma cmd_upd_same: "cmd_ctl i w = Some c \<Longrightarrow> cmd_upd i c w = w"
proof -
  assume "cmd_ctl i w = Some c"
  then have "(wpa_ctx w ! i)\<lparr>wx_ctrl := Some c\<rparr> = wpa_ctx w ! i"
    by (cases "wpa_ctx w ! i") (simp add: cmd_ctl_def split: if_splits)
  then show ?thesis by (simp add: cmd_upd_def)
qed

lemma mesh_upd_upd: "mesh_upd i c (mesh_upd i c' w) = mesh_upd i c w"
  by (cases "i < length (wpa_ctx w)") (simp_all add: mesh_upd_def list_update_beyond)

lemma mesh_upd_same: "mesh_ctl i w = Some c \<Longrightarrow> mesh_upd i c w = w"
proof -
  assume "mesh_ctl i w = Some c"
  then have "(wpa_ctx w ! i)\<lparr>wx_mesh_ctrl := Some c\<rparr> = wpa_ctx w ! i"
    by (cases "wpa_ctx w ! i") (simp add: mesh_ctl_def split: if_splits)
  then show ?thesis by (simp add: mesh_upd_def)
qed

interpretation wpa_sender: ctrl_sender wifi_hal_send_wpa_command cmd_ctl cmd_upd
  by unfold_locales
    (simp_all add: send_wpa_reply cmd_upd_upd cmd_upd_same, simp_all add: cmd_ctl_def cmd_upd_def live_def set_params_def
      debugfs_path_def split: if_splits)

interpretation mesh_sender: ctrl_sender wifi_hal_send_wpa_mesh_command mesh_ctl mesh_upd
  by unfold_locales
    (simp_all add: send_mesh_reply mesh_upd_upd mesh_upd_same, simp_all add: mesh_ctl_def mesh_upd_def live_def set_params_def
      debugfs_path_def split: if_splits)

section \<open>The network id\<close>

declare arr_str_append [simp]

lemma arr_str_zeros [simp]: "arr_str (replicate n NUL) = []"
  by (cases n) simp_all

definition ok_buf :: mem where "ok_buf = ''OK'' @ replicate 2046 NUL"

lemma checked_first: "checked (answer True) (replicate 2048 NUL) 2047 = (0, ok_buf)"
  by (simp add: checked_def over_prefix_def answer_def reply_check_def starts_with_def strip_reply_def ok_buf_def
      flip: replicate_Suc)

text \<open>The reply to \<open>ADD_NETWORK\<close> is cut to three bytes; what is left of it becomes the id.\<close>

lemma checked_id:
  assumes "take 3 bs = take 3 (ds @ [LF])" "ds \<noteq> []" "length ds \<le> 3" "NUL \<notin> set ds" "LF \<notin> set ds"
  shows "checked bs ok_buf 3 = (0, ds @ replicate (2048 - length ds) NUL)"
    and "nw_id_of (ds @ replicate (2048 - length ds) NUL) = ds"
proof -
  from assms(2,3) consider a where "ds = [a]" | a b where "ds = [a, b]" | a b c where "ds = [a, b, c]"
    by (cases ds rule: remdups_adj.cases; cases "tl (tl ds)") auto
  moreover have "\<forall>x \<in> set ds. x \<noteq> NUL \<and> x \<noteq> LF" using assms(4,5) by auto
  ultimately show "checked bs ok_buf 3 = (0, ds @ replicate (2048 - length ds) NUL)"
    using assms(1)
    by cases (simp_all add: checked_def over_prefix_def reply_check_def starts_with_def strip_reply_def ok_buf_def
        numeral_3_eq_3 flip: replicate_Suc)
  show "nw_id_of (ds @ replicate (2048 - length ds) NUL) = ds"
    using assms(3-5) last_in_set [OF assms(2)] by (auto simp: nw_id_of_def Let_def)
qed

section \<open>An access point\<close>

definition ap_setup :: "string \<Rightarrow> wifi_config \<Rightarrow> string list" where
  "ap_setup nid cfg = (let set = ''SET_NETWORK '' @ nid in
     [set @ '' mode 2'', set @ '' ssid '' @ quoted (ssid_str cfg), set @ '' frequency '' @ freq_str cfg,
      set @ '' key_mgmt WPA-PSK'', set @ '' psk '' @ quoted (key_str cfg), ''ENABLE_NETWORK '' @ nid])"

lemma digits_plain:
  assumes "list_all (is_base_digit 10) ds" "ds \<noteq> []"
  shows "NUL \<notin> set ds" "LF \<notin> set ds" "\<not> is_unsolicited (take 3 (ds @ [LF]))"
proof -
  have "CHR ''<'' \<notin> set ds" "NUL \<notin> set ds" "LF \<notin> set ds"
    using assms(1) by (auto simp: list_all_iff is_base_digit_def digit_of_def)
  then show "NUL \<notin> set ds" "LF \<notin> set ds" "\<not> is_unsolicited (take 3 (ds @ [LF]))"
    using assms(2) by (cases ds; simp add: is_unsolicited_def; auto)+
qed

text \<open>The first two commands of every bring-up.\<close>

lemma first_commands:
  assumes "cmd_ctl i w = Some c" "live c w" "sock_in c = Datagram (answer True) # Datagram bs # r"
    and "take 3 bs = take 3 (ds @ [LF])" "ds \<noteq> []" "length ds \<le> 3" "NUL \<notin> set ds" "LF \<notin> set ds" "\<not> is_unsolicited (take 3 bs)"
  obtains b where
    "wifi_hal_send_wpa_command i ''REMOVE_NETWORK all'' resp_buf0 w
       = Ret (0, (ok_buf, 3), cmd_upd i (answered ''REMOVE_NETWORK all'' (Datagram bs # r) c) w)"
    "wifi_hal_send_wpa_command i ''ADD_NETWORK'' (ok_buf, 3) (cmd_upd i (answered ''REMOVE_NETWORK all'' (Datagram bs # r) c) w)
       = Ret (0, b, cmd_upd i (answered ''ADD_NETWORK'' r (answered ''REMOVE_NETWORK all'' (Datagram bs # r) c)) w)"
    "b = (ds @ replicate (2048 - length ds) NUL, if length ds = 1 then 2 else 3)" "nw_id_of (fst b) = ds"
proof -
  let ?c = "answered ''REMOVE_NETWORK all'' (Datagram bs # r) c"
  have l: "length (take 3 bs) = (if length ds = 1 then 2 else 3)"
    using assms(4-6) by (cases ds rule: remdups_adj.cases) (auto simp: numeral_3_eq_3)
  have 1: "wifi_hal_send_wpa_command i ''REMOVE_NETWORK all'' resp_buf0 w = Ret (0, (ok_buf, 3), cmd_upd i ?c w)"
    using wpa_sender.send_reply [OF assms(1-3) answer_solicited, of 2047 "replicate 2048 NUL" "''REMOVE_NETWORK all''"]
    by (simp add: checked_first resp_buf0_def)
  have lv: "live ?c (cmd_upd i ?c w)" using assms(2) by (simp add: wpa_sender.live_upd) (simp add: live_def answered_def)
  have "wifi_hal_send_wpa_command i ''ADD_NETWORK'' (ok_buf, 3) (cmd_upd i ?c w)
      = Ret (0, (ds @ replicate (2048 - length ds) NUL, if length ds = 1 then 2 else 3), cmd_upd i (answered ''ADD_NETWORK'' r ?c) w)"
    using wpa_sender.send_reply [OF wpa_sender.ctl_upd [OF assms(1)] lv _ assms(9), of r ok_buf "''ADD_NETWORK''"]
      checked_id(1) [OF assms(4-8)] l by (simp add: wpa_sender.upd_upd answered_def ok_buf_def del: length_take)
  with 1 checked_id(2) [OF assms(4-8)] that show thesis by simp
qed


lemma create_ap_rest:
  assumes "elem (wifi_configs w) i = Ret cfg" "wifi_hal_send_wpa_command i ''REMOVE_NETWORK all'' resp_buf0 w = Ret (0, b1, w1)"
    "wifi_hal_send_wpa_command i ''ADD_NETWORK'' b1 w1 = Ret (0, b2, w2)"
  shows "wifi_hal_create_ap i w = bring_up wifi_hal_send_wpa_command i cfg (ap_setup (nw_id_of (fst b2)) cfg) b2 w2"
  by (simp add: wifi_hal_create_ap_def assms ap_setup_def bring_up_def Let_def del: send_steps.simps cong: if_cong)

text \<open>
  Bringing an access point up is the fixed sequence of commands, REMOVE_NETWORK, ADD_NETWORK, the
  mode, the SSID, the frequency, the key management, the passphrase and ENABLE_NETWORK, with the
  settings of the card after the mode. The network that ADD_NETWORK answered is the one that is
  configured. It returns 0 when wpa_supplicant answers OK to each command; at the first refusal it
  returns -1 and asks nothing more.
\<close>

theorem create_ap_commands:
  assumes "cmd_ctl i w = Some c" "live c w" "elem (wifi_configs w) i = Ret cfg" "card_ready i cfg w"
    and "sock_in c = map Datagram [answer True, ds @ [LF]] @ map (\<lambda>b. Datagram (answer b)) bs"
    and "length bs = 6" "ds \<noteq> []" "length ds \<le> 3" "list_all (is_base_digit 10) ds"
  defines "c' \<equiv> c\<lparr>sock_in := map (\<lambda>b. Datagram (answer b)) (drop (asked bs) bs),
      requests := requests c @ [''REMOVE_NETWORK all'', ''ADD_NETWORK''] @ take (asked bs) (ap_setup ds cfg)\<rparr>"
  defines "w' \<equiv> cmd_upd i c' (if hd bs then set_params i cfg w else w)"
  shows "wifi_hal_create_ap i w = Ret (if list_all id bs then 0 else -1, w')" "cmd_ctl i w' = Some c'"
    "nl_out w' = nl_out w @ (if hd bs then card_requests i cfg w else [])"
proof -
  note nd = digits_plain [OF assms(9,7)] note sol = nd(3)
  let ?r = "map (\<lambda>b. Datagram (answer b)) bs"
  have in_c: "sock_in c = Datagram (answer True) # Datagram (ds @ [LF]) # ?r" using assms(5) by simp
  obtain b where first: "wifi_hal_send_wpa_command i ''REMOVE_NETWORK all'' resp_buf0 w
       = Ret (0, (ok_buf, 3), cmd_upd i (answered ''REMOVE_NETWORK all'' (Datagram (ds @ [LF]) # ?r) c) w)"
    "wifi_hal_send_wpa_command i ''ADD_NETWORK'' (ok_buf, 3)
        (cmd_upd i (answered ''REMOVE_NETWORK all'' (Datagram (ds @ [LF]) # ?r) c) w)
       = Ret (0, b, cmd_upd i (answered ''ADD_NETWORK'' ?r (answered ''REMOVE_NETWORK all'' (Datagram (ds @ [LF]) # ?r) c)) w)"
    and b: "b = (ds @ replicate (2048 - length ds) NUL, if length ds = 1 then 2 else 3)" "nw_id_of (fst b) = ds"
    by (rule first_commands [OF assms(1,2) in_c refl assms(7,8) nd(1,2) sol])
  define c2 where "c2 = answered ''ADD_NETWORK'' ?r (answered ''REMOVE_NETWORK all'' (Datagram (ds @ [LF]) # ?r) c)"
  define w2 where "w2 = cmd_upd i c2 w"
  have c2: "cmd_ctl i w2 = Some c2" "live c2 w2" "sock_in c2 = ?r" "requests c2 = requests c @ [''REMOVE_NETWORK all'', ''ADD_NETWORK'']"
    using wpa_sender.ctl_upd [OF assms(1)] assms(2)
    by (simp_all add: w2_def wpa_sender.live_upd) (simp_all add: c2_def answered_def live_def)
  have lb: "2 \<le> snd b" "snd b \<le> length (fst b)" using assms(8) by (simp_all add: b(1))
  have "length bs = length (ap_setup ds cfg)" "ap_setup ds cfg \<noteq> []" using assms(6) by (simp_all add: ap_setup_def Let_def)
  note run = wpa_sender.bring_up_answers [OF c2(1-3) this lb, of cfg]
  have card: "card_ready i cfg w2" "card_requests i cfg w2 = card_requests i cfg w" "nl_out w2 = nl_out w"
    using assms(4) by (simp_all add: w2_def)
  have "wifi_hal_create_ap i w = bring_up wifi_hal_send_wpa_command i cfg (ap_setup ds cfg) b w2"
    using create_ap_rest [OF assms(3) first, folded c2_def, folded w2_def] by (simp add: b(2))
  moreover have "cmd_upd i (c2\<lparr>sock_in := map (\<lambda>b. Datagram (answer b)) (drop (asked bs) bs),
      requests := requests c2 @ take (asked bs) (ap_setup ds cfg)\<rparr>) (if hd bs then set_params i cfg w2 else w2) = w'"
    by (simp add: w'_def c'_def w2_def wpa_sender.upd_params cmd_upd_upd) (simp add: c2_def answered_def)
  ultimately show "wifi_hal_create_ap i w = Ret (if list_all id bs then 0 else -1, w')" using run(1) [OF card(1)] by simp
  show "cmd_ctl i w' = Some c'" "nl_out w' = nl_out w @ (if hd bs then card_requests i cfg w else [])"
    using wpa_sender.ctl_upd [of i _ c c'] assms(1) by (simp_all add: w'_def)
qed

section \<open>A client\<close>

text \<open>Once a reply of two or three bytes has been seen, no FAIL is recognised any more.\<close>

definition short_buf :: "reply_buf \<Rightarrow> bool" where
  "short_buf b = (2 \<le> snd b \<and> snd b \<le> 3 \<and> 4 \<le> length (fst b) \<and> fst b ! 3 = NUL)"

lemma arr_str_upto: "k < length m \<Longrightarrow> m ! k = NUL \<Longrightarrow> length (arr_str m) \<le> k"
proof (induction m arbitrary: k)
  case (Cons c m)
  then show ?case by (cases k) auto
qed simp

lemma update_same_nth: "xs ! j = y \<Longrightarrow> xs[i := y] ! j = y"
  by (cases "i = j"; cases "j < length xs") (simp_all add: list_update_beyond)

lemma not_FAIL: "4 \<le> length m \<Longrightarrow> m ! 3 = NUL \<Longrightarrow> \<not> starts_with (arr_str m) ''FAIL''"
  using arr_str_upto [of 3 m] by (auto simp: starts_with_iff)

lemma checked_short:
  assumes "short_buf (buf, len)"
  shows "fst (checked bs buf len) = 0" "length bs \<ge> 2 \<Longrightarrow> short_buf (snd (checked bs buf len), length (take len bs))"
proof -
  let ?g = "take len bs" let ?m = "over_prefix ?g buf"
  have l: "length ?g \<le> 3" "4 \<le> length buf" "buf ! 3 = NUL" using assms by (auto simp: short_buf_def)
  then have m: "4 \<le> length ?m" "?m ! 3 = NUL" by (auto simp: over_prefix_def nth_append)
  have c: "checked bs buf len = (0, strip_reply ?m (length ?g))"
    using not_FAIL [OF m] by (simp add: checked_def reply_check_def)
  then show "fst (checked bs buf len) = 0" by simp
  have "strip_reply ?m (length ?g) ! 3 = NUL" using m(2) by (simp only: strip_reply_def Let_def update_same_nth split: if_split) simp
  then show "length bs \<ge> 2 \<Longrightarrow> short_buf (snd (checked bs buf len), length (take len bs))"
    using c m assms by (simp add: short_buf_def min_le_iff_disj)
qed

lemma send_short:
  assumes "cmd_ctl i w = Some c" "live c w" "sock_in c = Datagram (answer ok) # r" "short_buf b"
  obtains b' where "wifi_hal_send_wpa_command i cmd b w = Ret (0, b', cmd_upd i (answered cmd r c) w)"
    "short_buf b'" "is_ok (fst b') = ok"
proof -
  obtain buf len where b: "b = (buf, len)" by (cases b)
  have l: "2 \<le> len" "len \<le> length buf" using assms(4) by (simp_all add: b short_buf_def)
  show thesis
    using that wpa_sender.send_reply [OF assms(1-3) answer_solicited l(2), of cmd] checked_answer [OF l, of ok]
      checked_short [OF assms(4) [unfolded b], of "answer ok"] by (auto simp: b)
qed

lemma live_answered: "live c w \<Longrightarrow> live (answered cmd r c) (cmd_upd i c' w)"
  by (simp add: wpa_sender.live_upd) (simp add: live_def answered_def)

definition sta_setup :: "string \<Rightarrow> wifi_config \<Rightarrow> string list" where
  "sta_setup nid cfg = [''SET_NETWORK '' @ nid @ '' ssid '' @ quoted (ssid_str cfg),
     ''SET_NETWORK '' @ nid @ '' psk '' @ quoted (key_str cfg), ''ENABLE_NETWORK '' @ nid]"


lemma connect_ap_rest:
  assumes "elem (wifi_configs w) i = Ret cfg" "wifi_hal_send_wpa_command i ''REMOVE_NETWORK all'' resp_buf0 w = Ret (0, b1, w1)"
    "wifi_hal_send_wpa_command i ''ADD_NETWORK'' b1 w1 = Ret (0, b2, w2)" "radio_params i cfg w2 = Ret w3"
  shows "wifi_hal_connect_ap i w =
     obind (wifi_hal_send_wpa_command i (sta_setup (nw_id_of (fst b2)) cfg ! 0) b2 w3) (\<lambda>(ret, b4, w4).
     if ret \<noteq> 0 \<or> \<not> is_ok (fst b4) then Ret (ret, w4) else
     obind (wifi_hal_send_wpa_command i (sta_setup (nw_id_of (fst b2)) cfg ! 1) b4 w4) (\<lambda>(_, b5, w5).
     if \<not> is_ok (fst b5) then Ret (-1, w5) else
     obind (wifi_hal_send_wpa_command i (sta_setup (nw_id_of (fst b2)) cfg ! 2) b5 w5) (\<lambda>(_, _, w6). Ret (0, w6))))"
  by (simp add: wifi_hal_connect_ap_def assms sta_setup_def Let_def numeral_2_eq_2 cong: if_cong)

text \<open>Three commands in a row, whatever is answered to them.\<close>

lemma three_answers:
  assumes "cmd_ctl i w = Some c" "live c w" "sock_in c = map (\<lambda>b. Datagram (answer b)) [x, y, z]" "short_buf b"
  obtains c3 c4 c5 b4 b5 b6 where
    "wifi_hal_send_wpa_command i s0 b w = Ret (0, b4, cmd_upd i c3 w)" "is_ok (fst b4) = x"
    "wifi_hal_send_wpa_command i s1 b4 (cmd_upd i c3 w) = Ret (0, b5, cmd_upd i c4 (cmd_upd i c3 w))" "is_ok (fst b5) = y"
    "wifi_hal_send_wpa_command i s2 b5 (cmd_upd i c4 (cmd_upd i c3 w)) = Ret (0, b6, cmd_upd i c5 (cmd_upd i c4 (cmd_upd i c3 w)))"
    "cmd_ctl i (cmd_upd i c3 w) = Some c3" "cmd_ctl i (cmd_upd i c4 (cmd_upd i c3 w)) = Some c4"
    "cmd_ctl i (cmd_upd i c5 (cmd_upd i c4 (cmd_upd i c3 w))) = Some c5"
    "requests c3 = requests c @ [s0]" "requests c4 = requests c @ [s0, s1]" "requests c5 = requests c @ [s0, s1, s2]"
proof -
  have r3: "sock_in c = Datagram (answer x) # map (\<lambda>b. Datagram (answer b)) [y, z]" using assms(3) by simp
  define c3 where "c3 = answered s0 (map (\<lambda>b. Datagram (answer b)) [y, z]) c"
  obtain b4 where s4: "wifi_hal_send_wpa_command i s0 b w = Ret (0, b4, cmd_upd i c3 w)" "short_buf b4" "is_ok (fst b4) = x"
    unfolding c3_def by (rule send_short [OF assms(1,2) r3 assms(4)])
  have c3: "cmd_ctl i (cmd_upd i c3 w) = Some c3" "live c3 (cmd_upd i c3 w)" "sock_in c3 = Datagram (answer y) # [Datagram (answer z)]"
    using wpa_sender.ctl_upd [OF assms(1)] live_answered [OF assms(2)] by (simp_all add: c3_def) (simp add: answered_def)
  define c4 where "c4 = answered s1 [Datagram (answer z)] c3"
  obtain b5 where s5: "wifi_hal_send_wpa_command i s1 b4 (cmd_upd i c3 w) = Ret (0, b5, cmd_upd i c4 (cmd_upd i c3 w))"
    "short_buf b5" "is_ok (fst b5) = y"
    unfolding c4_def by (rule send_short [OF c3 s4(2)])
  let ?w4 = "cmd_upd i c4 (cmd_upd i c3 w)"
  have c4: "cmd_ctl i ?w4 = Some c4" "live c4 ?w4" "sock_in c4 = Datagram (answer z) # []"
    using wpa_sender.ctl_upd [OF c3(1)] live_answered [OF c3(2)] by (simp_all add: c4_def) (simp add: answered_def)
  define c5 where "c5 = answered s2 [] c4"
  obtain b6 where s6: "wifi_hal_send_wpa_command i s2 b5 ?w4 = Ret (0, b6, cmd_upd i c5 ?w4)"
    unfolding c5_def by (rule send_short [OF c4 s5(2)])
  have q: "requests c3 = requests c @ [s0]" "requests c4 = requests c @ [s0, s1]" "requests c5 = requests c @ [s0, s1, s2]"
    by (simp_all add: c3_def c4_def c5_def answered_def)
  show thesis by (rule that [OF s4(1,3) s5(1,3) s6 c3(1) c4(1) wpa_sender.ctl_upd [OF c4(1)] q])
qed

text \<open>
  Connecting to an access point asks for the SSID, the passphrase and ENABLE_NETWORK behind the
  settings of the card, and stops at a refusal of the first two. What it returns does not tell: 0
  also when the SSID is refused, because the refusal has been cut to three bytes and is not
  recognised, and 0 also when the network cannot be enabled. Only a refused passphrase gives -1.
\<close>

theorem connect_ap_commands:
  assumes "cmd_ctl i w = Some c" "live c w" "elem (wifi_configs w) i = Ret cfg" "card_ready i cfg w"
    and "sock_in c = map Datagram [answer True, ds @ [LF]] @ map (\<lambda>b. Datagram (answer b)) [ssid_ok, psk_ok, enable_ok]"
    and "ds \<noteq> []" "length ds \<le> 3" "list_all (is_base_digit 10) ds"
  shows "\<exists>w' c'. wifi_hal_connect_ap i w = Ret (if ssid_ok \<and> \<not> psk_ok then -1 else 0, w') \<and> cmd_ctl i w' = Some c'
    \<and> requests c' = requests c @ [''REMOVE_NETWORK all'', ''ADD_NETWORK'']
        @ take (if \<not> ssid_ok then 1 else if \<not> psk_ok then 2 else 3) (sta_setup ds cfg)
    \<and> nl_out w' = nl_out w @ card_requests i cfg w"
proof -
  note nd = digits_plain [OF assms(8,6)] note sol = nd(3)
  let ?r = "map (\<lambda>b. Datagram (answer b)) [ssid_ok, psk_ok, enable_ok]"
  have in_c: "sock_in c = Datagram (answer True) # Datagram (ds @ [LF]) # ?r" using assms(5) by simp
  obtain b where first: "wifi_hal_send_wpa_command i ''REMOVE_NETWORK all'' resp_buf0 w
       = Ret (0, (ok_buf, 3), cmd_upd i (answered ''REMOVE_NETWORK all'' (Datagram (ds @ [LF]) # ?r) c) w)"
    "wifi_hal_send_wpa_command i ''ADD_NETWORK'' (ok_buf, 3)
        (cmd_upd i (answered ''REMOVE_NETWORK all'' (Datagram (ds @ [LF]) # ?r) c) w)
       = Ret (0, b, cmd_upd i (answered ''ADD_NETWORK'' ?r (answered ''REMOVE_NETWORK all'' (Datagram (ds @ [LF]) # ?r) c)) w)"
    and b: "b = (ds @ replicate (2048 - length ds) NUL, if length ds = 1 then 2 else 3)" "nw_id_of (fst b) = ds"
    by (rule first_commands [OF assms(1,2) in_c refl assms(6,7) nd(1,2) sol])
  have sb: "short_buf b" using assms(7) by (simp add: b(1) short_buf_def nth_append)
  define c2 where "c2 = answered ''ADD_NETWORK'' ?r (answered ''REMOVE_NETWORK all'' (Datagram (ds @ [LF]) # ?r) c)"
  define w2 where "w2 = cmd_upd i c2 w"
  define w3 where "w3 = set_params i cfg w2"
  have c2: "cmd_ctl i w3 = Some c2" "live c2 w3" "sock_in c2 = ?r" "requests c2 = requests c @ [''REMOVE_NETWORK all'', ''ADD_NETWORK'']"
    using wpa_sender.ctl_upd [OF assms(1)] assms(2)
    by (simp_all add: w3_def w2_def wpa_sender.live_upd) (simp_all add: c2_def answered_def live_def)
  have "radio_params i cfg w2 = Ret w3" using assms(4) by (simp add: w3_def w2_def radio_params_ok)
  note start = connect_ap_rest [OF assms(3) first, folded c2_def, folded w2_def, OF this, unfolded b(2)]
  have nl: "nl_out w3 = nl_out w @ card_requests i cfg w" by (simp add: w3_def w2_def)
  let ?s = "sta_setup ds cfg"
  have ss: "take 1 ?s = [?s ! 0]" "take 2 ?s = [?s ! 0, ?s ! 1]" "take 3 ?s = [?s ! 0, ?s ! 1, ?s ! 2]"
    by (simp_all add: sta_setup_def numeral_2_eq_2 numeral_3_eq_3)
  obtain c3 c4 c5 b4 b5 b6 where s:
    "wifi_hal_send_wpa_command i (?s ! 0) b w3 = Ret (0, b4, cmd_upd i c3 w3)" "is_ok (fst b4) = ssid_ok"
    "wifi_hal_send_wpa_command i (?s ! 1) b4 (cmd_upd i c3 w3) = Ret (0, b5, cmd_upd i c4 (cmd_upd i c3 w3))" "is_ok (fst b5) = psk_ok"
    "wifi_hal_send_wpa_command i (?s ! 2) b5 (cmd_upd i c4 (cmd_upd i c3 w3)) = Ret (0, b6, cmd_upd i c5 (cmd_upd i c4 (cmd_upd i c3 w3)))"
    and k: "cmd_ctl i (cmd_upd i c3 w3) = Some c3" "cmd_ctl i (cmd_upd i c4 (cmd_upd i c3 w3)) = Some c4"
    "cmd_ctl i (cmd_upd i c5 (cmd_upd i c4 (cmd_upd i c3 w3))) = Some c5"
    and q: "requests c3 = requests c2 @ [?s ! 0]" "requests c4 = requests c2 @ [?s ! 0, ?s ! 1]"
    "requests c5 = requests c2 @ [?s ! 0, ?s ! 1, ?s ! 2]"
    by (rule three_answers [OF c2(1-3) sb])
  show ?thesis
    using start s k q c2(4) nl ss
    by (cases ssid_ok; cases psk_ok) simp_all
qed

section \<open>A mesh\<close>

definition mesh_setup :: "string \<Rightarrow> wifi_config \<Rightarrow> string list" where
  "mesh_setup nid cfg = (let set = ''SET_NETWORK '' @ nid in
     [set @ '' mode 5'', set @ '' ssid '' @ quoted (ssid_str cfg), set @ '' frequency '' @ freq_str cfg,
      set @ '' key_mgmt '' @ enc_str cfg, set @ '' psk '' @ quoted (key_str cfg), ''MESH_GROUP_ADD '' @ nid])"

lemma join_mesh_rest:
  assumes "elem (wifi_configs w) i = Ret cfg" "wifi_hal_wpa_mesh_attach i w = Ret (0, w0)"
    "wifi_hal_send_wpa_command i ''REMOVE_NETWORK all'' resp_buf0 w0 = Ret (0, b1, w1)"
    "wifi_hal_send_wpa_mesh_command i ''ADD_NETWORK'' b1 w1 = Ret (0, b2, w2)"
  shows "wifi_hal_join_mesh i w = bring_up wifi_hal_send_wpa_mesh_command i cfg (mesh_setup (nw_id_of (fst b2)) cfg) b2 w2"
  by (simp add: wifi_hal_join_mesh_def assms mesh_setup_def bring_up_def Let_def del: send_steps.simps cong: if_cong)

lemma open2_fresh: "wpa_ctrl_open2 p q n env = (Some m, n', l) \<Longrightarrow> sends m = [] \<and> requests m = []"
  by (auto simp: wpa_ctrl_open2_def Let_def split: option.splits prod.splits if_splits)

lemma put_frame [simp]:
  "cmd_ctl i (w\<lparr>new_ctrls := a, ctrl_counter := n, sys_log := l\<rparr>) = cmd_ctl i w"
  "live c (w\<lparr>new_ctrls := a, ctrl_counter := n, sys_log := l\<rparr>) = live c w"
  "card_ready i cfg (w\<lparr>new_ctrls := a, ctrl_counter := n, sys_log := l\<rparr>) = card_ready i cfg w"
  "card_requests i cfg (w\<lparr>new_ctrls := a, ctrl_counter := n, sys_log := l\<rparr>) = card_requests i cfg w"
  by (auto simp: cmd_ctl_def live_def card_ready_def card_requests_def)

text \<open>
  Joining a mesh opens a connection of its own and asks there for the network, its mode, SSID,
  frequency, key management (the encryption of the configuration), passphrase and MESH_GROUP_ADD;
  the old networks are removed over the ordinary connection. It returns 0 when every step is
  answered with OK and -1 at the first that is not, and asks nothing behind it.
\<close>

theorem join_mesh_commands:
  assumes "cmd_ctl i w = Some c" "live c w" "elem (wifi_configs w) i = Ret cfg" "card_ready i cfg w"
    and "sock_in c = [Datagram (answer True)]"
    and "new_ctrls w = (env, map Datagram [ds @ [LF]] @ map (\<lambda>b. Datagram (answer b)) bs) # rest"
    and "wpa_ctrl_open2 (Some (sock_path i w)) None (ctrl_counter w) env = (Some m, n, l)" "ctrl_local m \<notin> set (freed w)"
    and "length bs = 6" "ds \<noteq> []" "length ds \<le> 3" "list_all (is_base_digit 10) ds"
  shows "\<exists>w' m'. wifi_hal_join_mesh i w = Ret (if list_all id bs then 0 else -1, w') \<and> mesh_ctl i w' = Some m'
    \<and> requests m' = ''ADD_NETWORK'' # take (asked bs) (mesh_setup ds cfg)
    \<and> nl_out w' = nl_out w @ (if hd bs then card_requests i cfg w else [])"
proof -
  note nd = digits_plain [OF assms(12,10)] note sol = nd(3)
  let ?r = "map (\<lambda>b. Datagram (answer b)) bs"
  define m1 where "m1 = m\<lparr>sock_in := Datagram (ds @ [LF]) # ?r\<rparr>"
  define w1 where "w1 = w\<lparr>new_ctrls := rest, ctrl_counter := n, sys_log := sys_log w @ l\<rparr>"
  define w0 where "w0 = mesh_upd i m1 w1"
  have i: "i < length (wpa_ctx w)" using assms(1) by (simp add: cmd_ctl_def split: if_splits)
  have at: "wifi_hal_wpa_mesh_attach i w = Ret (0, w0)"
    using assms(6,7) by (simp add: wifi_hal_wpa_mesh_attach_def open_ctrl_def put_wpa_def w0_def w1_def m1_def mesh_upd_def)
  have c0: "cmd_ctl i w0 = Some c" "live c w0" using assms(1,2) by (simp_all add: w0_def w1_def)
  define ca where "ca = answered ''REMOVE_NETWORK all'' [] c"
  have rm: "wifi_hal_send_wpa_command i ''REMOVE_NETWORK all'' resp_buf0 w0 = Ret (0, (ok_buf, 3), cmd_upd i ca w0)"
    using wpa_sender.send_reply [OF c0 assms(5) answer_solicited, of 2047 "replicate 2048 NUL" "''REMOVE_NETWORK all''"]
    by (simp add: checked_first resp_buf0_def ca_def)
  have m: "mesh_ctl i (cmd_upd i ca w0) = Some m1" "live m1 (cmd_upd i ca w0)" "sock_in m1 = Datagram (ds @ [LF]) # ?r"
    using i open2_fresh [OF assms(7)] assms(8)
    by (simp_all add: w0_def) (simp_all add: mesh_ctl_def mesh_upd_def w1_def m1_def live_def)
  define m2 where "m2 = answered ''ADD_NETWORK'' ?r m1"
  define w2 where "w2 = mesh_upd i m2 (cmd_upd i ca w0)"
  have ad: "wifi_hal_send_wpa_mesh_command i ''ADD_NETWORK'' (ok_buf, 3) (cmd_upd i ca w0)
      = Ret (0, (ds @ replicate (2048 - length ds) NUL, length (take 3 (ds @ [LF]))), w2)"
    using mesh_sender.send_reply [OF m sol, of ok_buf "''ADD_NETWORK''"]
      checked_id(1) [OF refl assms(10,11) nd(1,2)] by (simp add: w2_def m2_def ok_buf_def del: length_take)
  have m2: "mesh_ctl i w2 = Some m2" "live m2 w2" "sock_in m2 = ?r" "requests m2 = [''ADD_NETWORK'']"
    using mesh_sender.ctl_upd [OF m(1)] m(2) open2_fresh [OF assms(7)]
    by (simp_all add: w2_def) (simp_all add: m2_def m1_def answered_def live_def)
  let ?b = "(ds @ replicate (2048 - length ds) NUL, length (take 3 (ds @ [LF])))"
  have lb: "2 \<le> snd ?b" "snd ?b \<le> length (fst ?b)" using assms(10,11) by (cases ds; simp)+
  have st: "length bs = length (mesh_setup ds cfg)" "mesh_setup ds cfg \<noteq> []" using assms(9) by (simp_all add: mesh_setup_def Let_def)
  have card: "card_ready i cfg w2" "card_requests i cfg w2 = card_requests i cfg w" "nl_out w2 = nl_out w"
    using assms(4) by (simp_all add: w2_def w0_def w1_def)
  have "wifi_hal_join_mesh i w = bring_up wifi_hal_send_wpa_mesh_command i cfg (mesh_setup ds cfg) ?b w2"
    using join_mesh_rest [OF assms(3) at rm ad] checked_id(2) [OF refl assms(10,11) nd(1,2)] by simp
  moreover note run = mesh_sender.bring_up_answers [OF m2(1-3) st lb card(1)]
  ultimately show ?thesis using run(2,3) m2(4) unfolding card run(1)
    by (intro exI conjI) (assumption | rule refl | simp)+
qed

section \<open>Witnesses\<close>

definition ap_ctx :: "string list \<Rightarrow> wifi_ctx" where
  "ap_ctx replies = (wifi_ctx0 (replicate 3 NlAck))\<lparr>phyname := [show_int 0, show_int 1], ifname := [''wlan0'', ''wlan1''],
     wpa_ctx := replicate 2 \<lparr>wx_ctrl = Some (idle_ctrl (map Datagram replies)), wx_monitor = Some (idle_ctrl []),
                            wx_mesh_ctrl = None\<rparr>\<rparr>"

lemma ap_ctx_ready:
  fixes rs :: "string list"
  shows "cmd_ctl 0 (ap_ctx rs) = Some (idle_ctrl (map Datagram rs))" "live (idle_ctrl (map Datagram rs)) (ap_ctx rs)"
  "elem (wifi_configs (ap_ctx rs)) 0 = Ret wifi_config_zero" "card_ready 0 wifi_config_zero (ap_ctx rs)"
  using strtol_show_int [of "[]" 0]
  by (simp_all add: ap_ctx_def cmd_ctl_def live_def idle_ctrl_def wifi_ctx0_def card_ready_def wifi_config_zero_def
      no_digit_first_def)

definition open_env0 :: open_env where
  "open_env0 = \<lparr>gets_socket = True, binds = [], connects = True, pid = 7\<rparr>"

end
