(* ===== verification/WifiLoop.thy ===== *)
theory WifiLoop
  imports WifiBringUp
begin

text \<open>
  Opening and closing the WiFi radios and their event loop, src/src/wifi/wifi_hal_main.cpp: the
  start of wpa_supplicant, the connections to it, the wait for its messages, the state machine and
  its handlers.
\<close>

section \<open>Commands\<close>

text \<open>On the string in the buffer.\<close>

definition wifi_replace_line_change :: "string \<Rightarrow> string" where
  "wifi_replace_line_change s = (if s \<noteq> [] \<and> last s = LF then butlast s else s)"

text \<open>What a command prints is the next in the script, or None when it cannot be started; nothing
  when the script has ended. The debugging build strips the newline of the answer.\<close>

definition wifi_hal_run_sys_cmd :: "string \<Rightarrow> nat \<Rightarrow> wifi_ctx \<Rightarrow> int \<times> string \<times> wifi_ctx" where
  "wifi_hal_run_sys_cmd cmd resp_size w = (let w1 = w\<lparr>shell_cmds := shell_cmds w @ [cmd]\<rparr> in
     case shell_out w of
       None # r \<Rightarrow> (-1, [], w\<lparr>shell_out := r\<rparr>)
     | Some out # r \<Rightarrow> (0, wifi_replace_line_change (read_output resp_size out []), w1\<lparr>shell_out := r\<rparr>)
     | [] \<Rightarrow> (0, [], w1))"

definition WPA_SUPPLICANT_DEFAULT_CONFIG :: string where
  "WPA_SUPPLICANT_DEFAULT_CONFIG = ''/tmp/wpa_supplicant.conf''"

definition create_default_wpa_config :: "wifi_ctx \<Rightarrow> int \<times> wifi_ctx" where
  "create_default_wpa_config w = (if \<not> can_write w WPA_SUPPLICANT_DEFAULT_CONFIG then (- ENOMEM, w)
     else (0, w\<lparr>files_written := files_written w
       @ [(WPA_SUPPLICANT_DEFAULT_CONFIG, ''ctrl_interface=DIR=/var/run/wpa_supplicant'' @ [LF])]\<rparr>))"

definition rm_cmd :: "string \<Rightarrow> string" where
  "rm_cmd nm = ''rm /var/run/wpa_supplicant/'' @ nm @ '' 2>/dev/null''"

definition supplicant_cmd :: "string \<Rightarrow> string" where
  "supplicant_cmd nm = ''wpa_supplicant -dd -Dnl80211 -B -i'' @ nm @ '' -c'' @ WPA_SUPPLICANT_DEFAULT_CONFIG
     @ '' -f /tmp/wpa_default.log ''"

fun start_each :: "nat list \<Rightarrow> wifi_ctx \<Rightarrow> (int \<times> wifi_ctx) outcome" where
  "start_each [] w = Ret (0, w)"
| "start_each (i # is) w = obind (elem (ifname w) i) (\<lambda>nm.
     case wifi_hal_run_sys_cmd (rm_cmd nm) 2047 w of (_, _, w1) \<Rightarrow>
     case wifi_hal_run_sys_cmd (supplicant_cmd nm) 2047 w1 of (ret, _, w2) \<Rightarrow>
       if ret \<noteq> 0 then Ret (-1, w2) else start_each is w2)"

definition wifi_hal_start_wpa_dummy_config :: "wifi_ctx \<Rightarrow> (int \<times> wifi_ctx) outcome" where
  "wifi_hal_start_wpa_dummy_config w = (case create_default_wpa_config w of (ret, w1) \<Rightarrow>
     if ret \<noteq> 0 then Ret (-1, w1) else start_each [0..<radio_amount w1] w1)"

section \<open>Connections\<close>

text \<open>\<open>wpa_ctrl_close\<close> frees the connection; the pointer to it stays where it is.\<close>

definition close_ctrl :: "wpa_ctrl option \<Rightarrow> wifi_ctx \<Rightarrow> wifi_ctx outcome" where
  "close_ctrl ctrl w = (case ctrl of
       None \<Rightarrow> Ret w
     | Some c \<Rightarrow> if ctrl_local c \<in> set (freed w) then Fault UseAfterFree
         else Ret (w\<lparr>freed := ctrl_local c # freed w, sys_log := sys_log w @ wpa_ctrl_close ctrl\<rparr>))"

definition wifi_hal_wpa_attach :: "nat \<Rightarrow> wifi_ctx \<Rightarrow> (int \<times> wifi_ctx) outcome" where
  "wifi_hal_wpa_attach index w0 = obind (elem (wpa_ctx w0) index) (\<lambda>_.
     let w = put_wpa index (\<lambda>x. x\<lparr>wx_mesh_ctrl := None\<rparr>) w0 in
     obind (open_ctrl (sock_path index w) w) (\<lambda>(c, w1).
     let w2 = put_wpa index (\<lambda>x. x\<lparr>wx_ctrl := c\<rparr>) w1 in
     if c = None then Ret (-1, w2) else
     obind (open_ctrl (sock_path index w) w2) (\<lambda>(m, w3).
     let w4 = put_wpa index (\<lambda>x. x\<lparr>wx_monitor := m\<rparr>) w3 in
     case m of None \<Rightarrow> obind (close_ctrl c w4) (\<lambda>w5. Ret (-1, w5))
     | Some mon \<Rightarrow> obind (wpa_ctrl_attach mon) (\<lambda>(ret, mon').
         let w5 = put_wpa index (\<lambda>x. x\<lparr>wx_monitor := Some mon'\<rparr>) w4 in
         if ret < 0 then obind (close_ctrl (Some mon') w5) (\<lambda>w6. obind (close_ctrl c w6) (\<lambda>w7. Ret (-1, w7)))
         else Ret (0, w5)))))"

definition wifi_hal_wpa_dettach :: "nat \<Rightarrow> wifi_ctx \<Rightarrow> wifi_ctx outcome" where
  "wifi_hal_wpa_dettach index w = obind (elem (wpa_ctx w) index) (\<lambda>x.
     obind (close_ctrl (wx_monitor x) w) (\<lambda>w1. obind (close_ctrl (wx_ctrl x) w1) (close_ctrl (wx_mesh_ctrl x))))"

fun attach_each :: "nat list \<Rightarrow> wifi_ctx \<Rightarrow> (int \<times> wifi_ctx) outcome" where
  "attach_each [] w = Ret (0, w)"
| "attach_each (i # is) w = obind (wifi_hal_wpa_attach i w) (\<lambda>(err, w1).
     if err \<noteq> 0 then Ret (err, w1) else attach_each is w1)"

definition wifi_hal_open :: "wifi_ctx \<Rightarrow> (int \<times> wifi_ctx) outcome" where
  "wifi_hal_open w = obind (wifi_hal_get_interface (w\<lparr>radio_amount := 0\<rparr>)) (\<lambda>(err, w1).
     if err < 0 then Ret (-1, w1)
     else obind (wifi_hal_start_wpa_dummy_config w1) (\<lambda>(_, w2). attach_each [0..<radio_amount w2] w2))"

fun close_each :: "nat list \<Rightarrow> wifi_ctx \<Rightarrow> wifi_ctx outcome" where
  "close_each [] w = Ret w"
| "close_each (i # is) w = obind (wifi_hal_wpa_dettach i w) (\<lambda>w1.
     close_each is (w1\<lparr>ifname := (ifname w1)[i := []], ifindex := (ifindex w1)[i := -1]\<rparr>))"

definition wifi_hal_close :: "wifi_ctx \<Rightarrow> (int \<times> wifi_ctx) outcome" where
  "wifi_hal_close w = obind (close_each [0..<radio_amount w] w) (\<lambda>w'. Ret (0, w'))"

section \<open>Waiting for a message\<close>

definition monitor_pending :: "nat \<Rightarrow> wifi_ctx \<Rightarrow> bool" where
  "monitor_pending i w = (case wx_monitor (wpa_ctx w ! i) of None \<Rightarrow> False | Some c \<Rightarrow> wpa_ctrl_pending c)"

definition deliver :: "nat \<Rightarrow> string \<Rightarrow> wifi_ctx \<Rightarrow> wifi_ctx" where
  "deliver i bs w = put_wpa i (\<lambda>x. x\<lparr>wx_monitor :=
     map_option (\<lambda>c. c\<lparr>sock_in := dropWhile (\<lambda>e. e = SelQuiet) (sock_in c) @ [Datagram bs]\<rparr>) (wx_monitor x)\<rparr>) w"

text \<open>\<open>poll\<close> over stdin and the monitors of the radios that are in use; a message for another monitor
  does not end it.\<close>

fun poll_wait :: "poll_ev list \<Rightarrow> wifi_ctx \<Rightarrow> (bool \<times> wifi_ctx) outcome" where
  "poll_wait [] w = Blocked"
| "poll_wait (PollErr # r) w = Ret (False, w\<lparr>polls := r\<rparr>)"
| "poll_wait (PollStdin # r) w = Ret (True, w\<lparr>polls := r\<rparr>)"
| "poll_wait (PollMsg i bs # r) w =
     (if i < radio_amount w then Ret (True, deliver i bs (w\<lparr>polls := r\<rparr>)) else poll_wait r (deliver i bs w))"

definition poll_monitors :: "wifi_ctx \<Rightarrow> (bool \<times> wifi_ctx) outcome" where
  "poll_monitors w = (if list_ex (\<lambda>i. monitor_pending i w) [0..<radio_amount w] then Ret (True, w) else poll_wait (polls w) w)"

definition monitor_freed :: "wifi_ctx \<Rightarrow> wpa_ctrl_ctx \<Rightarrow> bool" where
  "monitor_freed w x = (case wx_monitor x of None \<Rightarrow> False | Some c \<Rightarrow> ctrl_local c \<in> set (freed w))"

definition wifi_hal_ctrl_recv :: "int \<Rightarrow> mem \<Rightarrow> nat \<Rightarrow> wifi_ctx \<Rightarrow> (int \<times> int \<times> mem \<times> nat \<times> wifi_ctx) outcome" where
  "wifi_hal_ctrl_recv index reply reply_len w =
     (if list_ex (\<lambda>x. wx_ctrl x = None) (wpa_ctx w) then Ret (-1, index, reply, reply_len, w)
      else if list_ex (\<lambda>x. wx_monitor x = None) (wpa_ctx w) then Fault NullDeref
      else if list_ex (monitor_freed w) (wpa_ctx w) then Fault UseAfterFree
      else if radio_amount w > length (wpa_ctx w) then Fault OutOfBounds
      else obind (poll_monitors w) (\<lambda>(ok, w1).
        if \<not> ok then Ret (-1, index, reply, reply_len, w1)
        else (case filter (\<lambda>i. monitor_pending i w1) [0..<radio_amount w1] of
            [] \<Rightarrow> Ret (-1, index, reply, reply_len, w1)
          | i # _ \<Rightarrow> (case wx_monitor (wpa_ctx w1 ! i) of
              None \<Rightarrow> Fault NullDeref
            | Some c \<Rightarrow> obind (wpa_ctrl_recv c reply reply_len) (\<lambda>(res, reply', len', c').
                Ret (res, int i, reply', len', put_wpa i (\<lambda>x. x\<lparr>wx_monitor := Some c'\<rparr>) w1))))))"

text \<open>\<open>strncpy(buf, text, buflen-1)\<close> and the terminator behind it.\<close>

definition put_event_text :: "mem \<Rightarrow> nat \<Rightarrow> string \<Rightarrow> mem" where
  "put_event_text buf buflen t = (let s = take (buflen - 1) t in s @ replicate (buflen - length s) NUL @ drop buflen buf)"

text \<open>The message behind the level in front of it. The rest is moved into a copy of the C string: one
  that is longer, with a zero byte inside, does not fit there.\<close>

definition strip_verbose :: "mem \<Rightarrow> nat \<Rightarrow> nat \<Rightarrow> (mem \<times> nat) outcome" where
  "strip_verbose buf buflen nread = (let s = arr_str buf in
     if s \<noteq> [] \<and> hd s = CHR ''<'' \<and> CHR ''>'' \<in> set s
     then let m = length (takeWhile (\<lambda>c. c \<noteq> CHR ''>'') s) + 1; n' = nread - m in
       if n' + 1 > length s + 1 then Fault OutOfBounds
       else let t = arr_str (take (n' + 1) (drop m buf) @ drop (n' + 1) (s @ [NUL])) in
         Ret (take buflen (t @ replicate buflen NUL) @ drop buflen buf, n')
     else Ret (buf, nread))"

definition WPA_EVENT_TERMINATING :: string where "WPA_EVENT_TERMINATING = ''CTRL-EVENT-TERMINATING ''"
definition WPA_EVENT_DISCONNECTED :: string where "WPA_EVENT_DISCONNECTED = ''CTRL-EVENT-DISCONNECTED ''"
definition AP_EVENT_ENABLED :: string where "AP_EVENT_ENABLED = ''AP-ENABLED ''"
definition MESH_GROUP_STARTED :: string where "MESH_GROUP_STARTED = ''MESH-GROUP-STARTED ''"
definition MESH_PEER_CONNECTED :: string where "MESH_PEER_CONNECTED = ''MESH-PEER-CONNECTED ''"
definition MESH_PEER_DISCONNECTED :: string where "MESH_PEER_DISCONNECTED = ''MESH-PEER-DISCONNECTED ''"

definition told :: "mem \<Rightarrow> nat \<Rightarrow> string \<Rightarrow> int \<Rightarrow> wifi_ctx \<Rightarrow> (int \<times> int \<times> mem \<times> wifi_ctx) outcome" where
  "told buf buflen t index w = (let b = put_event_text buf buflen (WPA_EVENT_TERMINATING @ t) in
     Ret (int (length (arr_str b)), index, b, w))"

definition wifi_hal_wait_on_event :: "int \<Rightarrow> mem \<Rightarrow> nat \<Rightarrow> wifi_ctx \<Rightarrow> (int \<times> int \<times> mem \<times> wifi_ctx) outcome" where
  "wifi_hal_wait_on_event index buf buflen w =
     (if list_ex (\<lambda>x. wx_monitor x = None) (wpa_ctx w) then told buf buflen '' - connection closed'' index w
      else obind (wifi_hal_ctrl_recv index buf (buflen - 1) w) (\<lambda>(result, index', buf1, nread, w1).
        if result < 0 then told buf1 buflen ('' - recv error'' @ [LF]) index' w1
        else if nread \<ge> length buf1 then Fault OutOfBounds
        else let buf2 = buf1[nread := NUL] in
          if result = 0 \<and> nread = 0 then told buf2 buflen '' - signal 0 received'' index' w1
          else obind (strip_verbose buf2 buflen nread) (\<lambda>(buf3, n). Ret (int n, index', buf3, w1))))"

definition str_starts :: "string \<Rightarrow> string \<Rightarrow> bool" where
  "str_starts str start = starts_with str start"

definition wifi_hal_map_wpa_event_to_state :: "string \<Rightarrow> wifi_SystemEvent" where
  "wifi_hal_map_wpa_event_to_state ev =
     (if str_starts ev WPA_EVENT_DISCONNECTED then DISCONNECTED_EVENT
      else if str_starts ev AP_EVENT_ENABLED then AP_ENABLED_EVENT
      else if str_starts ev MESH_GROUP_STARTED then STARTUP_STAGE_2_EVENT
      else if str_starts ev MESH_PEER_CONNECTED then CONNECTED_EVENT
      else if str_starts ev MESH_PEER_DISCONNECTED then DISCONNECTED_EVENT
      else if str_starts ev WPA_EVENT_TERMINATING then TERMINATE_EVENT
      else NO_EVENT)"

section \<open>The handlers\<close>

text \<open>\<open>junk\<close>: what the buffers of the scans hold before they are filled.\<close>

type_synonym wifi_handler = "nat \<Rightarrow> wifi_ctx \<Rightarrow> (wifi_state \<times> wifi_ctx) outcome"

definition connected_handler :: wifi_handler where
  "connected_handler index w = obind (wifi_hal_get_rssi index w) (\<lambda>(_, w1). Ret (CONNECTED_STATE, w1))"

definition disconnected_handler :: "mem \<Rightarrow> mem \<Rightarrow> wifi_handler" where
  "disconnected_handler junk junk4 index w = obind (wifi_hal_get_rssi index w) (\<lambda>(_, w1).
     obind (wifi_hal_get_scan_results junk junk4 index w1) (\<lambda>(_, _, w2). Ret (DISCONNECTED_STATE, w2)))"

definition init_handler :: wifi_handler where
  "init_handler index w = obind (elem (wifi_configs w) index) (\<lambda>config.
     case wifi_debugfs_init index w of (_, w1) \<Rightarrow>
     let to_stage_1 = (\<lambda>r. obind r (\<lambda>(_, w2). Ret (IF_INIT_STAGE_1, w2))) in
     if starts_with (mode_str config) ''ap'' then to_stage_1 (wifi_hal_create_ap index w1)
     else if starts_with (mode_str config) ''sta'' then to_stage_1 (wifi_hal_connect_ap index w1)
     else if starts_with (mode_str config) ''mesh'' then to_stage_1 (wifi_hal_join_mesh index w1)
     else Ret (UNKNOWN_STATE, w1))"

text \<open>
  The handler passes the array \<open>ctx->config\<close> itself as the configuration: with the array at offset
  88 of the context and \<open>mesh_fwding\<close> at offset 240 of a configuration, the read lies behind the 104
  bytes of the context.
\<close>

definition CTX_SIZE :: nat where "CTX_SIZE = 104"
definition CTX_CONFIG_OFFSET :: nat where "CTX_CONFIG_OFFSET = 88"
definition MESH_FWDING_OFFSET :: nat where "MESH_FWDING_OFFSET = 240"

definition mesh_fwding_of_array :: "int outcome" where
  "mesh_fwding_of_array = (if CTX_CONFIG_OFFSET + MESH_FWDING_OFFSET + 4 \<le> CTX_SIZE then Ret 0 else Fault OutOfBounds)"

definition init_stage_2_handler :: wifi_handler where
  "init_stage_2_handler index w = obind (elem (wifi_configs w) index) (\<lambda>config.
     if starts_with (mode_str config) ''mesh''
     then obind (wifi_hal_set_mesh_fwding index mesh_fwding_of_array w) (\<lambda>(_, w1). Ret (IF_UP_STATE, w1))
     else Ret (IF_UP_STATE, w))"

definition terminate_handler :: wifi_handler where
  "terminate_handler index w = Ret (SHUTDOWN_STATE, w)"

definition wifi_asStateMachine :: "mem \<Rightarrow> mem \<Rightarrow> (wifi_state \<times> wifi_SystemEvent \<times> wifi_handler option) list" where
  "wifi_asStateMachine junk junk4 =
     [(INIT_STATE, STARTUP_EVENT, Some init_handler),
      (IF_INIT_STAGE_1, STARTUP_STAGE_2_EVENT, Some init_stage_2_handler),
      (IF_UP_STATE, TERMINATE_EVENT, Some terminate_handler),
      (DISCONNECTED_STATE, CONNECTED_EVENT, Some (disconnected_handler junk junk4)),
      (CONNECTED_STATE, DISCONNECTED_EVENT, Some connected_handler),
      (UNKNOWN_STATE, NO_EVENT, None)]"

fun find_row :: "wifi_state \<Rightarrow> wifi_SystemEvent \<Rightarrow> (wifi_state \<times> wifi_SystemEvent \<times> wifi_handler option) list \<Rightarrow> wifi_handler option" where
  "find_row s e [] = None"
| "find_row s e ((s', e', h) # rows) = (case h of
       None \<Rightarrow> None
     | Some _ \<Rightarrow> if e' = e \<and> s' = s then h else find_row s e rows)"

section \<open>The event loop\<close>

text \<open>The local variables; an element of \<open>eNewEvent\<close> that was never written is None.\<close>

record ev_loop =
  lp_init :: bool
  lp_index :: int
  lp_events :: "wifi_SystemEvent option list"
  lp_buf :: mem

datatype turn = Again ev_loop wifi_ctx | Done wifi_ctx

definition events_start :: "wifi_ctx \<Rightarrow> (ev_loop \<times> wifi_ctx) outcome" where
  "events_start w = (let n = radio_amount w in
     if n > WIFI_RADIO_MAX then Fault OutOfBounds
     else Ret (\<lparr>lp_init = True, lp_index = -1,
                lp_events = replicate n (Some STARTUP_EVENT) @ replicate (WIFI_RADIO_MAX - n) None,
                lp_buf = replicate 2048 NUL\<rparr>,
               w\<lparr>wifi_states := replicate n INIT_STATE @ drop n (wifi_states w)\<rparr>))"

text \<open>\<open>state[index + 1]\<close>: behind the array lies \<open>radio_amount\<close>.\<close>

definition state_at :: "int \<Rightarrow> wifi_ctx \<Rightarrow> int outcome" where
  "state_at k w = (if 0 \<le> k \<and> nat k < length (wifi_states w) then Ret (wifi_state_code (wifi_states w ! nat k))
     else if nat k = length (wifi_states w) then Ret (int (radio_amount w)) else Fault OutOfBounds)"

definition dispatch :: "mem \<Rightarrow> mem \<Rightarrow> ev_loop \<Rightarrow> wifi_ctx \<Rightarrow> turn outcome" where
  "dispatch junk junk4 l w = (let i = nat (lp_index l) in
     obind (elem (lp_events l) i) (\<lambda>ev. obind (elem (wifi_states w) i) (\<lambda>st. case ev of
       None \<Rightarrow> Fault UninitRead
     | Some e \<Rightarrow>
         if e = NO_EVENT then Ret (Again l w)
         else if list_ex (\<lambda>s. s = SHUTDOWN_STATE) (take (radio_amount w) (wifi_states w)) then Ret (Done w)
         else if st < LAST_STATE \<and> e \<noteq> LAST_EVENT
         then (case find_row st e (wifi_asStateMachine junk junk4) of
             None \<Rightarrow> Ret (Again l w)
           | Some h \<Rightarrow> obind (h i w) (\<lambda>(s, w'). Ret (Again l (w'\<lparr>wifi_states := (wifi_states w')[i := s]\<rparr>))))
         else Ret (Again l w))))"

text \<open>One turn of \<open>while (loop)\<close>.\<close>

definition wifi_events_turn :: "mem \<Rightarrow> mem \<Rightarrow> ev_loop \<Rightarrow> wifi_ctx \<Rightarrow> turn outcome" where
  "wifi_events_turn junk junk4 l w =
     (if lp_init l
      then obind (state_at (lp_index l + 1) w) (\<lambda>s.
        if s = wifi_state_code INIT_STATE then dispatch junk junk4 (l\<lparr>lp_index := lp_index l + 1\<rparr>) w
        else Ret (Again (l\<lparr>lp_init := False\<rparr>) w))
      else if lp_index l < 0 then Fault OutOfBounds
      else obind (wifi_hal_wait_on_event (lp_index l) (lp_buf l) 2047 w) (\<lambda>(_, i, buf, w1).
        if i < 0 \<or> nat i \<ge> length (lp_events l) then Fault OutOfBounds
        else dispatch junk junk4 (l\<lparr>lp_index := i, lp_buf := buf,
               lp_events := (lp_events l)[nat i := Some (wifi_hal_map_wpa_event_to_state (arr_str buf))]\<rparr>) w1))"

text \<open>Turns until the loop returns: None when it has not returned after \<open>n\<close> of them.\<close>

fun wifi_events_loop :: "nat \<Rightarrow> mem \<Rightarrow> mem \<Rightarrow> ev_loop \<Rightarrow> wifi_ctx \<Rightarrow> wifi_ctx option outcome" where
  "wifi_events_loop 0 junk junk4 l w = Ret None"
| "wifi_events_loop (Suc n) junk junk4 l w = obind (wifi_events_turn junk junk4 l w) (\<lambda>t. case t of
       Done w' \<Rightarrow> Ret (Some w')
     | Again l' w' \<Rightarrow> wifi_events_loop n junk junk4 l' w')"

definition wifi_events :: "nat \<Rightarrow> mem \<Rightarrow> mem \<Rightarrow> wifi_ctx \<Rightarrow> wifi_ctx option outcome" where
  "wifi_events n junk junk4 w = obind (events_start w) (\<lambda>(l, w1). wifi_events_loop n junk junk4 l w1)"

end
