(* ===== verification/WifiEvents.thy ===== *)
theory WifiEvents
  imports WifiLoop
begin

text \<open>
  The event loop of the WiFi radios: what a wait delivers, what the handlers leave alone, which
  states are reached, and when the loop ends.
\<close>

section \<open>Lemmas: messages\<close>

lemma arr_str_take_cases: "NUL \<notin> set s \<Longrightarrow> arr_str (s @ NUL # t) = s"
  by simp

lemma arr_str_put_event_text:
  "NUL \<notin> set t \<Longrightarrow> length t < buflen \<Longrightarrow> arr_str (put_event_text buf buflen t) = t"
  by (cases "buflen - length t") (auto simp: put_event_text_def Let_def)

lemma strip_verbose_level:
  assumes "buf = CHR ''<'' # lvl @ CHR ''>'' # msg @ NUL # r" "CHR ''>'' \<notin> set lvl" "NUL \<notin> set lvl" "NUL \<notin> set msg"
    and "nread = length lvl + length msg + 2" "length msg < buflen"
  shows "\<exists>buf'. strip_verbose buf buflen nread = Ret (buf', length msg) \<and> arr_str buf' = msg"
proof -
  have s: "arr_str buf = CHR ''<'' # lvl @ CHR ''>'' # msg" using assms(1,3,4) by simp
  have tw: "takeWhile (\<lambda>c. c \<noteq> CHR ''>'') (lvl @ CHR ''>'' # msg) = lvl"
    using assms(2) by (induction lvl) auto
  have d: "take (length msg + 1) (drop (length lvl + 2) buf) = msg @ [NUL]" using assms(1) by simp
  have e: "drop (length msg + 1) (arr_str buf @ [NUL]) = drop (length msg + 1) (arr_str buf @ [NUL])" ..
  have t: "arr_str (take (length msg + 1) (drop (length lvl + 2) buf) @ x) = msg" for x
    unfolding d using assms(4) by simp
  have "arr_str (take buflen (msg @ replicate buflen NUL) @ y) = msg" for y
    using assms(4,6) by (cases "buflen - length msg") auto
  then show ?thesis
    using s tw t assms(5) by (simp add: strip_verbose_def Let_def)
qed

text \<open>The mapping looks at the beginning of the text only.\<close>

lemma map_event_terminating: "wifi_hal_map_wpa_event_to_state (WPA_EVENT_TERMINATING @ t) = TERMINATE_EVENT"
  by (simp add: wifi_hal_map_wpa_event_to_state_def str_starts_def starts_with_def WPA_EVENT_TERMINATING_def
      WPA_EVENT_DISCONNECTED_def AP_EVENT_ENABLED_def MESH_GROUP_STARTED_def MESH_PEER_CONNECTED_def MESH_PEER_DISCONNECTED_def)

definition connected :: "wifi_ctx \<Rightarrow> bool" where
  "connected w = (length (wpa_ctx w) = WIFI_RADIO_MAX \<and> radio_amount w \<le> WIFI_RADIO_MAX
     \<and> list_all (\<lambda>x. wx_ctrl x \<noteq> None \<and> (case wx_monitor x of None \<Rightarrow> False
         | Some m \<Rightarrow> ctrl_local m \<notin> set (freed w) \<and> sock_in m = [])) (wpa_ctx w))"

lemma connected_monitor:
  assumes "connected w" "j < radio_amount w"
  obtains m where "wx_monitor (wpa_ctx w ! j) = Some m" "sock_in m = []" "j < length (wpa_ctx w)"
proof -
  have "j < length (wpa_ctx w)" using assms by (simp add: connected_def)
  moreover have "case wx_monitor (wpa_ctx w ! j) of None \<Rightarrow> False | Some m \<Rightarrow> ctrl_local m \<notin> set (freed w) \<and> sock_in m = []"
    using assms(1) calculation by (simp add: connected_def list_all_length)
  ultimately show thesis using that by (auto split: option.splits)
qed

lemma connected_open:
  assumes "connected w"
  shows "\<not> list_ex (\<lambda>x. wx_ctrl x = None) (wpa_ctx w)" "\<not> list_ex (\<lambda>x. wx_monitor x = None) (wpa_ctx w)"
    "\<not> list_ex (monitor_freed w) (wpa_ctx w)" "radio_amount w \<le> length (wpa_ctx w)"
  using assms by (auto simp: connected_def list_all_iff list_ex_iff monitor_freed_def split: option.splits)

lemma filter_upt_single: "i < n \<Longrightarrow> (\<And>j. j < n \<Longrightarrow> P j = (j = i)) \<Longrightarrow> filter P [0..<n] = [i]"
proof (induction n)
  case (Suc n)
  show ?case
  proof (cases "i = n")
    case True
    then have "filter P [0..<n] = []" using Suc.prems(2) by (simp add: filter_empty_conv)
    then show ?thesis using Suc.prems(2) [of n] True by simp
  next
    case False
    then show ?thesis using Suc.IH Suc.prems by simp
  qed
qed simp

lemma idle_not_pending:
  assumes "connected w" "j < radio_amount w"
  shows "\<not> monitor_pending j w"
proof -
  obtain m where "wx_monitor (wpa_ctx w ! j) = Some m" "sock_in m = []" using connected_monitor [OF assms] by blast
  then show ?thesis by (simp add: monitor_pending_def wpa_ctrl_pending_def)
qed

text \<open>A datagram on a monitor is received from that monitor, which is idle again afterwards.\<close>

lemma ctrl_recv_message:
  assumes "connected w" "i < radio_amount w" "polls w = PollMsg i bs # r" "n \<le> length buf"
  shows "wifi_hal_ctrl_recv index buf n w
    = Ret (0, int i, over_prefix (take n bs) buf, length (take n bs), w\<lparr>polls := r\<rparr>)"
proof -
  obtain m where m: "wx_monitor (wpa_ctx w ! i) = Some m" "sock_in m = []" "i < length (wpa_ctx w)"
    using connected_monitor [OF assms(1,2)] by blast
  let ?w = "deliver i bs (w\<lparr>polls := r\<rparr>)"
  have "\<not> list_ex (\<lambda>i. monitor_pending i w) [0..<radio_amount w]"
    using idle_not_pending [OF assms(1)] by (simp add: list_ex_iff)
  then have p: "poll_monitors w = Ret (True, ?w)" using assms(2,3) by (simp add: poll_monitors_def)
  have mi: "wx_monitor (wpa_ctx ?w ! i) = Some (m\<lparr>sock_in := [Datagram bs]\<rparr>)"
    using m by (simp add: deliver_def put_wpa_def)
  have "monitor_pending j ?w = (j = i)" if "j < radio_amount w" for j
  proof (cases "j = i")
    case True
    then show ?thesis using mi by (simp add: monitor_pending_def wpa_ctrl_pending_def)
  next
    case False
    then show ?thesis using idle_not_pending [OF assms(1) that] by (simp add: monitor_pending_def deliver_def put_wpa_def)
  qed
  then have f: "filter (\<lambda>i. monitor_pending i ?w) [0..<radio_amount ?w] = [i]"
    using filter_upt_single [OF assms(2)] by (simp add: deliver_def put_wpa_def)
  have x: "(wpa_ctx w ! i)\<lparr>wx_monitor := Some m\<rparr> = wpa_ctx w ! i" using m(1) by (cases "wpa_ctx w ! i") simp
  have "(wpa_ctx w)[i := (wpa_ctx w ! i)\<lparr>wx_monitor := Some m\<rparr>] = wpa_ctx w" unfolding x by simp
  moreover have "m\<lparr>sock_in := []\<rparr> = m" using m(2) by (cases m) simp
  ultimately have restored: "put_wpa i (\<lambda>x. x\<lparr>wx_monitor := Some (m\<lparr>sock_in := []\<rparr>)\<rparr>) ?w = w\<lparr>polls := r\<rparr>"
    using m(3) by (simp add: deliver_def put_wpa_def)
  show ?thesis
    using connected_open [OF assms(1)] p mi f restored assms(4)
    by (simp add: wifi_hal_ctrl_recv_def wpa_ctrl_recv_def over_prefix_def)
qed

lemma ctrl_recv_stdin:
  assumes "connected w" "polls w = PollStdin # r"
  shows "wifi_hal_ctrl_recv index buf n w = Ret (-1, index, buf, n, w\<lparr>polls := r\<rparr>)"
proof -
  have n: "\<not> monitor_pending i w" if "i < radio_amount w" for i using idle_not_pending [OF assms(1) that] .
  then have "\<not> list_ex (\<lambda>i. monitor_pending i w) [0..<radio_amount w]" by (simp add: list_ex_iff)
  moreover have "filter (\<lambda>i. monitor_pending i (w\<lparr>polls := r\<rparr>)) [0..<radio_amount w] = []"
    using n by (simp add: filter_empty_conv monitor_pending_def)
  ultimately show ?thesis
    using connected_open [OF assms(1)] assms(2) by (simp add: wifi_hal_ctrl_recv_def poll_monitors_def)
qed


lemma set_byte_behind:
  "length s < length m \<Longrightarrow> (over_prefix s m)[length s := NUL] = s @ NUL # drop (Suc (length s)) m"
  by (simp add: over_prefix_def list_update_append Cons_nth_drop_Suc [symmetric])

lemma strip_verbose_zero_inside:
  assumes "hd tail = NUL" "length tail > length lvl + 2" "CHR ''>'' \<notin> set lvl" "NUL \<notin> set lvl" "NUL \<notin> set msg"
  shows "strip_verbose (CHR ''<'' # lvl @ CHR ''>'' # msg @ tail @ NUL # x) buflen (length (CHR ''<'' # lvl @ CHR ''>'' # msg @ tail)) = Fault OutOfBounds"
proof -
  obtain rest where tail: "tail = NUL # rest" using assms(1,2) by (cases tail) auto
  have tw: "takeWhile (\<lambda>c. c \<noteq> CHR ''>'') (lvl @ CHR ''>'' # msg) = lvl"
    using assms(3) by (induction lvl) auto
  show ?thesis using assms(2,4,5) tw by (simp add: strip_verbose_def tail Let_def)
qed

lemma told_terminating:
  assumes "t \<in> {'' - connection closed'', '' - recv error'' @ [LF], '' - signal 0 received''}"
  shows "\<exists>n buf'. told buf 2047 t index w = Ret (n, index, buf', w) \<and> wifi_hal_map_wpa_event_to_state (arr_str buf') = TERMINATE_EVENT"
proof -
  have "arr_str (put_event_text buf 2047 (WPA_EVENT_TERMINATING @ t)) = WPA_EVENT_TERMINATING @ t"
    using assms by (intro arr_str_put_event_text) (auto simp: WPA_EVENT_TERMINATING_def)
  then show ?thesis by (simp add: told_def map_event_terminating)
qed

text \<open>The wait when a message with a level arrives.\<close>

lemma wait_strips:
  assumes "connected w" "length buf = 2048" "i < radio_amount w" "polls w = PollMsg i bs # r" "length bs \<le> 2046" "bs \<noteq> []"
  shows "wifi_hal_wait_on_event index buf 2047 w
    = obind (strip_verbose (bs @ NUL # drop (Suc (length bs)) buf) 2047 (length bs)) (\<lambda>(buf3, n). Ret (int n, int i, buf3, w\<lparr>polls := r\<rparr>))"
proof -
  have t: "take 2046 bs = bs" using assms(5) by (rule take_all)
  have b: "(over_prefix bs buf)[length bs := NUL] = bs @ NUL # drop (Suc (length bs)) buf" "length (over_prefix bs buf) = 2048"
    using set_byte_behind [of bs buf] assms(2,5) by simp_all
  show ?thesis
    using ctrl_recv_message [OF assms(1,3,4), of 2046 buf index] b assms(2,5,6) connected_open(2) [OF assms(1)]
    unfolding t by (simp add: wifi_hal_wait_on_event_def Let_def)
qed

lemma wait_message:
  assumes "connected w" "length buf = 2048" "i < radio_amount w" "polls w = PollMsg i (CHR ''<'' # lvl @ CHR ''>'' # msg) # r"
    and "CHR ''>'' \<notin> set lvl" "NUL \<notin> set lvl" "NUL \<notin> set msg" "length lvl + length msg + 2 \<le> 2046"
  shows "\<exists>buf'. wifi_hal_wait_on_event index buf 2047 w = Ret (int (length msg), int i, buf', w\<lparr>polls := r\<rparr>) \<and> arr_str buf' = msg"
proof -
  let ?bs = "CHR ''<'' # lvl @ CHR ''>'' # msg"
  have "length ?bs \<le> 2046" "?bs \<noteq> []" using assms(8) by simp_all
  from wait_strips [OF assms(1-4) this]
    strip_verbose_level [of "?bs @ NUL # drop (Suc (length ?bs)) buf" lvl msg "drop (Suc (length ?bs)) buf" "length ?bs" 2047] assms(5-8)
  show ?thesis by auto
qed

text \<open>
  A message of wpa_supplicant comes back with its radio and without the level in front of it.
  Anything typed on the standard input ends the wait with the terminating event for the radio that
  was served last, and so does a monitor that is not open. A message with a zero byte inside writes
  behind the copy it is stripped in.
\<close>

theorem wait_for_message:
  assumes "connected w" "length buf = 2048" "NUL \<notin> set lvl" "NUL \<notin> set msg" "CHR ''>'' \<notin> set lvl"
    "length lvl + length msg + length tail + 2 \<le> 2046"
  shows "(i < radio_amount w \<and> polls w = PollMsg i (CHR ''<'' # lvl @ CHR ''>'' # msg) # r \<longrightarrow>
      (\<exists>buf'. wifi_hal_wait_on_event index buf 2047 w = Ret (int (length msg), int i, buf', w\<lparr>polls := r\<rparr>) \<and> arr_str buf' = msg))
    \<and> (i < radio_amount w \<and> polls w = PollMsg i (CHR ''<'' # lvl @ CHR ''>'' # msg @ tail) # r
        \<and> hd tail = NUL \<and> length tail > length lvl + 2 \<longrightarrow> wifi_hal_wait_on_event index buf 2047 w = Fault OutOfBounds)
    \<and> (polls w = PollStdin # r \<longrightarrow> (\<exists>n buf'. wifi_hal_wait_on_event index buf 2047 w = Ret (n, index, buf', w\<lparr>polls := r\<rparr>)
        \<and> wifi_hal_map_wpa_event_to_state (arr_str buf') = TERMINATE_EVENT))
    \<and> (x \<in> set (wpa_ctx v) \<and> wx_monitor x = None \<longrightarrow> (\<exists>n buf'. wifi_hal_wait_on_event index buf 2047 v = Ret (n, index, buf', v)
        \<and> wifi_hal_map_wpa_event_to_state (arr_str buf') = TERMINATE_EVENT))"
proof (intro conjI impI)
  assume "i < radio_amount w \<and> polls w = PollMsg i (CHR ''<'' # lvl @ CHR ''>'' # msg) # r"
  then show "\<exists>buf'. wifi_hal_wait_on_event index buf 2047 w = Ret (int (length msg), int i, buf', w\<lparr>polls := r\<rparr>) \<and> arr_str buf' = msg"
    using wait_message [OF assms(1,2) _ _ assms(5,3,4)] assms(6) by simp
next
  let ?bs = "CHR ''<'' # lvl @ CHR ''>'' # msg @ tail"
  assume h: "i < radio_amount w \<and> polls w = PollMsg i ?bs # r \<and> hd tail = NUL \<and> length tail > length lvl + 2"
  then show "wifi_hal_wait_on_event index buf 2047 w = Fault OutOfBounds"
    using wait_strips [OF assms(1,2), of i ?bs r index] assms(6)
      strip_verbose_zero_inside [of tail lvl msg "drop (Suc (length ?bs)) buf" 2047, OF _ _ assms(5,3,4)] by simp
next
  assume "polls w = PollStdin # r"
  then show "\<exists>n buf'. wifi_hal_wait_on_event index buf 2047 w = Ret (n, index, buf', w\<lparr>polls := r\<rparr>)
        \<and> wifi_hal_map_wpa_event_to_state (arr_str buf') = TERMINATE_EVENT"
    using ctrl_recv_stdin [OF assms(1)] connected_open(2) [OF assms(1)] told_terminating
    by (simp add: wifi_hal_wait_on_event_def)
next
  assume "x \<in> set (wpa_ctx v) \<and> wx_monitor x = None"
  then have "list_ex (\<lambda>x. wx_monitor x = None) (wpa_ctx v)" by (auto simp: list_ex_iff)
  then show "\<exists>n buf'. wifi_hal_wait_on_event index buf 2047 v = Ret (n, index, buf', v)
        \<and> wifi_hal_map_wpa_event_to_state (arr_str buf') = TERMINATE_EVENT"
    using told_terminating by (simp add: wifi_hal_wait_on_event_def)
qed

section \<open>What the handlers leave alone\<close>

definition all_ret :: "('a \<Rightarrow> bool) \<Rightarrow> 'a outcome \<Rightarrow> bool" where
  "all_ret P m = (case m of Ret x \<Rightarrow> P x | _ \<Rightarrow> True)"

lemma all_ret_simps [simp]: "all_ret P (Ret x) = P x" "all_ret P (Fault f)" "all_ret P Blocked"
  by (simp_all add: all_ret_def)

lemma all_ret_bind: "all_ret P m \<Longrightarrow> (\<And>x. P x \<Longrightarrow> all_ret Q (f x)) \<Longrightarrow> all_ret Q (obind m f)"
  by (cases m) simp_all

lemma all_ret_mono: "all_ret P m \<Longrightarrow> (\<And>x. P x \<Longrightarrow> Q x) \<Longrightarrow> all_ret Q m"
  by (cases m) simp_all

lemma all_ret_any: "all_ret (\<lambda>_. True) m"
  by (cases m) simp_all

text \<open>The part of the state that the event loop decides on.\<close>

definition core :: "wifi_ctx \<Rightarrow> wifi_state list \<times> nat \<times> bool list \<times> wifi_config list" where
  "core w = (wifi_states w, radio_amount w, map (\<lambda>x. wx_monitor x = None) (wpa_ctx w), wifi_configs w)"

lemma core_put_wpa [simp]:
  "(\<And>x. wx_monitor (f x) = wx_monitor x) \<Longrightarrow> core (put_wpa i f w) = core w"
  by (cases "i < length (wpa_ctx w)") (simp_all add: core_def put_wpa_def map_update list_update_same_conv list_update_beyond)

lemma core_updates [simp]:
  "core (w\<lparr>nl_in := a\<rparr>) = core w" "core (w\<lparr>nl_out := b\<rparr>) = core w" "core (w\<lparr>nl_results := c\<rparr>) = core w"
  "core (w\<lparr>files_written := d\<rparr>) = core w" "core (w\<lparr>debugfs_root := e\<rparr>) = core w" "core (w\<lparr>drv_version := g\<rparr>) = core w"
  "core (w\<lparr>new_ctrls := h\<rparr>) = core w" "core (w\<lparr>ctrl_counter := j\<rparr>) = core w" "core (w\<lparr>sys_log := k\<rparr>) = core w"
  by (simp_all add: core_def)

lemma core_nl_send: "core (snd (nl_send r w)) = core w"
  by (simp add: nl_send_def split: list.split)

lemma core_recv_ack: "core v = core w \<Longrightarrow> all_ret (\<lambda>(_, w'). core w' = core w) (recv_ack es v)"
  by (induction es v rule: recv_ack.induct) auto

lemma core_nl_set: "all_ret (\<lambda>(_, w'). core w' = core w) (nl_set r w)"
  using core_nl_send [of r w] core_recv_ack by (auto simp: nl_set_def split: prod.split)

lemma core_nlmsg: "all_ret (\<lambda>(_, w'). core w' = core w) (f w) \<Longrightarrow> all_ret (\<lambda>(_, w'). core w' = core w) (with_nlmsg err f w)"
  using with_nlmsg_cases [of err f w] by auto

lemma core_params: "all_ret (\<lambda>(_, w'). core w' = core w) (wifi_hal_set_distance i cfg w)"
  "all_ret (\<lambda>(_, w'). core w' = core w) (wifi_hal_set_txpower i cfg w)"
  "all_ret (\<lambda>(_, w'). core w' = core w) (wifi_hal_set_country i cfg w)"
  "all_ret (\<lambda>(_, w'). core w' = core w) (wifi_hal_set_mesh_fwding i fwd w)"
  unfolding wifi_hal_set_distance_def wifi_hal_set_txpower_def wifi_hal_set_country_def wifi_hal_set_mesh_fwding_def
  by (auto intro!: core_nlmsg all_ret_bind [OF all_ret_any] core_nl_set split: prod.split option.split)

lemma core_debugfs_write: "core (snd (wifi_debugfs_write f s i w)) = core w"
  by (simp add: wifi_debugfs_write_def)

lemma core_debugfs_init: "core (snd (wifi_debugfs_init i w)) = core w"
  by (simp add: wifi_debugfs_init_def Let_def split: option.split)

lemma core_radio_params: "all_ret (\<lambda>w'. core w' = core w) (radio_params i cfg w)"
proof -
  obtain r w1 where f: "wifi_debugfs_write ''chanbw'' (bw_str cfg) i w = (r, w1)" by (rule prod.exhaust)
  then have w1: "core w1 = core w" using core_debugfs_write [of "''chanbw''" "bw_str cfg" i w] by simp
  show ?thesis unfolding radio_params_def f prod.case
    by (auto intro!: all_ret_bind [OF core_params(2)] all_ret_bind [OF core_params(1)] all_ret_bind [OF core_params(3)] simp: w1)
qed

lemma core_send_on:
  assumes "\<And>c x. wx_monitor (put c x) = wx_monitor x"
  shows "all_ret (\<lambda>(_, _, w'). core w' = core w) (send_on get put i cmd b w)"
  using assms core_put_wpa [of "put _" i w, unfolded put_wpa_def]
  by (auto simp: send_on_def elem_def intro!: all_ret_bind [OF all_ret_any] split: option.split prod.split)

lemma core_send: "all_ret (\<lambda>(_, _, w'). core w' = core w) (wifi_hal_send_wpa_command i cmd b w)"
  "all_ret (\<lambda>(_, _, w'). core w' = core w) (wifi_hal_send_wpa_mesh_command i cmd b w)"
  unfolding wifi_hal_send_wpa_command_def wifi_hal_send_wpa_mesh_command_def
  by (auto intro!: all_ret_bind [OF all_ret_any] core_send_on)

lemma core_send_steps:
  assumes "\<And>cmd b w. all_ret (\<lambda>(_, _, w'). core w' = core w) (send i cmd b w)"
  shows "core v = core w \<Longrightarrow> all_ret (\<lambda>(_, _, w'). core w' = core w) (send_steps send i cs b v)"
proof (induction cs arbitrary: b v)
  case (Cons c cs)
  then show ?case by (auto intro!: all_ret_bind [OF assms])
qed simp

lemma core_open_ctrl: "all_ret (\<lambda>(_, w'). core w' = core w) (open_ctrl p w)"
  by (auto simp: open_ctrl_def split: list.split prod.split)

lemma core_mesh_attach: "all_ret (\<lambda>(_, w'). core w' = core w) (wifi_hal_wpa_mesh_attach i w)"
  by (auto simp: wifi_hal_wpa_mesh_attach_def intro!: all_ret_bind [OF core_open_ctrl])

lemma core_create_ap: "all_ret (\<lambda>(_, w'). core w' = core w) (wifi_hal_create_ap i w)"
  unfolding wifi_hal_create_ap_def Let_def
  by (auto intro!: all_ret_bind [OF all_ret_any, where m = "elem _ _"] all_ret_bind [OF core_send(1)] all_ret_bind [OF core_send_steps [OF core_send(1), where w = w]]
      all_ret_bind [OF core_radio_params] simp del: send_steps.simps)

lemma core_connect_ap: "all_ret (\<lambda>(_, w'). core w' = core w) (wifi_hal_connect_ap i w)"
  unfolding wifi_hal_connect_ap_def Let_def
  by (auto intro!: all_ret_bind [OF all_ret_any, where m = "elem _ _"] all_ret_bind [OF core_send(1)]
      all_ret_bind [OF core_radio_params])

lemma core_join_mesh: "all_ret (\<lambda>(_, w'). core w' = core w) (wifi_hal_join_mesh i w)"
  unfolding wifi_hal_join_mesh_def Let_def
  by (auto intro!: all_ret_bind [OF all_ret_any, where m = "elem _ _"] all_ret_bind [OF core_mesh_attach] all_ret_bind [OF core_send(1)]
      all_ret_bind [OF core_send(2)] all_ret_bind [OF core_send_steps [OF core_send(2), where w = w]]
      all_ret_bind [OF core_radio_params] simp del: send_steps.simps)

section \<open>Transitions\<close>

lemma core_recv:
  "core v = core w \<Longrightarrow> all_ret (\<lambda>(_, _, _, _, w'). core w' = core w) (wifi_hal_ctrl_recv index buf n v)"
proof -
  assume v: "core v = core w"
  have d: "core (deliver i bs x) = core x" for i bs x by (simp add: deliver_def put_wpa_def core_def map_update list_update_same_conv)
      (cases "i < length (wpa_ctx x)"; simp add: list_update_same_conv list_update_beyond)
  have "core x = core w \<Longrightarrow> all_ret (\<lambda>(_, w'). core w' = core w) (poll_wait es x)" for es x
  proof (induction es x rule: poll_wait.induct)
    case (4 i bs r x)
    then show ?case using d [of i bs x] d [of i bs "x\<lparr>polls := r\<rparr>"] by (simp add: core_def)
  qed (simp_all add: core_def)
  then have p: "all_ret (\<lambda>(_, w'). core w' = core w) (poll_monitors v)" using v by (simp add: poll_monitors_def)
  have m: "wx_monitor (wpa_ctx x ! i) = Some c \<Longrightarrow> core (put_wpa i (\<lambda>y. y\<lparr>wx_monitor := Some c'\<rparr>) x) = core x" for x i c c'
    by (cases "i < length (wpa_ctx x)") (simp_all add: core_def put_wpa_def map_update list_update_same_conv list_update_beyond)
  show ?thesis unfolding wifi_hal_ctrl_recv_def
    using v m by (auto intro!: all_ret_bind [OF p] all_ret_bind [OF all_ret_any, where m = "wpa_ctrl_recv _ _ _"] split: list.split option.split)
qed

lemma core_wait: "all_ret (\<lambda>(_, _, _, w'). core w' = core w) (wifi_hal_wait_on_event index buf n w)"
  unfolding wifi_hal_wait_on_event_def told_def Let_def
  by (auto intro!: all_ret_bind [OF core_recv [OF refl]] all_ret_bind [OF all_ret_any, where m = "strip_verbose _ _ _"])

lemma init_handler_result:
  "all_ret (\<lambda>(s, w'). core w' = core w \<and> s \<in> {IF_INIT_STAGE_1, UNKNOWN_STATE}) (init_handler i w)"
proof -
  obtain r w1 where d: "wifi_debugfs_init i w = (r, w1)" by (rule prod.exhaust)
  then have w1: "core w1 = core w" using core_debugfs_init [of i w] by simp
  show ?thesis unfolding init_handler_def d prod.case Let_def
    using core_create_ap [of w1 i] core_connect_ap [of w1 i] core_join_mesh [of w1 i] w1
    by (auto intro!: all_ret_bind [OF all_ret_any, where m = "elem _ _"] elim!: all_ret_bind)
qed

lemma stage_2_handler:
  assumes "i < length (wifi_configs w)" "i < length (ifname w)" "nl_results w = []"
  shows "init_stage_2_handler i w = (if starts_with (mode_str (wifi_configs w ! i)) ''mesh'' then Fault OutOfBounds else Ret (IF_UP_STATE, w))"
  using assms by (simp add: init_stage_2_handler_def wifi_hal_set_mesh_fwding_def mesh_fwding_of_array_def CTX_SIZE_def
      CTX_CONFIG_OFFSET_def MESH_FWDING_OFFSET_def)

lemma stage_2_result: "all_ret (\<lambda>(s, w'). core w' = core w \<and> s = IF_UP_STATE) (init_stage_2_handler i w)"
  unfolding init_stage_2_handler_def
  by (auto intro!: all_ret_bind [OF all_ret_any, where m = "elem _ _"] all_ret_bind [OF core_params(4)])

definition reached :: "wifi_state set" where
  "reached = {IF_DOWN_STATE, INIT_STATE, UNKNOWN_STATE, IF_INIT_STAGE_1, IF_UP_STATE, SHUTDOWN_STATE}"

text \<open>The first stage is left by one message only: an access point or a station, which gets other
  messages, stays in it for good, and a terminating supplicant is not noticed there.\<close>

lemma stage_1_left_by_mesh:
  "find_row IF_INIT_STAGE_1 (wifi_hal_map_wpa_event_to_state t) (wifi_asStateMachine junk junk4) =
     (if str_starts t MESH_GROUP_STARTED then Some init_stage_2_handler else None)"
proof -
  have "\<not> (str_starts t MESH_GROUP_STARTED \<and> str_starts t WPA_EVENT_DISCONNECTED)"
    "\<not> (str_starts t MESH_GROUP_STARTED \<and> str_starts t AP_EVENT_ENABLED)"
    by (auto simp: str_starts_def starts_with_iff MESH_GROUP_STARTED_def WPA_EVENT_DISCONNECTED_def AP_EVENT_ENABLED_def)
  then show ?thesis by (auto simp: wifi_hal_map_wpa_event_to_state_def wifi_asStateMachine_def)
qed

lemma access_point_stays:
  "find_row st (wifi_hal_map_wpa_event_to_state (AP_EVENT_ENABLED @ t)) (wifi_asStateMachine junk junk4) = None"
proof -
  have "wifi_hal_map_wpa_event_to_state (AP_EVENT_ENABLED @ t) = AP_ENABLED_EVENT"
    by (simp add: wifi_hal_map_wpa_event_to_state_def str_starts_def starts_with_def WPA_EVENT_DISCONNECTED_def AP_EVENT_ENABLED_def)
  then show ?thesis by (simp add: wifi_asStateMachine_def)
qed

lemma find_row_reached:
  assumes "s \<in> reached" "find_row s e (wifi_asStateMachine junk junk4) = Some h"
  shows "(s = INIT_STATE \<and> e = STARTUP_EVENT \<and> h = init_handler) \<or> (s = IF_INIT_STAGE_1 \<and> e = STARTUP_STAGE_2_EVENT \<and> h = init_stage_2_handler)
    \<or> (s = IF_UP_STATE \<and> e = TERMINATE_EVENT \<and> h = terminate_handler)"
  using assms by (auto simp: reached_def wifi_asStateMachine_def split: if_splits)

section \<open>Reachable states\<close>

text \<open>One turn of the loop that goes on.\<close>

inductive ev_step :: "ev_loop \<times> wifi_ctx \<Rightarrow> ev_loop \<times> wifi_ctx \<Rightarrow> bool" where
  turn: "wifi_events_turn junk junk4 l w = Ret (Again l' w') \<Longrightarrow> ev_step (l, w) (l', w')"

inductive_cases ev_stepE: "ev_step (l, w) (l', w')"

definition ev_inv :: "wifi_ctx \<Rightarrow> ev_loop \<times> wifi_ctx \<Rightarrow> bool" where
  "ev_inv w0 s = (case s of (l, w) \<Rightarrow> set (wifi_states w) \<subseteq> reached \<and> snd (core w) = snd (core w0))"

lemma dispatch_inv:
  assumes "ev_inv w0 (l0, w)" "dispatch junk junk4 l w = Ret (Again l' w')"
  shows "ev_inv w0 (l', w')"
proof -
  have r: "set (wifi_states w) \<subseteq> reached" "snd (core w) = snd (core w0)" using assms(1) by (simp_all add: ev_inv_def)
  let ?i = "nat (lp_index l)"
  show ?thesis
  proof (cases "w' = w")
    case True
    with r show ?thesis by (simp add: ev_inv_def)
  next
    case False
    with assms(2) obtain h s w1 e where h: "find_row (wifi_states w ! ?i) e (wifi_asStateMachine junk junk4) = Some h"
      "h ?i w = Ret (s, w1)" "w' = w1\<lparr>wifi_states := (wifi_states w1)[?i := s]\<rparr>" "?i < length (wifi_states w)"
      by (auto simp: dispatch_def Let_def elem_def outcome_simps split: if_splits option.splits)
    have "wifi_states w ! ?i \<in> reached" using r(1) h(4) by (meson nth_mem subsetD)
    from find_row_reached [OF this h(1)] have "core w1 = core w \<and> s \<in> reached"
      using h(2) init_handler_result [of w ?i] stage_2_result [of w ?i]
      by (auto simp: reached_def terminate_handler_def)
    then show ?thesis using r h(3) set_update_subset_insert [of "wifi_states w1" ?i s]
      by (auto simp: ev_inv_def core_def)
  qed
qed

lemma turn_inv:
  assumes "ev_inv w0 (l, w)" "wifi_events_turn junk junk4 l w = Ret (Again l' w')"
  shows "ev_inv w0 (l', w')"
proof (cases "lp_init l")
  case True
  with assms(2) consider "w' = w" | "dispatch junk junk4 (l\<lparr>lp_index := lp_index l + 1\<rparr>) w = Ret (Again l' w')"
    by (auto simp: wifi_events_turn_def outcome_simps split: if_splits)
  then show ?thesis
  proof cases
    case 1
    with assms(1) show ?thesis by (simp add: ev_inv_def)
  next
    case 2
    from dispatch_inv [OF assms(1) this] show ?thesis .
  qed
next
  case False
  then obtain n i buf w1 l1 where w: "wifi_hal_wait_on_event (lp_index l) (lp_buf l) 2047 w = Ret (n, i, buf, w1)"
    "dispatch junk junk4 l1 w1 = Ret (Again l' w')"
    using assms(2) by (auto simp: wifi_events_turn_def outcome_simps split: if_splits)
  have "core w1 = core w" using core_wait [of w "lp_index l" "lp_buf l" 2047] w(1) by simp
  then have "ev_inv w0 (l, w1)" using assms(1) by (simp add: ev_inv_def core_def)
  from dispatch_inv [OF this w(2)] show ?thesis .
qed

lemma steps_inv: "ev_step\<^sup>*\<^sup>* s t \<Longrightarrow> ev_inv w0 s \<Longrightarrow> ev_inv w0 t"
proof (induction rule: rtranclp_induct)
  case (step t u)
  then show ?case using turn_inv by (cases t; cases u) (auto elim!: ev_stepE)
qed

text \<open>
  C33: from the start of the event loop each radio is always in the initial state, in the first
  stage, up, shut down or in the unknown state: the connected and the disconnected state of the
  table are never reached, so neither of their handlers runs. The number of radios, their
  configurations and which of them have a monitor stay as they were.
\<close>

theorem wifi_states_reached:
  assumes "events_start w = Ret s" "set (wifi_states w) \<subseteq> {IF_DOWN_STATE}" "ev_step\<^sup>*\<^sup>* s (l, v)"
  shows "set (wifi_states v) \<subseteq> {IF_DOWN_STATE, INIT_STATE, UNKNOWN_STATE, IF_INIT_STAGE_1, IF_UP_STATE, SHUTDOWN_STATE}
    \<and> radio_amount v = radio_amount w \<and> wifi_configs v = wifi_configs w
    \<and> map (\<lambda>x. wx_monitor x = None) (wpa_ctx v) = map (\<lambda>x. wx_monitor x = None) (wpa_ctx w)"
proof -
  have "ev_inv w s"
    using assms(1,2) set_drop_subset [of "radio_amount w" "wifi_states w"]
    by (auto simp: events_start_def Let_def ev_inv_def core_def reached_def split: if_splits)
  from steps_inv [OF assms(3) this] show ?thesis by (simp add: ev_inv_def core_def reached_def)
qed

text \<open>The loop returns only when a radio has been shut down.\<close>

lemma dispatch_done: "dispatch junk junk4 l w = Ret (Done w') \<Longrightarrow> w' = w \<and> SHUTDOWN_STATE \<in> set (take (radio_amount w) (wifi_states w))"
proof -
  assume d: "dispatch junk junk4 l w = Ret (Done w')"
  then obtain ev st where e: "elem (lp_events l) (nat (lp_index l)) = Ret ev" "elem (wifi_states w) (nat (lp_index l)) = Ret st"
    by (auto simp: dispatch_def Let_def outcome_simps)
  show ?thesis
  proof (cases "list_ex (\<lambda>s. s = SHUTDOWN_STATE) (take (radio_amount w) (wifi_states w))")
    case True
    then have "SHUTDOWN_STATE \<in> set (take (radio_amount w) (wifi_states w))" by (auto simp: list_ex_iff)
    with True d e show ?thesis by (cases ev) (simp_all add: dispatch_def Let_def split: if_splits)
  next
    case False
    with d e show ?thesis
      by (cases ev; cases "find_row st (the ev) (wifi_asStateMachine junk junk4)")
        (auto simp: dispatch_def Let_def outcome_simps split: if_splits)
  qed
qed

section \<open>A single radio\<close>

definition spinning :: "ev_loop \<Rightarrow> wifi_ctx \<Rightarrow> bool" where
  "spinning l w = (\<not> lp_init l \<and> lp_index l = 0 \<and> length (lp_events l) = 2 \<and> list_ex (\<lambda>x. wx_monitor x = None) (wpa_ctx w)
     \<and> radio_amount w = 1 \<and> length (wifi_states w) = 2 \<and> wifi_states w ! 0 \<in> {IF_INIT_STAGE_1, UNKNOWN_STATE})"

lemma spin_turn:
  assumes "spinning l w"
  shows "\<exists>l'. wifi_events_turn junk junk4 l w = Ret (Again l' w) \<and> spinning l' w"
proof -
  obtain n buf where t: "told (lp_buf l) 2047 '' - connection closed'' 0 w = Ret (n, 0, buf, w)"
    "wifi_hal_map_wpa_event_to_state (arr_str buf) = TERMINATE_EVENT"
    using told_terminating [of "'' - connection closed''" "lp_buf l" 0 w] by auto
  obtain s0 s1 where s: "wifi_states w = [s0, s1]" "s0 \<in> {IF_INIT_STAGE_1, UNKNOWN_STATE}"
    using assms by (cases "wifi_states w"; cases "tl (wifi_states w)") (auto simp: spinning_def)
  have w: "wifi_hal_wait_on_event 0 (lp_buf l) 2047 w = Ret (n, 0, buf, w)"
    using assms t(1) by (simp add: wifi_hal_wait_on_event_def spinning_def)
  have "dispatch junk junk4 (l\<lparr>lp_index := 0, lp_buf := buf, lp_events := (lp_events l)[0 := Some TERMINATE_EVENT]\<rparr>) w
      = Ret (Again (l\<lparr>lp_index := 0, lp_buf := buf, lp_events := (lp_events l)[0 := Some TERMINATE_EVENT]\<rparr>) w)"
    using assms s by (auto simp: dispatch_def spinning_def wifi_asStateMachine_def less_wifi_state_def wifi_state_code_def)
  then show ?thesis using assms w t(2)
    by (auto simp: wifi_events_turn_def spinning_def)
qed

lemma spin_forever: "spinning l w \<Longrightarrow> wifi_events_loop n junk junk4 l w = Ret None"
proof (induction n arbitrary: l)
  case (Suc n)
  from spin_turn [OF Suc.prems] obtain l' where "wifi_events_turn junk junk4 l w = Ret (Again l' w)" "spinning l' w" by blast
  with Suc.IH show ?case by simp
qed simp

lemma code_init [simp]: "wifi_state_code s = -1 \<longleftrightarrow> s = INIT_STATE"
  by (simp add: wifi_state_code_def split: wifi_state.split)

lemma dispatch_startup:
  assumes "nat (lp_index l) < length (wifi_states w)" "lp_events l ! nat (lp_index l) = Some STARTUP_EVENT"
    "nat (lp_index l) < length (lp_events l)" "wifi_states w ! nat (lp_index l) = INIT_STATE"
    "SHUTDOWN_STATE \<notin> set (take (radio_amount w) (wifi_states w))"
  shows "dispatch junk junk4 l w = obind (init_handler (nat (lp_index l)) w)
    (\<lambda>(s, w'). Ret (Again l (w'\<lparr>wifi_states := (wifi_states w')[nat (lp_index l) := s]\<rparr>)))"
proof -
  have "\<not> list_ex (\<lambda>s. s = SHUTDOWN_STATE) (take (radio_amount w) (wifi_states w))" using assms(5) by (auto simp: list_ex_iff)
  then show ?thesis using assms by (simp add: dispatch_def Let_def wifi_asStateMachine_def less_wifi_state_def wifi_state_code_def)
qed

text \<open>
  C34: with one radio the event loop never ends and, once the radio has been brought up, never
  blocks: the second monitor is missing, so every wait returns at once with a terminating event
  that no row of the table takes in the first stage.
\<close>

theorem single_radio_spins:
  assumes "radio_amount w = 1" "length (wifi_states w) = 2" "wifi_states w ! 1 \<noteq> INIT_STATE"
    and "length (wpa_ctx w) = 2" "wx_monitor (wpa_ctx w ! 1) = None"
  shows "wifi_events n junk junk4 w \<noteq> Ret (Some v)
    \<and> (init_handler 0 (w\<lparr>wifi_states := [INIT_STATE, wifi_states w ! 1]\<rparr>) = Ret (s, w1) \<longrightarrow> wifi_events n junk junk4 w = Ret None)"
proof -
  define w0 where "w0 = w\<lparr>wifi_states := [INIT_STATE, wifi_states w ! 1]\<rparr>"
  define l0 where "l0 = \<lparr>lp_init = True, lp_index = -1, lp_events = [Some STARTUP_EVENT, None], lp_buf = replicate 2048 NUL\<rparr>"
  define l1 where "l1 = l0\<lparr>lp_index := 0\<rparr>"
  have st: "events_start w = Ret (l0, w0)"
    using assms(1,2) by (cases "wifi_states w"; cases "tl (wifi_states w)")
      (auto simp: events_start_def WIFI_RADIO_MAX_def l0_def w0_def)
  have t1: "wifi_events_turn junk junk4 l0 w0 = obind (init_handler 0 w0) (\<lambda>(s, w'). Ret (Again l1 (w'\<lparr>wifi_states := (wifi_states w')[0 := s]\<rparr>)))"
    using dispatch_startup [of l1 w0 junk junk4] assms(1)
    by (simp add: wifi_events_turn_def state_at_def l0_def l1_def w0_def wifi_state_code_def)
  have rest: "wifi_events_loop k junk junk4 l1 (w'\<lparr>wifi_states := (wifi_states w')[0 := s]\<rparr>) = Ret None"
    if h: "init_handler 0 w0 = Ret (s, w')" for s w' k
  proof -
    let ?w = "w'\<lparr>wifi_states := (wifi_states w')[0 := s]\<rparr>"
    have c: "core w' = core w0" "s \<in> {IF_INIT_STAGE_1, UNKNOWN_STATE}" using init_handler_result [of w0 0] h by auto
    have ws: "wifi_states w' = [INIT_STATE, wifi_states w ! 1]" "radio_amount w' = 1" using c(1) assms(1) by (simp_all add: core_def w0_def)
    have "map (\<lambda>x. wx_monitor x = None) (wpa_ctx w') ! 1" "length (wpa_ctx w') = 2"
      using c(1) assms(4,5) by (simp_all add: core_def w0_def) (metis length_map)
    then have "list_ex (\<lambda>x. wx_monitor x = None) (wpa_ctx w')" by (force simp: list_ex_length)
    then have sp: "spinning (l1\<lparr>lp_init := False\<rparr>) ?w" using c(2) ws by (simp add: spinning_def l1_def l0_def)
    have "wifi_events_turn junk junk4 l1 ?w = Ret (Again (l1\<lparr>lp_init := False\<rparr>) ?w)"
      using ws assms(3) by (simp add: wifi_events_turn_def state_at_def l1_def l0_def wifi_state_code_def [of INIT_STATE])
    then show ?thesis using spin_forever [OF sp] by (cases k) simp_all
  qed
  show ?thesis
  proof (cases n)
    case (Suc k)
    then show ?thesis using st t1 rest [of _ _ k] unfolding w0_def [symmetric]
      by (cases "init_handler 0 w0") (auto simp: wifi_events_def)
  qed (simp add: wifi_events_def st)
qed

section \<open>Two radios\<close>

text \<open>
  With two radios the loop runs the initial handler of radio 0 and then of radio 1, once each,
  and then waits for messages: the element behind the state array, which it reads to see that there
  is no third radio, is the number of radios.
\<close>

theorem radios_start_in_order:
  assumes "radio_amount w = 2" "length (wifi_states w) = 2"
    and "init_handler 0 (w\<lparr>wifi_states := [INIT_STATE, INIT_STATE]\<rparr>) = Ret (s0, w1)"
    and "init_handler 1 (w1\<lparr>wifi_states := [s0, INIT_STATE]\<rparr>) = Ret (s1, w2)"
  shows "\<exists>l. \<not> lp_init l \<and> lp_index l = 1 \<and> {s0, s1} \<subseteq> {IF_INIT_STAGE_1, UNKNOWN_STATE}
    \<and> (\<forall>n. wifi_events (n + 3) junk junk4 w = wifi_events_loop n junk junk4 l (w2\<lparr>wifi_states := [s0, s1]\<rparr>))"
proof -
  define w0 where "w0 = w\<lparr>wifi_states := [INIT_STATE, INIT_STATE]\<rparr>"
  define l0 where "l0 = \<lparr>lp_init = True, lp_index = -1, lp_events = [Some STARTUP_EVENT, Some STARTUP_EVENT], lp_buf = replicate 2048 NUL\<rparr>"
  let ?l1 = "l0\<lparr>lp_index := 0\<rparr>" let ?l2 = "l0\<lparr>lp_index := 1\<rparr>" let ?l3 = "?l2\<lparr>lp_init := False\<rparr>"
  let ?w1 = "w1\<lparr>wifi_states := [s0, INIT_STATE]\<rparr>" let ?w2 = "w2\<lparr>wifi_states := [s0, s1]\<rparr>"
  have st: "events_start w = Ret (l0, w0)"
    using assms(1,2) by (simp add: events_start_def WIFI_RADIO_MAX_def l0_def w0_def numeral_2_eq_2)
  have c1: "core w1 = core w0" "s0 \<in> {IF_INIT_STAGE_1, UNKNOWN_STATE}"
    using init_handler_result [of w0 0] assms(3) by (auto simp: w0_def)
  then have w1: "wifi_states w1 = [INIT_STATE, INIT_STATE]" "radio_amount w1 = 2" using assms(1) by (simp_all add: core_def w0_def)
  have c2: "core w2 = core ?w1" "s1 \<in> {IF_INIT_STAGE_1, UNKNOWN_STATE}"
    using init_handler_result [of ?w1 1] assms(4) by auto
  then have w2: "wifi_states w2 = [s0, INIT_STATE]" "radio_amount w2 = 2" using w1(2) by (simp_all add: core_def)
  have t1: "wifi_events_turn junk junk4 l0 w0 = Ret (Again ?l1 ?w1)"
    using dispatch_startup [of ?l1 w0 junk junk4] assms(1,3) w1
    by (simp add: wifi_events_turn_def state_at_def l0_def w0_def wifi_state_code_def)
  have t2: "wifi_events_turn junk junk4 ?l1 ?w1 = Ret (Again ?l2 ?w2)"
    using dispatch_startup [of ?l2 ?w1 junk junk4] assms(4) w1 w2 c1(2)
    by (auto simp: wifi_events_turn_def state_at_def l0_def wifi_state_code_def [of INIT_STATE])
  have t3: "wifi_events_turn junk junk4 ?l2 ?w2 = Ret (Again ?l3 ?w2)"
    using w2 by (simp add: wifi_events_turn_def state_at_def l0_def wifi_state_code_def)
  have "wifi_events (n + 3) junk junk4 w = wifi_events_loop n junk junk4 ?l3 ?w2" for n
    using st t1 t2 t3 by (simp add: wifi_events_def numeral_3_eq_3)
  then show ?thesis using c1(2) c2(2) by (intro exI [of _ ?l3]) (simp add: l0_def)
qed

section \<open>A message\<close>

text \<open>What a message means for a radio: None for the read outside the context.\<close>

definition radio_next :: "bool \<Rightarrow> wifi_state \<Rightarrow> wifi_SystemEvent \<Rightarrow> wifi_state option" where
  "radio_next mesh s e = (if s = IF_INIT_STAGE_1 \<and> e = STARTUP_STAGE_2_EVENT then (if mesh then None else Some IF_UP_STATE)
     else if s = IF_UP_STATE \<and> e = TERMINATE_EVENT then Some SHUTDOWN_STATE else Some s)"

text \<open>What happens with the event of one radio while none has shut down.\<close>

lemma dispatch_one:
  assumes "lp_index l = int i" "elem (lp_events l) i = Ret (Some e)" "elem (wifi_states w) i = Ret s" "e \<noteq> LAST_EVENT"
    and "s \<in> reached - {INIT_STATE, SHUTDOWN_STATE}"
    and "\<not> list_ex (\<lambda>s. s = SHUTDOWN_STATE) (take (radio_amount w) (wifi_states w))"
  shows "dispatch junk junk4 l w = (if e = NO_EVENT then Ret (Again l w)
      else case find_row s e (wifi_asStateMachine junk junk4) of None \<Rightarrow> Ret (Again l w)
        | Some h \<Rightarrow> obind (h i w) (\<lambda>(s, w'). Ret (Again l (w'\<lparr>wifi_states := (wifi_states w')[i := s]\<rparr>))))"
proof -
  have "s < LAST_STATE" using assms(5) by (auto simp: reached_def less_wifi_state_def wifi_state_code_def)
  then show ?thesis using assms by (simp add: dispatch_def Let_def)
qed

text \<open>
  C32: a message for a radio is one step of the automaton \<open>radio_next\<close>, and changes nothing else: the
  start of a mesh group takes a radio from its first stage up, the end of wpa_supplicant shuts down
  a radio that is up, and every other message leaves the state. For a radio in mesh mode the start
  of its group reads the setting of mesh forwarding outside the context.
\<close>

theorem message_refines_automaton:
  assumes "connected w" "\<not> lp_init l" "0 \<le> lp_index l" "length (lp_buf l) = 2048" "length (lp_events l) = 2"
    and "length (wifi_states w) = 2" "length (wifi_configs w) = 2" "length (ifname w) = 2" "i < radio_amount w" "nl_results w = []"
    and "polls w = PollMsg i (CHR ''<'' # lvl @ CHR ''>'' # msg) # r"
    and "CHR ''>'' \<notin> set lvl" "NUL \<notin> set lvl" "NUL \<notin> set msg" "length lvl + length msg + 2 \<le> 2046"
    and "set (wifi_states w) \<subseteq> reached - {INIT_STATE, SHUTDOWN_STATE}"
  shows "case radio_next (starts_with (mode_str (wifi_configs w ! i)) ''mesh'') (wifi_states w ! i) (wifi_hal_map_wpa_event_to_state msg) of
      None \<Rightarrow> wifi_events_turn junk junk4 l w = Fault OutOfBounds
    | Some s \<Rightarrow> \<exists>l'. wifi_events_turn junk junk4 l w = Ret (Again l' (w\<lparr>polls := r, wifi_states := (wifi_states w)[i := s]\<rparr>))
        \<and> lp_index l' = int i \<and> lp_events l' = (lp_events l)[i := Some (wifi_hal_map_wpa_event_to_state msg)]"
proof -
  let ?e = "wifi_hal_map_wpa_event_to_state msg" let ?s = "wifi_states w ! i"
  obtain buf where w: "wifi_hal_wait_on_event (lp_index l) (lp_buf l) 2047 w = Ret (int (length msg), int i, buf, w\<lparr>polls := r\<rparr>)"
    "arr_str buf = msg" using wait_message [OF assms(1,4,9,11)] assms(12-15) by blast
  have i: "i < 2" using assms(1,9) by (simp add: connected_def WIFI_RADIO_MAX_def)
  define l' where "l' = l\<lparr>lp_index := int i, lp_buf := buf, lp_events := (lp_events l)[i := Some ?e]\<rparr>"
  have t: "wifi_events_turn junk junk4 l w = dispatch junk junk4 l' (w\<lparr>polls := r\<rparr>)"
    using assms(2,3,5) w i by (simp add: wifi_events_turn_def l'_def)
  have s: "?s \<in> reached - {INIT_STATE, SHUTDOWN_STATE}" using assms(6,16) i by (metis nth_mem subsetD)
  have nosh: "\<not> list_ex (\<lambda>s. s = SHUTDOWN_STATE) (take (radio_amount w) (wifi_states w))"
    using assms(16) by (auto simp: list_ex_iff dest!: in_set_takeD)
  have e: "?e \<noteq> LAST_EVENT" "?e \<noteq> STARTUP_EVENT" by (simp_all add: wifi_hal_map_wpa_event_to_state_def)
  have same: "w\<lparr>polls := r, wifi_states := (wifi_states w)[i := ?s]\<rparr> = w\<lparr>polls := r\<rparr>" by simp
  have d: "dispatch junk junk4 l' (w\<lparr>polls := r\<rparr>) = (if ?e = NO_EVENT then Ret (Again l' (w\<lparr>polls := r\<rparr>))
      else case find_row ?s ?e (wifi_asStateMachine junk junk4) of None \<Rightarrow> Ret (Again l' (w\<lparr>polls := r\<rparr>))
        | Some h \<Rightarrow> obind (h i (w\<lparr>polls := r\<rparr>)) (\<lambda>(s, w'). Ret (Again l' (w'\<lparr>wifi_states := (wifi_states w')[i := s]\<rparr>))))"
    by (rule dispatch_one) (use i assms(5,6) nosh s e(1) in \<open>simp_all add: l'_def\<close>)
  show ?thesis
  proof (cases "find_row ?s ?e (wifi_asStateMachine junk junk4)")
    case None
    then have "radio_next m ?s ?e = Some ?s" for m
      using s by (auto simp: radio_next_def wifi_asStateMachine_def reached_def split: if_splits)
    then show ?thesis using t d None same by (auto simp: l'_def)
  next
    case (Some h)
    from find_row_reached [OF _ Some] s e(2)
    consider "?s = IF_INIT_STAGE_1" "?e = STARTUP_STAGE_2_EVENT" "h = init_stage_2_handler"
      | "?s = IF_UP_STATE" "?e = TERMINATE_EVENT" "h = terminate_handler" by auto
    then show ?thesis
    proof cases
      case 1
      then show ?thesis using t d Some stage_2_handler [of i "w\<lparr>polls := r\<rparr>"] assms(7,8,10) i
        by (simp add: radio_next_def l'_def)
    next
      case 2
      then show ?thesis using t d Some by (simp add: radio_next_def terminate_handler_def l'_def)
    qed
  qed
qed

section \<open>Witnesses\<close>

definition conn_ctx :: "poll_ev list \<Rightarrow> wifi_ctx" where
  "conn_ctx ps = (wifi_ctx0 [])\<lparr>radio_amount := 2, ifname := [''wlan0'', ''wlan1''], phyname := [''0'', ''1''], polls := ps,
     wpa_ctx := replicate 2 \<lparr>wx_ctrl = Some (idle_ctrl []), wx_monitor = Some (idle_ctrl []), wx_mesh_ctrl = None\<rparr>\<rparr>"

lemma connected_conn_ctx: "connected (conn_ctx ps)"
  by (simp add: connected_def conn_ctx_def wifi_ctx0_def idle_ctrl_def WIFI_RADIO_MAX_def numeral_2_eq_2)

lemma connected_states [simp]: "connected (w\<lparr>wifi_states := s\<rparr>) = connected w"
  by (simp add: connected_def cong: option.case_cong)

lemma no_mode: "mode_str wifi_config_zero = []"
  by (simp add: mode_str_def wifi_config_zero_def flip: replicate_add)

lemma init_no_mode:
  assumes "elem (wifi_configs w) i = Ret wifi_config_zero"
  shows "\<exists>w'. init_handler i w = Ret (UNKNOWN_STATE, w')"
proof -
  obtain r w1 where "wifi_debugfs_init i w = (r, w1)" by (rule prod.exhaust)
  then show ?thesis using assms by (simp add: init_handler_def no_mode starts_with_def)
qed

theorem wifi_states_reached_witness:
  "\<exists>s l v. events_start (conn_ctx []) = Ret s \<and> ev_step\<^sup>*\<^sup>* s (l, v)
    \<and> wifi_states v = [UNKNOWN_STATE, INIT_STATE] \<and> radio_amount v = 2"
proof -
  let ?w = "(conn_ctx [])\<lparr>wifi_states := [INIT_STATE, INIT_STATE]\<rparr>"
  let ?l = "\<lparr>lp_init = True, lp_index = -1, lp_events = [Some STARTUP_EVENT, Some STARTUP_EVENT], lp_buf = replicate 2048 NUL\<rparr>"
  have s: "events_start (conn_ctx []) = Ret (?l, ?w)"
    by (simp add: events_start_def conn_ctx_def wifi_ctx0_def WIFI_RADIO_MAX_def numeral_2_eq_2)
  obtain w1 where h: "init_handler 0 ?w = Ret (UNKNOWN_STATE, w1)"
    using init_no_mode [of ?w 0] by (auto simp: conn_ctx_def wifi_ctx0_def)
  then have c: "wifi_states w1 = [INIT_STATE, INIT_STATE]" using init_handler_result [of ?w 0] by (simp add: core_def)
  have "wifi_events_turn [] [] ?l ?w = Ret (Again (?l\<lparr>lp_index := 0\<rparr>) (w1\<lparr>wifi_states := [UNKNOWN_STATE, INIT_STATE]\<rparr>))"
    using dispatch_startup [of "?l\<lparr>lp_index := 0\<rparr>" ?w "[]" "[]"] h c
    by (simp add: wifi_events_turn_def state_at_def conn_ctx_def)
  then have st: "ev_step\<^sup>*\<^sup>* (?l, ?w) (?l\<lparr>lp_index := 0\<rparr>, w1\<lparr>wifi_states := [UNKNOWN_STATE, INIT_STATE]\<rparr>)"
    by (intro r_into_rtranclp ev_step.turn)
  have "set (wifi_states (conn_ctx [])) \<subseteq> {IF_DOWN_STATE}" "radio_amount (conn_ctx []) = 2" by (simp_all add: conn_ctx_def wifi_ctx0_def)
  with wifi_states_reached [OF s _ st] s st show ?thesis by fastforce
qed

theorem single_radio_spins_witness:
  "wifi_events 5 [] [] ((wifi_ctx0 [])\<lparr>radio_amount := 1\<rparr>) = Ret None"
proof -
  let ?w = "(wifi_ctx0 [])\<lparr>radio_amount := 1\<rparr>"
  obtain w1 where "init_handler 0 (?w\<lparr>wifi_states := [INIT_STATE, wifi_states ?w ! 1]\<rparr>) = Ret (UNKNOWN_STATE, w1)"
    using init_no_mode [of "?w\<lparr>wifi_states := [INIT_STATE, wifi_states ?w ! 1]\<rparr>" 0] by (auto simp: wifi_ctx0_def)
  then show ?thesis using single_radio_spins [of ?w 5 "[]" "[]" undefined UNKNOWN_STATE w1]
    by (simp add: wifi_ctx0_def)
qed

theorem message_refines_automaton_witness:
  "\<exists>l'. wifi_events_turn [] [] \<lparr>lp_init = False, lp_index = 1, lp_events = [Some NO_EVENT, Some NO_EVENT], lp_buf = replicate 2048 NUL\<rparr>
      ((conn_ctx [PollMsg 0 (CHR ''<'' # ''3'' @ CHR ''>'' # ''MESH-GROUP-STARTED '')])\<lparr>wifi_states := [IF_INIT_STAGE_1, UNKNOWN_STATE]\<rparr>)
    = Ret (Again l' ((conn_ctx [])\<lparr>wifi_states := [IF_UP_STATE, UNKNOWN_STATE]\<rparr>)) \<and> lp_index l' = 0"
proof -
  let ?l = "\<lparr>lp_init = False, lp_index = 1, lp_events = [Some NO_EVENT, Some NO_EVENT], lp_buf = replicate 2048 NUL\<rparr>"
  let ?w = "(conn_ctx [PollMsg 0 (CHR ''<'' # ''3'' @ CHR ''>'' # ''MESH-GROUP-STARTED '')])\<lparr>wifi_states := [IF_INIT_STAGE_1, UNKNOWN_STATE]\<rparr>"
  have c: "connected ?w" using connected_conn_ctx by simp
  have e: "wifi_hal_map_wpa_event_to_state ''MESH-GROUP-STARTED '' = STARTUP_STAGE_2_EVENT"
    by (simp add: wifi_hal_map_wpa_event_to_state_def str_starts_def starts_with_def WPA_EVENT_DISCONNECTED_def
        AP_EVENT_ENABLED_def MESH_GROUP_STARTED_def)
  show ?thesis
    using message_refines_automaton [OF c, of ?l 0 "''3''" "''MESH-GROUP-STARTED ''" "[]" "[]" "[]"]
    by (auto simp: e conn_ctx_def wifi_ctx0_def radio_next_def no_mode starts_with_def reached_def)
qed

end
