(* ===== verification/WifiOpen.thy ===== *)
theory WifiOpen
  imports WifiLoop
begin

text \<open>
  Opening and closing: what attaching a radio to wpa_supplicant leaves open, and what is found by a
  HAL that is opened again.
\<close>

section \<open>The connections of a radio\<close>

lemma attach_answer:
  assumes "sends b = []" "sock_in b = [Datagram (answer ok)]"
  shows "\<exists>b'. wpa_ctrl_attach b = Ret (if ok then 0 else -1, b') \<and> ctrl_local b' = ctrl_local b \<and> sock_in b' = []
    \<and> sends b' = []"
  using assms by (cases ok) (simp_all add: wpa_ctrl_attach_def wpa_ctrl_attach_helper_def wpa_ctrl_request_def answer_def
      is_unsolicited_def eval_nat_numeral)

lemma open_ctrl_next:
  assumes "new_ctrls w = (env, evs) # rest" "wpa_ctrl_open2 (Some path) None (ctrl_counter w) env = (c, n, l)"
  shows "open_ctrl path w = Ret (map_option (\<lambda>c. c\<lparr>sock_in := evs\<rparr>) c,
    w\<lparr>new_ctrls := rest, ctrl_counter := n, sys_log := sys_log w @ l\<rparr>)"
  using assms by (simp add: open_ctrl_def)

text \<open>
  C35: attaching a radio opens a command connection and a monitor and succeeds when the monitor is
  answered OK: nothing is then closed, and detaching closes and frees the monitor and the command
  connection, each once. When it fails behind the first connection, exactly what was opened is
  closed and freed, the monitor first when there is one; but the pointers stay, so that detaching
  the radio uses the connections that were freed.
\<close>

theorem wpa_attach_outcome:
  assumes "i < length (wpa_ctx w)" "new_ctrls w = (e1, evs1) # (e2, [Datagram (answer ok)]) # rest"
    and "wpa_ctrl_open2 (Some (sock_path i w)) None (ctrl_counter w) e1 = (Some a, n1, l1)"
    and "wpa_ctrl_open2 (Some (sock_path i w)) None n1 e2 = (m, n2, l2)"
    and "ctrl_local a \<notin> set (freed w)"
    and "case m of None \<Rightarrow> True | Some b \<Rightarrow> ctrl_local b \<notin> set (freed w) \<and> ctrl_local b \<noteq> ctrl_local a"
  shows "\<exists>w'. wifi_hal_wpa_attach i w = Ret (if m \<noteq> None \<and> ok then 0 else -1, w')
    \<and> new_ctrls w' = rest \<and> map_option ctrl_local (wx_ctrl (wpa_ctx w' ! i)) = Some (ctrl_local a)
    \<and> map_option ctrl_local (wx_monitor (wpa_ctx w' ! i)) = map_option ctrl_local m
    \<and> (if m \<noteq> None \<and> ok
       then freed w' = freed w \<and> sys_log w' = sys_log w @ l1 @ l2
         \<and> (\<exists>v. wifi_hal_wpa_dettach i w' = Ret v \<and> freed v = ctrl_local a # ctrl_local (the m) # freed w
              \<and> sys_log v = sys_log w' @ wpa_ctrl_close m @ wpa_ctrl_close (Some a))
       else freed w' = ctrl_local a # (case m of None \<Rightarrow> [] | Some b \<Rightarrow> [ctrl_local b]) @ freed w
         \<and> sys_log w' = sys_log w @ l1 @ l2 @ wpa_ctrl_close m @ wpa_ctrl_close (Some a)
         \<and> wifi_hal_wpa_dettach i w' = Fault UseAfterFree)"
proof -
  let ?w1 = "put_wpa i (\<lambda>x. x\<lparr>wx_mesh_ctrl := None\<rparr>) w"
  have p: "sock_path i ?w1 = sock_path i w" by (simp add: sock_path_def put_wpa_def)
  have o1: "open_ctrl (sock_path i w) ?w1 = Ret (Some (a\<lparr>sock_in := evs1\<rparr>),
      ?w1\<lparr>new_ctrls := (e2, [Datagram (answer ok)]) # rest, ctrl_counter := n1, sys_log := sys_log ?w1 @ l1\<rparr>)"
    using open_ctrl_next [of ?w1 e1 evs1] assms(2,3) by (simp add: put_wpa_def)
  let ?w2 = "put_wpa i (\<lambda>x. x\<lparr>wx_ctrl := Some (a\<lparr>sock_in := evs1\<rparr>)\<rparr>)
      (?w1\<lparr>new_ctrls := (e2, [Datagram (answer ok)]) # rest, ctrl_counter := n1, sys_log := sys_log ?w1 @ l1\<rparr>)"
  have o2: "open_ctrl (sock_path i w) ?w2 = Ret (map_option (\<lambda>c. c\<lparr>sock_in := [Datagram (answer ok)]\<rparr>) m,
      ?w2\<lparr>new_ctrls := rest, ctrl_counter := n2, sys_log := sys_log ?w2 @ l2\<rparr>)"
    using open_ctrl_next [of ?w2 e2] assms(4) by (simp add: put_wpa_def)
  show ?thesis
  proof (cases m)
    case None
    then show ?thesis using assms(1,5) p o1 o2
      by (simp add: wifi_hal_wpa_attach_def Let_def wifi_hal_wpa_dettach_def close_ctrl_def put_wpa_def wpa_ctrl_close_def)
  next
    case (Some b)
    have fresh: "sends b = []" using open2_fresh assms(4) Some by blast
    obtain b' where b': "wpa_ctrl_attach (b\<lparr>sock_in := [Datagram (answer ok)]\<rparr>) = Ret (if ok then 0 else -1, b')"
      "ctrl_local b' = ctrl_local b"
      using attach_answer [of "b\<lparr>sock_in := [Datagram (answer ok)]\<rparr>" ok] fresh by auto
    show ?thesis
    proof (cases ok)
      case True
      then show ?thesis using assms(1,5,6) p o1 o2 Some b'
        by (simp add: wifi_hal_wpa_attach_def Let_def wifi_hal_wpa_dettach_def close_ctrl_def put_wpa_def wpa_ctrl_close_def) auto
    next
      case False
      then show ?thesis using assms(1,5,6) p o1 o2 Some b'
        by (simp add: wifi_hal_wpa_attach_def Let_def wifi_hal_wpa_dettach_def close_ctrl_def put_wpa_def wpa_ctrl_close_def) auto
    qed
  qed
qed

section \<open>Closing and opening again\<close>

lemma close_ctrl_frame: "close_ctrl c w = Ret w' \<Longrightarrow> phyname w' = phyname w \<and> ifname w' = ifname w \<and> nl_results w' = nl_results w
    \<and> ifindex w' = ifindex w"
  by (auto simp: close_ctrl_def split: option.splits if_splits)

lemma dettach_frame: "wifi_hal_wpa_dettach i w = Ret w' \<Longrightarrow> phyname w' = phyname w \<and> ifname w' = ifname w \<and> nl_results w' = nl_results w
    \<and> ifindex w' = ifindex w"
  using close_ctrl_frame by (fastforce simp: wifi_hal_wpa_dettach_def outcome_simps)

lemma close_two:
  assumes "wifi_hal_close w = Ret (r, w1)" "radio_amount w = 2" "length (ifname w) = 2" "length (ifindex w) = 2"
  shows "r = 0 \<and> phyname w1 = phyname w \<and> nl_results w1 = nl_results w \<and> ifname w1 = [[], []] \<and> ifindex w1 = [-1, -1]"
proof -
  have u: "[0..<2] = [0, Suc 0]" by (simp add: upt_rec)
  from assms(1,2) u obtain wa wb where "wifi_hal_wpa_dettach 0 w = Ret wa"
    "wifi_hal_wpa_dettach 1 (wa\<lparr>ifname := (ifname wa)[0 := []], ifindex := (ifindex wa)[0 := -1]\<rparr>) = Ret wb"
    "w1 = wb\<lparr>ifname := (ifname wb)[1 := []], ifindex := (ifindex wb)[1 := -1]\<rparr>" "r = 0"
    by (auto simp: wifi_hal_close_def outcome_simps)
  then show ?thesis using dettach_frame [of 0 w wa] dettach_frame [of 1 _ wb] assms(3,4)
    by (cases "ifname w"; cases "tl (ifname w)"; cases "ifindex w"; cases "tl (ifindex w)") auto
qed

text \<open>
  C36: a HAL that was closed finds no radio when it is opened again: the names of the interfaces are
  cleared and filled again, but the numbers of their phys are not cleared, and a radio is counted
  only when its phy number is filled in. Opening then reports success and attaches nothing.
\<close>

theorem reopen_finds_nothing:
  assumes "wifi_hal_close w = Ret (r, w1)" "radio_amount w = 2" "length (ifname w) = 2" "length (ifindex w) = 2"
    and "phyname w = [q0, q1]" "q0 \<noteq> []" "q1 \<noteq> []" "nl_results w = []" "n0 \<noteq> []" "n1 \<noteq> []" "\<not> starts_with n0 n1"
    and "length n0 < RADIO_IFNAME_SIZE" "length n1 < RADIO_IFNAME_SIZE" "0 < i0" "i0 < 2 ^ 31"
  shows "\<exists>w2. wifi_hal_open (w1\<lparr>nl_in := [iface n0 i0 p0, iface n1 i1 p1, NlFinish]\<rparr>) = Ret (0, w2)
    \<and> ifname w2 = [n0, n1] \<and> radio_amount w2 = 0 \<and> new_ctrls w2 = new_ctrls w1 \<and> shell_cmds w2 = shell_cmds w1"
proof -
  have c: "phyname w1 = [q0, q1]" "nl_results w1 = []" "ifname w1 = [[], []]" "ifindex w1 = [-1, -1]"
    using close_two [OF assms(1-4)] assms(5,8) by simp_all
  have t: "take (RADIO_IFNAME_SIZE - Suc 0) n0 = n0" "take (RADIO_IFNAME_SIZE - Suc 0) n1 = n1"
    using assms(12,13) by simp_all
  have i: "c_int (int i0) = int i0" using assms(14,15) by (simp add: c_int_id)
  have g: "\<exists>w2. wifi_hal_get_interface (w1\<lparr>nl_in := [iface n0 i0 p0, iface n1 i1 p1, NlFinish], radio_amount := 0\<rparr>) = Ret (0, w2)
    \<and> ifname w2 = [n0, n1] \<and> radio_amount w2 = 0 \<and> new_ctrls w2 = new_ctrls w1 \<and> shell_cmds w2 = shell_cmds w1"
    using c t i assms(6,7,9-11,14)
    by (simp add: wifi_hal_get_interface_def nl_send_def iface_def wifi_hal_ifname_resp_hdlr_def
        fill_slot_def fill_name_def fill_phy_def name_known_def)
  then obtain w2 where w2: "wifi_hal_get_interface (w1\<lparr>nl_in := [iface n0 i0 p0, iface n1 i1 p1, NlFinish], radio_amount := 0\<rparr>) = Ret (0, w2)"
    "ifname w2 = [n0, n1]" "radio_amount w2 = 0" "new_ctrls w2 = new_ctrls w1" "shell_cmds w2 = shell_cmds w1" by blast
  have "\<exists>x w3. wifi_hal_start_wpa_dummy_config w2 = Ret (x, w3) \<and> ifname w3 = ifname w2 \<and> radio_amount w3 = 0
      \<and> new_ctrls w3 = new_ctrls w2 \<and> shell_cmds w3 = shell_cmds w2"
    using w2(3) by (simp add: wifi_hal_start_wpa_dummy_config_def create_default_wpa_config_def)
  then show ?thesis using w2 by (auto simp: wifi_hal_open_def)
qed

section \<open>Witnesses\<close>

text \<open>The monitor is answered OK, or FAIL: then both connections are closed again.\<close>

theorem wpa_attach_outcome_witness:
  "(\<exists>w'. wifi_hal_wpa_attach 0 ((wifi_ctx0 [])\<lparr>new_ctrls := [(open_env0, []), (open_env0, [Datagram (answer True)])]\<rparr>) = Ret (0, w')
     \<and> new_ctrls w' = [] \<and> freed w' = [])
   \<and> (\<exists>w'. wifi_hal_wpa_attach 0 ((wifi_ctx0 [])\<lparr>new_ctrls := [(open_env0, []), (open_env0, [Datagram (answer False)])]\<rparr>) = Ret (-1, w')
     \<and> freed w' = [client_path None 7 1, client_path None 7 2] \<and> wifi_hal_wpa_dettach 0 w' = Fault UseAfterFree)"
proof -
  let ?w = "\<lambda>ok. (wifi_ctx0 [])\<lparr>new_ctrls := [(open_env0, []), (open_env0, [Datagram (answer ok)])]\<rparr>"
  note open_simps = wpa_ctrl_open2_def open_env0_def client_path_def sock_path_def wifi_ctx0_def show_int_def show_nat.simps
    SUN_PATH_SIZE_def CONFIG_CTRL_IFACE_CLIENT_PREFIX_def CONFIG_CTRL_IFACE_CLIENT_DIR_def starts_with_def
    WIFI_HAL_WPA_SOCK_PATH_def Let_def
  have path: "sock_path 0 (?w ok) = sock_path 0 (?w True)" for ok by (simp add: sock_path_def)
  obtain a l1 where a: "wpa_ctrl_open2 (Some (sock_path 0 (?w True))) None 0 open_env0 = (Some a, 1, l1)" "ctrl_local a = client_path None 7 1"
    by (simp add: open_simps)
  obtain b l2 where b: "wpa_ctrl_open2 (Some (sock_path 0 (?w True))) None 1 open_env0 = (Some b, 2, l2)" "ctrl_local b = client_path None 7 2"
    by (simp add: open_simps)
  have ne: "client_path None 7 2 \<noteq> client_path None 7 1" by (simp add: client_path_def Let_def show_int_def show_nat.simps)
  note attach = wpa_attach_outcome [of 0 "?w ok" open_env0 "[]" open_env0 ok "[]" a 1 l1 "Some b" 2 l2 for ok]
  show ?thesis using attach [of True] attach [of False] path [of False] a b ne by (auto simp: wifi_ctx0_def)
qed

theorem reopen_finds_nothing_witness:
  "\<exists>w1 w2. wifi_hal_close ((wifi_ctx0 [])\<lparr>radio_amount := 2, phyname := [''0'', ''1''], ifname := [''wlan0'', ''wlan1'']\<rparr>) = Ret (0, w1)
    \<and> wifi_hal_open (w1\<lparr>nl_in := [iface ''wlan0'' 3 0, iface ''wlan1'' 4 1, NlFinish]\<rparr>) = Ret (0, w2) \<and> radio_amount w2 = 0"
proof -
  let ?w = "(wifi_ctx0 [])\<lparr>radio_amount := 2, phyname := [''0'', ''1''], ifname := [''wlan0'', ''wlan1'']\<rparr>"
  obtain w1 where c: "wifi_hal_close ?w = Ret (0, w1)"
    by (simp add: wifi_hal_close_def wifi_ctx0_def upt_rec wifi_hal_wpa_dettach_def close_ctrl_def)
  show ?thesis
    using c reopen_finds_nothing [OF c, of "''0''" "''1''" "''wlan0''" "''wlan1''" 3 0 4 1]
    by (auto simp: wifi_ctx0_def starts_with_def RADIO_IFNAME_SIZE_def)
qed

end
