(* ===== verification/WifiAttach.thy ===== *)
theory WifiAttach
  imports WifiLoop
begin

text \<open>
  Attaching and detaching the WiFi HAL, src/src/wifi/wifi_hal_main.cpp: which objects are allocated
  and released, by \<open>wifi_hal_attach\<close> with its error paths and by \<open>wifi_hal_dettach\<close>.
\<close>

section \<open>Objects\<close>

text \<open>An object that was not allocated is NULL, which every release function accepts; one that was
  released must not be released again.\<close>

datatype res = NoRes | Held | Released

definition release :: "res \<Rightarrow> res outcome" where
  "release r = (case r of NoRes \<Rightarrow> Ret NoRes | Held \<Rightarrow> Ret Released | Released \<Rightarrow> Fault UseAfterFree)"

record wifi_res =
  r_ctx :: res
  r_sc :: res
  r_sock :: res
  r_if_cb :: res
  r_link_info_cb :: res
  r_set_cb :: res

definition no_res :: wifi_res where
  "no_res = \<lparr>r_ctx = NoRes, r_sc = NoRes, r_sock = NoRes, r_if_cb = NoRes, r_link_info_cb = NoRes, r_set_cb = NoRes\<rparr>"

text \<open>What the allocations and the two netlink calls answer.\<close>

record attach_env =
  a_ctx :: bool
  a_sc :: bool
  a_sock :: bool
  a_connect :: int
  a_resolve :: int
  a_if_cb :: bool
  a_link_info_cb :: bool
  a_set_cb :: bool

definition alloc :: "bool \<Rightarrow> res" where
  "alloc ok = (if ok then Held else NoRes)"

section \<open>Attaching\<close>

definition free_sock :: "int \<Rightarrow> wifi_res \<Rightarrow> (int \<times> wifi_res) outcome" where
  "free_sock err r = obind (release (r_sock r)) (\<lambda>s. Ret (err, r\<lparr>r_sock := s\<rparr>))"

definition wifi_hal_nl80211_attach :: "attach_env \<Rightarrow> wifi_res \<Rightarrow> (int \<times> wifi_res) outcome" where
  "wifi_hal_nl80211_attach env r0 = (let r = r0\<lparr>r_sock := alloc (a_sock env)\<rparr> in
     if \<not> a_sock env then Ret (- ENOMEM, r)
     else if a_connect env \<noteq> 0 then free_sock (a_connect env) r
     else if a_resolve env < 0 then free_sock (- EINVAL) r
     else Ret (0, r))"

definition wifi_hal_nl80211_dettach :: "wifi_res \<Rightarrow> wifi_res outcome" where
  "wifi_hal_nl80211_dettach r = obind (release (r_sock r)) (\<lambda>s. obind (release (r_if_cb r)) (\<lambda>i.
     obind (release (r_link_info_cb r)) (\<lambda>l. Ret (r\<lparr>r_sock := s, r_if_cb := i, r_link_info_cb := l\<rparr>))))"

text \<open>The label \<open>error\<close>.\<close>

definition put_cbs :: "wifi_res \<Rightarrow> (int \<times> wifi_res) outcome" where
  "put_cbs r = obind (release (r_set_cb r)) (\<lambda>s. obind (release (r_if_cb r)) (\<lambda>i.
     obind (release (r_link_info_cb r)) (\<lambda>l. Ret (- ENOMEM, r\<lparr>r_set_cb := s, r_if_cb := i, r_link_info_cb := l\<rparr>))))"

definition wifi_hal_register_nl_cb :: "attach_env \<Rightarrow> wifi_res \<Rightarrow> (int \<times> wifi_res) outcome" where
  "wifi_hal_register_nl_cb env r0 = (let r1 = r0\<lparr>r_if_cb := alloc (a_if_cb env)\<rparr> in
     if \<not> a_if_cb env then put_cbs r1
     else let r2 = r1\<lparr>r_link_info_cb := alloc (a_link_info_cb env)\<rparr> in
       if \<not> a_link_info_cb env then put_cbs r2
       else let r3 = r2\<lparr>r_set_cb := alloc (a_set_cb env)\<rparr> in
         if \<not> a_set_cb env then put_cbs r3 else Ret (0, r3))"

text \<open>The labels \<open>nl_attach_failure\<close> and \<open>sc_alloc_failure\<close>: the result NULL.\<close>

definition free_both :: "wifi_res \<Rightarrow> (bool \<times> wifi_res) outcome" where
  "free_both r = obind (release (r_sc r)) (\<lambda>s. obind (release (r_ctx r)) (\<lambda>c. Ret (False, r\<lparr>r_sc := s, r_ctx := c\<rparr>)))"

definition wifi_hal_attach :: "attach_env \<Rightarrow> (bool \<times> wifi_res) outcome" where
  "wifi_hal_attach env =
     (if \<not> a_ctx env then Ret (False, no_res)
      else let r1 = no_res\<lparr>r_ctx := Held\<rparr> in
        if \<not> a_sc env then obind (release (r_ctx r1)) (\<lambda>c. Ret (False, r1\<lparr>r_ctx := c\<rparr>))
        else let r2 = r1\<lparr>r_sc := Held\<rparr> in
          obind (wifi_hal_nl80211_attach env r2) (\<lambda>(err, r3).
          if err \<noteq> 0 then free_both r3
          else obind (wifi_hal_register_nl_cb env r3) (\<lambda>(err, r4).
            if err \<noteq> 0 then obind (wifi_hal_nl80211_dettach r4) free_both
            else Ret (True, r4))))"

definition wifi_hal_dettach :: "wifi_res \<Rightarrow> (int \<times> wifi_res) outcome" where
  "wifi_hal_dettach r = obind (wifi_hal_nl80211_dettach r) (\<lambda>r1. obind (release (r_sc r1)) (\<lambda>s.
     obind (release (r_ctx r1)) (\<lambda>c. Ret (0, r1\<lparr>r_sc := s, r_ctx := c\<rparr>))))"

section \<open>What is released\<close>

definition held :: "wifi_res \<Rightarrow> res list" where
  "held r = filter (\<lambda>x. x = Held) [r_ctx r, r_sc r, r_sock r, r_if_cb r, r_link_info_cb r, r_set_cb r]"

definition reaches_cbs :: "attach_env \<Rightarrow> bool" where
  "reaches_cbs env = (a_ctx env \<and> a_sc env \<and> a_sock env \<and> a_connect env = 0 \<and> 0 \<le> a_resolve env)"

text \<open>
  C37: attaching succeeds exactly when every allocation and both netlink calls do, and an attach that
  returns NULL holds nothing any more. When the second or the third callback cannot be allocated the
  error path releases the first one twice. Detaching releases every object but the callback of the
  settings.
\<close>

theorem attach_releases:
  "case wifi_hal_attach env of
     Fault f \<Rightarrow> f = UseAfterFree \<and> reaches_cbs env \<and> a_if_cb env \<and> (a_link_info_cb env = False \<or> a_set_cb env = False)
   | Blocked \<Rightarrow> False
   | Ret (ok, r) \<Rightarrow> ok = (reaches_cbs env \<and> a_if_cb env \<and> a_link_info_cb env \<and> a_set_cb env)
       \<and> (if ok then length (held r) = 6 \<and> wifi_hal_dettach r = Ret (0, \<lparr>r_ctx = Released, r_sc = Released, r_sock = Released,
              r_if_cb = Released, r_link_info_cb = Released, r_set_cb = Held\<rparr>)
          else held r = [] \<and> (reaches_cbs env = False \<or> a_if_cb env = False))"
  by (cases "a_ctx env"; cases "a_sc env"; cases "a_sock env"; cases "a_connect env = 0"; cases "a_resolve env < 0";
      cases "a_if_cb env"; cases "a_link_info_cb env"; cases "a_set_cb env";
      simp add: wifi_hal_attach_def wifi_hal_nl80211_attach_def wifi_hal_register_nl_cb_def wifi_hal_dettach_def
        wifi_hal_nl80211_dettach_def put_cbs_def free_both_def free_sock_def release_def alloc_def no_res_def held_def
        reaches_cbs_def ENOMEM_def EINVAL_def)

end
