(* ===== verification/ModemEvents.thy ===== *)
theory ModemEvents
  imports AtTok RadioTypes
begin

text \<open>
  The unsolicited lines and the state machine of src/src/modem/modem_hal_main.cpp: the handler
  that turns a line into a message on the event pipe, and the loop that takes the messages.
\<close>

section \<open>Events and states\<close>

definition MODEM_NO_EVENT :: int where "MODEM_NO_EVENT = -1"
definition MODEM_STARTUP_EVENT :: int where "MODEM_STARTUP_EVENT = 0"
definition MODEM_DATA_CALL_EVENT :: int where "MODEM_DATA_CALL_EVENT = 1"
definition MODEM_NITZ_EVENT :: int where "MODEM_NITZ_EVENT = 2"
definition MODEM_CELLULAR_TECH_EVENT :: int where "MODEM_CELLULAR_TECH_EVENT = 3"
definition MODEM_OFF_EVENT :: int where "MODEM_OFF_EVENT = 4"
definition MODEM_REGISTRATION_EVENT :: int where "MODEM_REGISTRATION_EVENT = 5"
definition MODEM_LAST_EVENT :: int where "MODEM_LAST_EVENT = 6"

lemmas modem_event_defs = MODEM_NO_EVENT_def MODEM_STARTUP_EVENT_def MODEM_DATA_CALL_EVENT_def
  MODEM_NITZ_EVENT_def MODEM_CELLULAR_TECH_EVENT_def MODEM_OFF_EVENT_def MODEM_REGISTRATION_EVENT_def
  MODEM_LAST_EVENT_def

datatype modem_state = MODEM_UNKNOWN_STATE | MODEM_INIT_STATE | MODEM_IF_DOWN_STATE | MODEM_IF_UP_STATE
  | MODEM_ASSOCIATED_STATE | MODEM_CONNECTED_STATE | MODEM_DISCONNECTED_STATE | MODEM_LAST_STATE

definition modem_state_code :: "modem_state \<Rightarrow> int" where
  "modem_state_code s = (case s of MODEM_UNKNOWN_STATE \<Rightarrow> -1 | MODEM_INIT_STATE \<Rightarrow> 0 | MODEM_IF_DOWN_STATE \<Rightarrow> 1
     | MODEM_IF_UP_STATE \<Rightarrow> 2 | MODEM_ASSOCIATED_STATE \<Rightarrow> 3 | MODEM_CONNECTED_STATE \<Rightarrow> 4
     | MODEM_DISCONNECTED_STATE \<Rightarrow> 5 | MODEM_LAST_STATE \<Rightarrow> 6)"

text \<open>The states are compared as C compares the constants.\<close>

lemma modem_state_code_inj: "modem_state_code s = modem_state_code t \<longleftrightarrow> s = t"
  by (cases s; cases t) (simp_all add: modem_state_code_def)

instantiation modem_state :: linorder
begin

definition less_eq_modem_state :: "modem_state \<Rightarrow> modem_state \<Rightarrow> bool" where
  "less_eq_modem_state s t = (modem_state_code s \<le> modem_state_code t)"

definition less_modem_state :: "modem_state \<Rightarrow> modem_state \<Rightarrow> bool" where
  "less_modem_state s t = (modem_state_code s < modem_state_code t)"

instance
  by standard (auto simp: less_eq_modem_state_def less_modem_state_def modem_state_code_inj)

end

section \<open>Unsolicited lines\<close>

text \<open>The return code, \<open>*current\<close> and \<open>*preferred\<close>; None where nothing is stored.\<close>

definition parse_technology_response :: "string \<Rightarrow> bool \<Rightarrow> int \<times> int option \<times> int option" where
  "parse_technology_response response want_preferred =
     (case at_tok_start (Some response) of (err, p) \<Rightarrow>
       if err \<noteq> 0 \<or> \<not> at_tok_hasmore p then (-1, None, None)
       else (case at_tok_nextint p of (err1, ct, p1) \<Rightarrow>
         if err1 \<noteq> 0 then (-1, None, None)
         else (case at_tok_nexthexint p1 of (err2, pt, _) \<Rightarrow>
           if err2 \<noteq> 0 then (1, ct, None)
           else (0, ct, if want_preferred then pt else None))))"

definition MDM_GSM :: int where "MDM_GSM = 1"
definition MDM_WCDMA :: int where "MDM_WCDMA = 2"
definition MDM_CDMA :: int where "MDM_CDMA = 4"
definition MDM_EVDO :: int where "MDM_EVDO = 8"
definition MDM_LTE :: int where "MDM_LTE = 16"

lemmas mdm_defs = MDM_GSM_def MDM_WCDMA_def MDM_CDMA_def MDM_EVDO_def MDM_LTE_def

text \<open>\<open>1 << tech\<close> on an \<open>int\<close> is undefined for a count that is negative or has no room.\<close>

definition shift_one :: "int \<Rightarrow> int outcome" where
  "shift_one tech = (if 0 \<le> tech \<and> tech < 31 then Ret (2 ^ nat tech) else Fault BadArith)"

definition known_tech :: "int \<Rightarrow> bool" where
  "known_tech b = (\<not> (b \<noteq> MDM_GSM \<and> b \<noteq> MDM_CDMA \<and> b \<noteq> MDM_WCDMA \<and> b \<noteq> MDM_LTE))"

text \<open>
  The message that the handler writes to the pipe. A token that is NULL would be dereferenced by
  \<open>strlen\<close>; \<open>tech\<close> is uninitialised when nothing was stored.
\<close>

definition at_event_handler :: "string \<Rightarrow> radio_hal_msg_buffer outcome" where
  "at_event_handler s = (let m = zero_msg\<lparr>sender := RADIO_MODEM\<rparr> in
     if starts_with s ''%CTZV:'' then
       (case at_tok_start (Some s) of (_, p) \<Rightarrow> case at_tok_nextstr p of (err, response, _) \<Rightarrow>
         if err \<noteq> 0 then Ret m
         else (case response of None \<Rightarrow> Fault NullDeref
             | Some r \<Rightarrow> Ret ((set_mtext r m)\<lparr>event := MODEM_NITZ_EVENT\<rparr>)))
     else if starts_with s ''+CREG:'' \<or> starts_with s ''+CGREG:'' then
       Ret ((set_mtext s m)\<lparr>event := MODEM_REGISTRATION_EVENT\<rparr>)
     else if starts_with s ''+CGEV:'' then
       Ret ((set_mtext s m)\<lparr>event := MODEM_DATA_CALL_EVENT\<rparr>)
     else if starts_with s ''+CTEC: '' then
       (case parse_technology_response s False of (code, tech, _) \<Rightarrow>
         if code = -1 then Ret m
         else if code = 1 \<or> code = 0 then
           (case tech of None \<Rightarrow> Fault UninitRead
            | Some t \<Rightarrow> obind (shift_one t) (\<lambda>b.
                if \<not> known_tech b then Ret m
                else Ret ((set_mtext s m)\<lparr>event := MODEM_CELLULAR_TECH_EVENT\<rparr>)))
         else Ret m)
     else if starts_with s ''+CFUN: 0'' then
       Ret ((set_mtext s m)\<lparr>event := MODEM_OFF_EVENT\<rparr>)
     else Ret ((set_mtext s m)\<lparr>event := MODEM_NO_EVENT\<rparr>))"

section \<open>The state machine\<close>

text \<open>The handlers of the table, by their names.\<close>

datatype modem_handler = init_handler | registration_handler

definition modem_sStateMachine :: "(modem_state \<times> int \<times> modem_handler option) list" where
  "modem_sStateMachine =
     [(MODEM_INIT_STATE, MODEM_STARTUP_EVENT, Some init_handler),
      (MODEM_IF_UP_STATE, MODEM_REGISTRATION_EVENT, Some registration_handler),
      (MODEM_IF_UP_STATE, MODEM_REGISTRATION_EVENT, Some registration_handler),
      (MODEM_UNKNOWN_STATE, MODEM_NO_EVENT, None)]"

text \<open>The search stops at the first matching row or at the row without a handler.\<close>

fun sm_search :: "(modem_state \<times> int \<times> modem_handler option) list \<Rightarrow> modem_state \<Rightarrow> int \<Rightarrow> modem_handler option" where
  "sm_search [] st ev = None"
| "sm_search ((_, _, None) # rows) st ev = None"
| "sm_search ((s, e, Some h) # rows) st ev = (if e = ev \<and> s = st then Some h else sm_search rows st ev)"

text \<open>\<open>connected\<close>: what \<open>radio_connect\<close> returns is 0.\<close>

definition run_handler :: "modem_handler \<Rightarrow> bool \<Rightarrow> modem_state" where
  "run_handler h connected = (case h of
       init_handler \<Rightarrow> if \<not> connected then MODEM_INIT_STATE else MODEM_IF_UP_STATE
     | registration_handler \<Rightarrow> MODEM_IF_UP_STATE)"

text \<open>
  The loop without what its handlers do to the modem, the specification of the loop of theory
  ModemLoop: \<open>NewEvent\<close> keeps its value while the state is \<open>MODEM_INIT_STATE\<close> and is read from the pipe
  otherwise; a failed read leaves the buffer with the event it had. What the world does in one
  turn: the result of a connect, and what the pipe has.
\<close>

record modem_loop =
  state :: modem_state
  NewEvent :: int
  msg_event :: int

record modem_turn =
  connect_ok :: bool
  pipe_event :: "int option"

definition modem_loop_start :: modem_loop where
  "modem_loop_start = \<lparr>state = MODEM_INIT_STATE, NewEvent = MODEM_STARTUP_EVENT, msg_event = 0\<rparr>"

definition modem_loop_turn :: "modem_turn \<Rightarrow> modem_loop \<Rightarrow> modem_loop" where
  "modem_loop_turn t s =
     (let s1 = (if state s \<noteq> MODEM_INIT_STATE
                then (let e = (case pipe_event t of Some e \<Rightarrow> e | None \<Rightarrow> msg_event s)
                      in s\<lparr>msg_event := e, NewEvent := e\<rparr>)
                else s)
      in if state s1 < MODEM_LAST_STATE \<and> NewEvent s1 < MODEM_LAST_EVENT
         then (case sm_search modem_sStateMachine (state s1) (NewEvent s1) of
             Some h \<Rightarrow> s1\<lparr>state := run_handler h (connect_ok t)\<rparr>
           | None \<Rightarrow> s1)
         else s1)"

definition modem_loop_run :: "modem_turn list \<Rightarrow> modem_loop" where
  "modem_loop_run ts = fold modem_loop_turn ts modem_loop_start"


section \<open>Lemmas\<close>

lemma set_mtext_keeps [simp]:
  "sender (set_mtext s m) = sender m" "mtype (set_mtext s m) = mtype m"
  "length (mtext m) = MTEXT_SIZE \<Longrightarrow> length (mtext (set_mtext s m)) = MTEXT_SIZE"
  by (simp_all add: set_mtext_def)

lemma zero_msg_len [simp]: "length (mtext zero_msg) = MTEXT_SIZE"
  by (simp add: zero_msg_def)

text \<open>A tokenizer call that succeeds stores a value.\<close>

lemma parse_tech_stores:
  "parse_technology_response s w = (c, t, q) \<Longrightarrow> c = -1 \<or> c \<in> {0, 1} \<and> (\<exists>i. t = Some i)"
  using at_tok_nextint_ok
  by (auto simp: parse_technology_response_def split: prod.splits if_splits) blast+

lemma parse_tech_number:
  assumes "- (2 ^ 31) \<le> n" "n < 2 ^ 31"
  shows "parse_technology_response (''+CTEC: '' @ show_int n) w = (1, Some n, None)"
proof -
  have b: "blanks '' ''" by (simp add: blanks_def isspace_def)
  have "at_tok_start (Some (''+CTEC'' @ CHR '':'' # ('' '' @ show_int n))) = (0, Some ('' '' @ show_int n))"
    by (rule at_tok_start_colon) simp
  then show ?thesis
    using at_tok_nextint_show(2) [OF assms b]
    by (simp add: parse_technology_response_def at_tok_hasmore_def)
qed

lemma shift_known:
  assumes "0 \<le> n" "n < 31"
  shows "known_tech (2 ^ nat n) \<longleftrightarrow> n \<in> {0, 1, 2, 4}"
proof -
  have "n \<in> set [0..30]" using assms by simp
  then have "n \<in> {0,1,2,3,4,5,6,7,8,9,10,11,12,13,14,15,16,17,18,19,20,21,22,23,24,25,26,27,28,29,30}"
    by (simp add: upto_rec1)
  then show ?thesis by (auto simp: known_tech_def mdm_defs)
qed

section \<open>Properties\<close>

text \<open>The event of a line that is not a +CTEC line.\<close>

definition line_event :: "string \<Rightarrow> int" where
  "line_event s = (if starts_with s ''%CTZV:'' then MODEM_NITZ_EVENT
     else if starts_with s ''+CREG:'' \<or> starts_with s ''+CGREG:'' then MODEM_REGISTRATION_EVENT
     else if starts_with s ''+CGEV:'' then MODEM_DATA_CALL_EVENT
     else if starts_with s ''+CFUN: 0'' then MODEM_OFF_EVENT
     else MODEM_NO_EVENT)"

text \<open>
  Every unsolicited line that is not a +CTEC line becomes one message from the modem with the
  event of its prefix and a text array of the right size, and nothing undefined happens. But for the
  time lines the text is the line.
\<close>

lemma event_of_line:
  assumes "\<not> starts_with s ''+CTEC: ''"
  shows "\<exists>m. at_event_handler s = Ret m \<and> sender m = RADIO_MODEM \<and> length (mtext m) = MTEXT_SIZE \<and> event m = line_event s
    \<and> (\<not> starts_with s ''%CTZV:'' \<longrightarrow> mtext m = mtext (set_mtext s zero_msg))"
proof (cases "starts_with s ''%CTZV:''")
  case True
  then obtain r where s: "s = ''%CTZV:'' @ r" by (auto simp: starts_with_iff)
  have "at_tok_start (Some (''%CTZV'' @ CHR '':'' # r)) = (0, Some r)"
    by (rule at_tok_start_colon) simp
  moreover obtain t q where "at_tok_nextstr (Some r) = (0, Some t, q)"
    using nextTok_some [of r] by (auto simp: at_tok_nextstr_def)
  ultimately show ?thesis
    using s by (simp add: at_event_handler_def line_event_def starts_with_def)
next
  case False
  have "mtext (set_mtext s (m\<lparr>sender := x\<rparr>)) = mtext (set_mtext s m)" for m x by (simp add: set_mtext_def)
  then show ?thesis using False assms by (auto simp: at_event_handler_def line_event_def Let_def)
qed

text \<open>
  A +CTEC line with a technology number gives a technology event for the four known numbers
  and a message with the event 0, the start-up event, for the others below 31; from 31 on, and
  for a negative number, the shift is undefined.
\<close>

theorem event_of_technology:
  assumes "- (2 ^ 31) \<le> n" "n < 2 ^ 31"
  shows "if 0 \<le> n \<and> n < 31
    then \<exists>m. at_event_handler (''+CTEC: '' @ show_int n) = Ret m
      \<and> event m = (if n \<in> {0, 1, 2, 4} then MODEM_CELLULAR_TECH_EVENT else MODEM_STARTUP_EVENT)
    else at_event_handler (''+CTEC: '' @ show_int n) = Fault BadArith"
  using parse_tech_number [OF assms] shift_known [of n]
  by (auto simp: at_event_handler_def starts_with_def Let_def shift_one_def zero_msg_def MODEM_STARTUP_EVENT_def)

text \<open>
  The event loop is in the initial state until a connect succeeds and in the interface-up
  state ever after: no message, not even the event of a modem that was turned off, takes it back.
\<close>

theorem modem_loop_states:
  "state (modem_loop_run ts) = (if \<exists>t \<in> set ts. connect_ok t then MODEM_IF_UP_STATE else MODEM_INIT_STATE)"
proof -
  let ?inv = "\<lambda>b s. state s = (if b then MODEM_IF_UP_STATE else MODEM_INIT_STATE)
    \<and> (\<not> b \<longrightarrow> NewEvent s = MODEM_STARTUP_EVENT)"
  have step: "?inv (b \<or> connect_ok t) (modem_loop_turn t s)" if "?inv b s" for b t s
    using that
    by (cases b) (auto simp: modem_loop_turn_def Let_def less_modem_state_def modem_state_code_def modem_sStateMachine_def
        run_handler_def modem_event_defs split: option.splits)
  have "?inv (b \<or> (\<exists>t \<in> set ts. connect_ok t)) (fold modem_loop_turn ts s)" if "?inv b s" for b s
    using that
  proof (induction ts arbitrary: b s)
    case (Cons t ts)
    from Cons.IH [OF step [OF Cons.prems]] show ?case by (simp add: disj_assoc)
  qed simp
  from this [of modem_loop_start False] show ?thesis
    by (simp add: modem_loop_run_def modem_loop_start_def)
qed

end
