(* ===== verification/ModemHal.thy ===== *)
theory ModemHal
  imports ModemQueries ModemEvents CStdio
begin

text \<open>
  The rest of src/src/modem/modem_hal_main.cpp: running system commands, finding the modem and the
  network interface, opening and closing, connecting, attaching and detaching. The state is the
  \<open>modem_softc\<close> with the configuration, the AT channel, the outputs that the coming \<open>popen\<close> calls
  deliver (None: the call fails) and the commands that were run.
\<close>

section \<open>System commands\<close>

record modem_ctx =
  at :: at_chan
  atif :: int
  modem :: string
  wwan :: string
  apn :: string
  pin :: string
  popens :: "string option list"
  sys_cmds :: "string list"

text \<open>The return code and, on success, the contents of \<open>resp_buf\<close>.\<close>

definition modem_hal_run_sys_cmd :: "string \<Rightarrow> nat \<Rightarrow> modem_ctx \<Rightarrow> (int \<times> string \<times> modem_ctx) outcome" where
  "modem_hal_run_sys_cmd cmd resp_size w = (case popens w of
       [] \<Rightarrow> Blocked
     | None # ps \<Rightarrow> Ret (-1, [], w\<lparr>popens := ps\<rparr>)
     | Some out # ps \<Rightarrow>
         Ret (0, read_output resp_size out [], w\<lparr>popens := ps, sys_cmds := sys_cmds w @ [cmd]\<rparr>))"

definition replace_line_change :: "string \<Rightarrow> string option" where
  "replace_line_change buf =
     (if buf \<noteq> [] \<and> last buf = LF then Some (butlast buf) else None)"

definition CMD_BUFFER_SIZE :: nat where "CMD_BUFFER_SIZE = 2048"
definition RESP_BUFFER_SIZE :: nat where "RESP_BUFFER_SIZE = 2048"

section \<open>Finding the modem\<close>

definition find_output :: "string \<Rightarrow> nat \<Rightarrow> modem_ctx \<Rightarrow> (string option \<times> modem_ctx) outcome" where
  "find_output cmd len w = obind (modem_hal_run_sys_cmd cmd len w) (\<lambda>(ret, resp, w1).
     if ret \<noteq> 0 then Ret (None, w1) else Ret (replace_line_change resp, w1))"

definition modem_hal_find_modem :: "nat \<Rightarrow> modem_ctx \<Rightarrow> (string option \<times> modem_ctx) outcome" where
  "modem_hal_find_modem len w = find_output ''ls /sys/class/usbmisc/ |grep cdc'' len w"

definition wwan_cmd :: "string \<Rightarrow> string" where
  "wwan_cmd m = prepare_cmd_buf CMD_BUFFER_SIZE (''qmicli --device=/dev/'' @ m @ '' --get-wwan-iface'')"

definition modem_hal_find_wwan :: "nat \<Rightarrow> modem_ctx \<Rightarrow> (string option \<times> modem_ctx) outcome" where
  "modem_hal_find_wwan len w = find_output (wwan_cmd (modem w)) len w"

text \<open>\<open>strcpy\<close> into \<open>char[20]\<close>.\<close>

definition SC_NAME_SIZE :: nat where "SC_NAME_SIZE = 20"

definition strcpy_name :: "string \<Rightarrow> string outcome" where
  "strcpy_name s = (if length s < SC_NAME_SIZE then Ret s else Fault OutOfBounds)"

definition raw_ip_cmd :: "string \<Rightarrow> string" where
  "raw_ip_cmd n = prepare_cmd_buf CMD_BUFFER_SIZE (''echo Y > /sys/class/net/'' @ n @ ''/qmi/raw_ip'')"

text \<open>An AT function inside the context.\<close>

definition on_at :: "(at_chan \<Rightarrow> (int \<times> at_chan) outcome) \<Rightarrow> modem_ctx \<Rightarrow> (int \<times> modem_ctx) outcome" where
  "on_at f w = obind (f (at w)) (\<lambda>(v, st). Ret (v, w\<lparr>at := st\<rparr>))"

text \<open>The two names are stored one after the other; the rest is common.\<close>

definition modem_hal_serial_attach :: "modem_ctx \<Rightarrow> (int \<times> modem_ctx) outcome" where
  "modem_hal_serial_attach w = (let len = RESP_BUFFER_SIZE - 1 in
     obind (on_at (at_handshake False) w) (\<lambda>(err, w1).
     if err \<noteq> 0 then Ret (-1, w1) else
     obind (on_at modem_hal_check_modem w1) (\<lambda>(ret, w2).
     if ret \<noteq> 0 then Ret (-1, w2) else
     obind (modem_hal_find_modem len w2) (\<lambda>(m, w3). case m of None \<Rightarrow> Ret (-1, w3) | Some name \<Rightarrow>
     obind (strcpy_name name) (\<lambda>nm.
     obind (modem_hal_find_wwan len (w3\<lparr>modem := nm\<rparr>)) (\<lambda>(i, w4). case i of None \<Rightarrow> Ret (-1, w4) | Some iface \<Rightarrow>
     obind (strcpy_name iface) (\<lambda>ifn.
     obind (modem_hal_run_sys_cmd (raw_ip_cmd ifn) len (w4\<lparr>wwan := ifn\<rparr>)) (\<lambda>(r, _, w5).
       Ret (if r \<noteq> 0 then -1 else 0, w5)))))))))"

section \<open>Opening and closing\<close>

text \<open>\<open>fd\<close> is what \<open>open\<close> of the serial device returns, \<open>rc\<close> what \<open>pthread_create\<close> does.\<close>

definition modem_hal_open :: "int \<Rightarrow> int \<Rightarrow> modem_ctx \<Rightarrow> (int \<times> modem_ctx) outcome" where
  "modem_hal_open fd rc w =
     (if fd = 0 then Ret (-1, w\<lparr>atif := fd\<rparr>)
      else obind (modem_hal_serial_attach (w\<lparr>atif := fd, at := snd (at_open fd True rc (at w))\<rparr>))
        (\<lambda>(err, w1). Ret (if err \<noteq> 0 then -1 else 0, w1)))"

definition modem_hal_serial_detach :: "modem_ctx \<Rightarrow> modem_ctx" where
  "modem_hal_serial_detach w = w\<lparr>at := at_close (at w)\<rparr>"

definition modem_hal_close :: "modem_ctx \<Rightarrow> (int \<times> modem_ctx) outcome" where
  "modem_hal_close w = obind (at_send_command False ''AT+CFUN=4'' False (at w)) (\<lambda>(_, _, st).
     Ret (0, (modem_hal_serial_detach (w\<lparr>at := st\<rparr>))\<lparr>atif := 0\<rparr>))"

section \<open>Connecting\<close>

text \<open>Commands whose result nobody looks at.\<close>

fun send_all :: "string list \<Rightarrow> at_chan \<Rightarrow> at_chan outcome" where
  "send_all [] st = Ret st"
| "send_all (c # cs) st = obind (at_send_command False c False st) (\<lambda>(_, _, st'). send_all cs st')"

definition setup_first :: "string list" where
  "setup_first = [''ATS0=0'', ''AT+CMEE=1'']"

definition setup_rest :: "string list" where
  "setup_rest = [''AT+CGREG=1'', ''AT+CCWA=1'', ''AT+CMOD=0'', ''AT+CMUT=1'', ''AT+CSSN=0,1'', ''AT+COLP=0'',
     ''AT+CSCS='' @ [QUOTE] @ ''HEX'' @ [QUOTE], ''AT+CUSD=1'', ''AT+CGEREP=1,0'', ''AT+CMGF=0'', ''AT+CFUN=1'']"

text \<open>The result is whether the SIM may be used; the PIN is entered on the way.\<close>

definition sim_unlock :: "string \<Rightarrow> at_chan \<Rightarrow> (bool \<times> at_chan) outcome" where
  "sim_unlock pn st = obind (modem_hal_check_pin_status st) (\<lambda>(ret, st1).
     if ret = SIM_ABSENT \<or> ret = SIM_NOT_READY \<or> ret = SIM_PUK then Ret (False, st1)
     else if ret = SIM_PIN
     then obind (modem_hal_get_numretries RIL_REQUEST_CHANGE_SIM_PIN st1) (\<lambda>(pin1_retries, st2).
       if pin1_retries > 1
       then obind (enter_sim_pin pn st2) (\<lambda>(r, st3). Ret (r = 0, st3))
       else Ret (False, st2))
     else Ret (True, st1))"

definition network_setup :: "at_chan \<Rightarrow> at_chan outcome" where
  "network_setup st = obind (send_all setup_first st) (\<lambda>st1.
     obind (at_send_command False ''AT+CREG=2'' True st1) (\<lambda>(ret, resp, st2).
     obind (if ret < 0 then Ret True else obind (response_ptr resp) (\<lambda>r. Ret (success r = 0))) (\<lambda>fallback.
     obind (if fallback then send_all [''AT+CREG=1''] st2 else Ret st2) (\<lambda>st3.
       send_all setup_rest st3))))"

definition start_network_cmd :: "string \<Rightarrow> string \<Rightarrow> string" where
  "start_network_cmd m a = prepare_cmd_buf CMD_BUFFER_SIZE
     (''qmicli --device=/dev/'' @ m @ '' --device-open-proxy --wds-start-network='' @ [QUOTE]
      @ ''ip-type=4,apn='' @ a @ [QUOTE] @ '' --client-no-release-cid'')"

definition modem_hal_connect :: "modem_ctx \<Rightarrow> (int \<times> modem_ctx) outcome" where
  "modem_hal_connect w = obind (sim_unlock (pin w) (at w)) (\<lambda>(usable, st1).
     if \<not> usable then Ret (-1, w\<lparr>at := st1\<rparr>)
     else obind (network_setup st1) (\<lambda>st2. obind (modem_hal_get_registration_status st2) (\<lambda>(ret, st3).
       if ret < 0 then Ret (-1, w\<lparr>at := st3\<rparr>)
       else obind (modem_hal_run_sys_cmd (start_network_cmd (modem w) (apn w)) (RESP_BUFFER_SIZE - 1) (w\<lparr>at := st3\<rparr>))
         (\<lambda>(r, _, w4). Ret (if r \<noteq> 0 then -1 else 0, w4)))))"

section \<open>Attaching and detaching\<close>

text \<open>A context is \<open>malloc\<close>ed: its configuration pointers hold nothing (False) until they are set.\<close>

definition modem_hal_attach :: "bool \<Rightarrow> bool \<Rightarrow> bool list option" where
  "modem_hal_attach ctx_ok sc_ok =
     (if \<not> ctx_ok then None else if \<not> sc_ok then None else Some (replicate RADIO_MAX_AMOUNT False))"

text \<open>Each pointer is passed to \<open>free\<close>.\<close>

definition modem_hal_detach :: "bool list \<Rightarrow> int outcome" where
  "modem_hal_detach config = (if list_all (\<lambda>set_ptr. set_ptr) config then Ret 0 else Fault UninitRead)"

definition MODEM_RADIO_HAL_MAJOR_VERSION :: int where "MODEM_RADIO_HAL_MAJOR_VERSION = 0"
definition MODEM_RADIO_HAL_MINOR_VERSION :: int where "MODEM_RADIO_HAL_MINOR_VERSION = 1"

definition modem_hal_get_hal_version :: string where
  "modem_hal_get_hal_version = prepare_cmd_buf 32
     (show_int MODEM_RADIO_HAL_MAJOR_VERSION @ ''.'' @ show_int MODEM_RADIO_HAL_MINOR_VERSION)"

section \<open>Output of system commands\<close>

text \<open>
  The buffer of a system command holds a prefix of its output that leaves room for the
  terminator, and all of the output when that is at least two bytes shorter than the buffer.
\<close>

theorem sys_cmd_output:
  assumes "NUL \<notin> set out" "2 \<le> len" "popens w = Some out # ps"
  shows "\<exists>resp w' t. modem_hal_run_sys_cmd cmd len w = Ret (0, resp, w') \<and> out = resp @ t \<and> length resp < len
    \<and> (length out + 2 \<le> len \<longrightarrow> resp = out)"
proof -
  have "0 < len" using assms(2) by simp
  from read_output_part [OF assms(1) this, of "[]"] show ?thesis
    using assms(3) by (auto simp: modem_hal_run_sys_cmd_def)
qed

text \<open>The name of the modem is the output of the command without its newline, and it has to fit
  twenty bytes.\<close>

lemma find_output_line:
  assumes "NUL \<notin> set out" "length out + 3 \<le> len" "popens w = Some (out @ [LF]) # ps"
  shows "find_output cmd len w = Ret (Some out, w\<lparr>popens := ps, sys_cmds := sys_cmds w @ [cmd]\<rparr>)"
proof -
  have "NUL \<notin> set (out @ [LF])" "0 < len" using assms(1,2) by simp_all
  from read_output_part [OF this, of "[]"] have "read_output len (out @ [LF]) [] = out @ [LF]"
    using assms(2) by auto
  then show ?thesis using assms(3)
    by (simp add: find_output_def modem_hal_run_sys_cmd_def replace_line_change_def)
qed

section \<open>Attaching the serial port\<close>

definition frames :: "string list \<Rightarrow> string" where
  "frames cs = concat (map (\<lambda>c. c @ [CR]) cs)"

lemma frames_append [simp]: "frames (cs @ ds) = frames cs @ frames ds" "frames [] = []"
  by (simp_all add: frames_def)

lemma handshake_ok:
  assumes "talks ((''ATE0Q0V1'', [], ''OK'') # xs) st"
  shows "\<exists>st'. at_handshake False st = Ret (0, st') \<and> talks xs st' \<and> wire st' = wire st @ ''ATE0Q0V1'' @ [CR]
    \<and> unsol_log st' = unsol_log st"
proof -
  have "exchange_ok (''ATE0Q0V1'', [], ''OK'')" by (simp add: exchange_ok_def isFinalResponse_def)
  from talk_step [OF assms this, of NO_RESULT None HANDSHAKE_TIMEOUT_MSEC False] show ?thesis
    by (auto simp: at_handshake_def HANDSHAKE_RETRY_COUNT_def type_ok_def numeral_eq_Suc)
qed

definition eg25 :: "exchange list" where
  "eg25 = [(''ATE0Q0V1'', [], ''OK''), (''AT+GMI'', [''Quectel''], ''OK''), (''AT+GMM'', [''EG25''], ''OK'')]"

lemma not_final_names [simp]: "\<not> isFinalResponse ''Quectel''" "\<not> isFinalResponse ''EG25''"
  by code_simp+

lemma check_modem_ok:
  assumes "talks ((''AT+GMI'', [''Quectel''], ''OK'') # (''AT+GMM'', [''EG25''], ''OK'') # xs) st"
  shows "\<exists>st'. modem_hal_check_modem st = Ret (0, st') \<and> talks xs st' \<and> wire st' = wire st @ frames [''AT+GMI'', ''AT+GMM'']
    \<and> unsol_log st' = unsol_log st"
proof -
  have e: "exchange_ok (''AT+GMI'', [''Quectel''], ''OK'')" "exchange_ok (''AT+GMM'', [''EG25''], ''OK'')"
    by (simp_all add: exchange_ok_def)
  obtain st1 where 1: "ask_line ''AT+GMI'' [] st
      = Ret (0, Some \<lparr>success = 1, finalResponse = Some ''OK'', p_intermediates = [''Quectel'']\<rparr>, st1)"
    "talks ((''AT+GMM'', [''EG25''], ''OK'') # xs) st1" "unsol_log st1 = unsol_log st" "wire st1 = wire st @ ''AT+GMI'' @ [CR]"
    using talk_ask_ok [OF assms e(1), of "[]"] by (auto simp: starts_with_def)
  obtain st2 where 2: "ask_line ''AT+GMM'' [] st1
      = Ret (0, Some \<lparr>success = 1, finalResponse = Some ''OK'', p_intermediates = [''EG25'']\<rparr>, st2)" "talks xs st2" "unsol_log st2 = unsol_log st1" "wire st2 = wire st1 @ ''AT+GMM'' @ [CR]"
    using talk_ask_ok [OF 1(2) e(2), of "[]"] by (auto simp: starts_with_def)
  show ?thesis using 1(1,3,4) 2
    by (simp add: frames_def modem_hal_check_modem_def first_line_def response_ptr_def copy_name_def mm_lenght_def)
qed

text \<open>Up to the two names: the handshake, the model, and the output of the first command.\<close>

lemma serial_attach_names:
  assumes "talks (eg25 @ xs) (at w)" "NUL \<notin> set m" "length m < 2000" "popens w = Some (m @ [LF]) # ps"
  obtains st where "talks xs st" "wire st = wire (at w) @ frames (map fst eg25)" "unsol_log st = unsol_log (at w)"
    "modem_hal_serial_attach w = obind (strcpy_name m) (\<lambda>nm.
       let w3 = w\<lparr>at := st, popens := ps, sys_cmds := sys_cmds w @ [''ls /sys/class/usbmisc/ |grep cdc'']\<rparr> in
       obind (modem_hal_find_wwan (RESP_BUFFER_SIZE - 1) (w3\<lparr>modem := nm\<rparr>)) (\<lambda>(i, w4). case i of None \<Rightarrow> Ret (-1, w4) | Some iface \<Rightarrow>
       obind (strcpy_name iface) (\<lambda>ifn.
       obind (modem_hal_run_sys_cmd (raw_ip_cmd ifn) (RESP_BUFFER_SIZE - 1) (w4\<lparr>wwan := ifn\<rparr>)) (\<lambda>(r, _, w5).
         Ret (if r \<noteq> 0 then -1 else 0, w5)))))"
proof -
  obtain st1 where st1: "at_handshake False (at w) = Ret (0, st1)" "unsol_log st1 = unsol_log (at w)"
    "wire st1 = wire (at w) @ ''ATE0Q0V1'' @ [CR]"
    "talks ((''AT+GMI'', [''Quectel''], ''OK'') # (''AT+GMM'', [''EG25''], ''OK'') # xs) st1"
    using handshake_ok assms(1) unfolding eg25_def append_Cons append_Nil by blast
  obtain st2 where st2: "modem_hal_check_modem st1 = Ret (0, st2)" "talks xs st2" "unsol_log st2 = unsol_log st1"
    "wire st2 = wire st1 @ frames [''AT+GMI'', ''AT+GMM'']" using check_modem_ok [OF st1(4)] by blast
  let ?w2 = "w\<lparr>at := st2\<rparr>"
  have 3: "modem_hal_find_modem (RESP_BUFFER_SIZE - 1) ?w2 = Ret (Some m, ?w2\<lparr>popens := ps,
      sys_cmds := sys_cmds w @ [''ls /sys/class/usbmisc/ |grep cdc'']\<rparr>)"
    using find_output_line [OF assms(2), of "RESP_BUFFER_SIZE - 1" ?w2] assms(3,4) by (simp add: modem_hal_find_modem_def RESP_BUFFER_SIZE_def)
  show thesis
    by (rule that [OF st2(2)])
      (use st1 st2 3 in \<open>simp_all add: modem_hal_serial_attach_def Let_def on_at_def eg25_def frames_def del: One_nat_def\<close>)
qed

lemma serial_attach_talk:
  assumes "talks (eg25 @ xs) (at w)" "NUL \<notin> set m" "NUL \<notin> set i" "length m < SC_NAME_SIZE" "length i < SC_NAME_SIZE"
    and "popens w = Some (m @ [LF]) # Some (i @ [LF]) # Some out # ps"
  obtains st where "talks xs st" "wire st = wire (at w) @ frames (map fst eg25)" "unsol_log st = unsol_log (at w)"
    "modem_hal_serial_attach w = Ret (0, w\<lparr>at := st, modem := m, wwan := i, popens := ps,
       sys_cmds := sys_cmds w @ [''ls /sys/class/usbmisc/ |grep cdc'', wwan_cmd m, raw_ip_cmd i]\<rparr>)"
proof -
  have "length m < 2000" using assms(4) by (simp add: SC_NAME_SIZE_def)
  from serial_attach_names [OF assms(1,2) this assms(6)] obtain st where st: "talks xs st"
    "wire st = wire (at w) @ frames (map fst eg25)" "unsol_log st = unsol_log (at w)"
    "modem_hal_serial_attach w = obind (strcpy_name m) (\<lambda>nm.
       let w3 = w\<lparr>at := st, popens := Some (i @ [LF]) # Some out # ps, sys_cmds := sys_cmds w @ [''ls /sys/class/usbmisc/ |grep cdc'']\<rparr> in
       obind (modem_hal_find_wwan (RESP_BUFFER_SIZE - 1) (w3\<lparr>modem := nm\<rparr>)) (\<lambda>(i, w4). case i of None \<Rightarrow> Ret (-1, w4) | Some iface \<Rightarrow>
       obind (strcpy_name iface) (\<lambda>ifn.
       obind (modem_hal_run_sys_cmd (raw_ip_cmd ifn) (RESP_BUFFER_SIZE - 1) (w4\<lparr>wwan := ifn\<rparr>)) (\<lambda>(r, _, w5).
         Ret (if r \<noteq> 0 then -1 else 0, w5)))))" by blast
  let ?w3 = "w\<lparr>at := st, popens := Some (i @ [LF]) # Some out # ps, sys_cmds := sys_cmds w @ [''ls /sys/class/usbmisc/ |grep cdc''], modem := m\<rparr>"
  have "modem_hal_find_wwan (RESP_BUFFER_SIZE - 1) ?w3 = Ret (Some i, ?w3\<lparr>popens := Some out # ps,
      sys_cmds := sys_cmds w @ [''ls /sys/class/usbmisc/ |grep cdc''] @ [wwan_cmd m]\<rparr>)"
    using find_output_line [OF assms(3), of "RESP_BUFFER_SIZE - 1" ?w3] assms(5)
    by (simp add: modem_hal_find_wwan_def SC_NAME_SIZE_def RESP_BUFFER_SIZE_def)
  then show thesis
    using st(4) assms(4,5) that [OF st(1-3)] by (simp add: strcpy_name_def modem_hal_run_sys_cmd_def Let_def)
qed

text \<open>
  C16: attaching to a supported modem stores the device name and the interface name that the two
  system commands print and turns the raw mode of that interface on. A list of devices of twenty
  bytes or more, as three modems have, is copied beyond the end of the name.
\<close>

theorem serial_attach:
  assumes "talks eg25 (at w)" "NUL \<notin> set m" "NUL \<notin> set i" "length m < 2000" "length i < SC_NAME_SIZE"
    and "popens w = [Some (m @ [LF]), Some (i @ [LF]), Some []]"
  shows "if length m < SC_NAME_SIZE
    then \<exists>w'. modem_hal_serial_attach w = Ret (0, w') \<and> modem w' = m \<and> wwan w' = i
      \<and> sys_cmds w' = sys_cmds w @ [''ls /sys/class/usbmisc/ |grep cdc'', wwan_cmd m, raw_ip_cmd i]
    else modem_hal_serial_attach w = Fault OutOfBounds"
proof (cases "length m < SC_NAME_SIZE")
  case True
  have t: "talks (eg25 @ []) (at w)" using assms(1) by simp
  show ?thesis by (rule serial_attach_talk [OF t assms(2,3) True assms(5,6)]) (simp add: True)
next
  case False
  have t: "talks (eg25 @ []) (at w)" using assms(1) by simp
  show ?thesis by (rule serial_attach_names [OF t assms(2,4,6)]) (simp add: False strcpy_name_def)
qed

section \<open>Connecting\<close>

definition ok_answers :: "string list \<Rightarrow> exchange list" where
  "ok_answers cs = map (\<lambda>c. (c, [], ''OK'')) cs"

lemma ok_exchange: "c \<noteq> [] \<Longrightarrow> exchange_ok (c, [], ''OK'')"
  by (simp add: exchange_ok_def isFinalResponse_def)

lemma send_all_talk:
  "talks (ok_answers cs @ xs) st \<Longrightarrow> \<forall>c \<in> set cs. c \<noteq> [] \<Longrightarrow>
   \<exists>st'. send_all cs st = Ret st' \<and> talks xs st' \<and> wire st' = wire st @ frames cs \<and> unsol_log st' = unsol_log st"
proof (induction cs arbitrary: st)
  case Nil
  then show ?case by (simp add: ok_answers_def frames_def)
next
  case (Cons c cs)
  have t: "talks ((c, [], ''OK'') # ok_answers cs @ xs) st" using Cons.prems(1) by (simp add: ok_answers_def)
  obtain st1 where st1: "at_send_command False c False st = Ret (0, None, st1)" "talks (ok_answers cs @ xs) st1"
    "wire st1 = wire st @ c @ [CR]" "unsol_log st1 = unsol_log st"
    using talk_full [OF t ok_exchange, of NO_RESULT None 0 False] Cons.prems(2)
    by (auto simp: at_send_command_def type_ok_def)
  from Cons.IH [OF st1(2)] Cons.prems(2) st1 show ?case by (auto simp: frames_def)
qed

lemma setup_nonempty: "\<forall>c \<in> set setup_first. c \<noteq> []" "\<forall>c \<in> set setup_rest. c \<noteq> []"
  by (simp_all add: setup_first_def setup_rest_def)

lemma network_setup_talk:
  assumes "talks (ok_answers (setup_first @ ''AT+CREG=2'' # setup_rest) @ xs) st"
  shows "\<exists>st'. network_setup st = Ret st' \<and> talks xs st'
    \<and> wire st' = wire st @ frames (setup_first @ ''AT+CREG=2'' # setup_rest) \<and> unsol_log st' = unsol_log st"
proof -
  have "talks (ok_answers setup_first @ (''AT+CREG=2'', [], ''OK'') # ok_answers setup_rest @ xs) st"
    using assms by (simp add: ok_answers_def)
  from send_all_talk [OF this setup_nonempty(1)] obtain st1 where st1: "send_all setup_first st = Ret st1"
    "talks ((''AT+CREG=2'', [], ''OK'') # ok_answers setup_rest @ xs) st1" "wire st1 = wire st @ frames setup_first" "unsol_log st1 = unsol_log st"
    by blast
  obtain st2 where st2: "at_send_command False ''AT+CREG=2'' True st1
      = Ret (0, Some \<lparr>success = 1, finalResponse = Some ''OK'', p_intermediates = []\<rparr>, st2)"
    "talks (ok_answers setup_rest @ xs) st2" "wire st2 = wire st1 @ ''AT+CREG=2'' @ [CR]" "unsol_log st2 = unsol_log st1"
    using talk_full [OF st1(2) ok_exchange, of NO_RESULT None 0 True]
    by (auto simp: at_send_command_def type_ok_def answer_lines_def)
  from send_all_talk [OF st2(2) setup_nonempty(2)] obtain st3 where "send_all setup_rest st2 = Ret st3" "talks xs st3"
    "wire st3 = wire st2 @ frames setup_rest" "unsol_log st3 = unsol_log st2" by blast
  with st1 st2 show ?thesis by (simp add: network_setup_def response_ptr_def frames_def)
qed

definition cpin_answer :: "string \<Rightarrow> exchange" where
  "cpin_answer x = (''AT+CPIN?'', [''+CPIN: '' @ x], ''OK'')"

lemma pin_status_talk:
  assumes "talks (cpin_answer x # xs) st" "plain_field x"
  shows "\<exists>st'. modem_hal_check_pin_status st = Ret (if x = ''SIM PIN'' then SIM_PIN
     else if x = ''SIM PUK'' then SIM_PUK else if x \<noteq> ''READY'' then SIM_ABSENT else SIM_READY, st')
    \<and> talks xs st' \<and> wire st' = wire st @ ''AT+CPIN?'' @ [CR] \<and> unsol_log st' = unsol_log st"
proof -
  have "exchange_ok (''AT+CPIN?'', [''+CPIN: '' @ x], ''OK'')" by (simp add: exchange_ok_def plus_line)
  then obtain st' where "ask_line ''AT+CPIN?'' ''+CPIN:'' st
    = Ret (0, Some \<lparr>success = 1, finalResponse = Some ''OK'', p_intermediates = [''+CPIN: '' @ x]\<rparr>, st')"
    "talks xs st'" "wire st' = wire st @ ''AT+CPIN?'' @ [CR]" "unsol_log st' = unsol_log st"
    using talk_ask_ok [OF assms(1) [unfolded cpin_answer_def], of "''+CPIN:''"] by (auto simp: starts_with_def)
  then show ?thesis using cpin_result_plain [OF assms(2)]
    by (simp add: modem_hal_check_pin_status_def response_ptr_def first_line_def at_get_cme_error_def CME_SUCCESS_def)
qed

lemma plain_ready [simp]: "plain_field ''READY''" "plain_field ''SIM PIN''"
  by (simp_all add: plain_field_def isspace_def)

text \<open>The tries that are left, from the two lines of the answer.\<close>

definition qpinc_answer :: "int \<Rightarrow> int \<Rightarrow> int \<Rightarrow> int \<Rightarrow> exchange" where
  "qpinc_answer a b c d = (''AT+QPINC?'', [qpinc_text ''SC'' a b, qpinc_text ''P2'' c d], ''OK'')"

definition tries_ok :: "int \<Rightarrow> int \<Rightarrow> int \<Rightarrow> int \<Rightarrow> bool" where
  "tries_ok a b c d = list_all (\<lambda>x. - (2 ^ 31) \<le> x \<and> x < 2 ^ 31) [a, b, c, d]"

lemma retries_talk:
  assumes "talks (qpinc_answer a b c d # xs) st" "tries_ok a b c d"
  shows "\<exists>st'. modem_hal_get_numretries RIL_REQUEST_CHANGE_SIM_PIN st = Ret (a, st') \<and> talks xs st'
    \<and> wire st' = wire st @ ''AT+QPINC?'' @ [CR] \<and> unsol_log st' = unsol_log st"
proof -
  let ?ls = "[qpinc_text ''SC'' a b, qpinc_text ''P2'' c d]"
  have ok: "exchange_ok (''AT+QPINC?'', ?ls, ''OK'')"
    by (simp add: exchange_ok_def qpinc_text_def plus_line)
  have sw: "starts_with (qpinc_text f x y) ''+QPINC''" for f x y by (simp add: qpinc_text_def starts_with_def)
  obtain st' where "at_send_command_multiline False ''AT+QPINC?'' ''+QPINC'' True st
     = Ret (0, Some \<lparr>success = 1, finalResponse = Some ''OK'', p_intermediates = ?ls\<rparr>, st')"
    "talks xs st'" "wire st' = wire st @ ''AT+QPINC?'' @ [CR]" "unsol_log st' = unsol_log st"
    using talk_full [OF assms(1) [unfolded qpinc_answer_def] ok, of MULTILINE "Some ''+QPINC''" 0 True] sw
    by (auto simp: type_ok_def at_send_command_multiline_def answer_lines_def matches_def single_shot_def)
  moreover have "qpinc_lines ?ls no_retries = Ret (Some \<lparr>pin1 = Some a, puk1 = Some b, pin2 = Some c, puk2 = Some d\<rparr>)"
    using qpinc_line_text [of a b "''SC''"] qpinc_line_text [of c d "''P2''"] assms(2)
    by (simp add: no_retries_def tries_ok_def)
  ultimately show ?thesis
    by (simp add: modem_hal_get_numretries_def retries_for_def value_of_def ril_request_defs)
qed

text \<open>The PIN is accepted and the SIM is ready.\<close>

lemma enter_pin_talk:
  assumes "talks ((cpin_cmd pn, [], ''OK'') # cpin_answer ''READY'' # xs) st" "cpin_cmd pn \<noteq> []"
  shows "\<exists>st'. enter_sim_pin pn st = Ret (0, st') \<and> talks xs st'
    \<and> wire st' = wire st @ frames [cpin_cmd pn, ''AT+CPIN?''] \<and> unsol_log st' = unsol_log st"
proof -
  obtain st1 where st1: "at_send_command False (cpin_cmd pn) True st
      = Ret (0, Some \<lparr>success = 1, finalResponse = Some ''OK'', p_intermediates = []\<rparr>, st1)"
    "talks (cpin_answer ''READY'' # xs) st1" "wire st1 = wire st @ cpin_cmd pn @ [CR]" "unsol_log st1 = unsol_log st"
    using talk_full [OF assms(1) ok_exchange [OF assms(2)], of NO_RESULT None 0 True]
    by (auto simp: at_send_command_def type_ok_def answer_lines_def)
  have "exchange_ok (''AT+CPIN?'', [''+CPIN: '' @ ''READY''], ''OK'')" by (simp add: exchange_ok_def plus_line)
  then obtain st2 where "ask_line ''AT+CPIN?'' ''+CPIN:'' st1
    = Ret (0, Some \<lparr>success = 1, finalResponse = Some ''OK'', p_intermediates = [''+CPIN: '' @ ''READY'']\<rparr>, st2)"
    "talks xs st2" "wire st2 = wire st1 @ ''AT+CPIN?'' @ [CR]" "unsol_log st2 = unsol_log st1"
    using talk_ask_ok [OF st1(2) [unfolded cpin_answer_def], of "''+CPIN:''"] by (auto simp: starts_with_def)
  moreover have "at_tok_start (Some (''+CPIN: '' @ ''READY'')) = (0, Some '' READY'')"
    "at_tok_nextstr (Some '' READY'') = (0, Some ''READY'', None)" by code_simp+
  ultimately show ?thesis using st1 by (simp add: enter_sim_pin_def response_ptr_def first_line_def frames_def)
qed

text \<open>What a modem says until its SIM may be used: \<open>None\<close> for a SIM that is not locked, the tries
  otherwise.\<close>

definition sim_talk :: "string \<Rightarrow> (int \<times> int \<times> int \<times> int) option \<Rightarrow> exchange list" where
  "sim_talk pn tries = (case tries of
       None \<Rightarrow> [cpin_answer ''READY'']
     | Some (a, b, c, d) \<Rightarrow> [cpin_answer ''SIM PIN'', qpinc_answer a b c d, (cpin_cmd pn, [], ''OK''), cpin_answer ''READY''])"

lemma cpin_cmd_not_empty: "cpin_cmd pn \<noteq> []"
  by (simp add: cpin_cmd_def prepare_cmd_buf_def cpin_cmd_size_def)

lemma sim_unlock_talk:
  assumes "talks (sim_talk pn tries @ xs) st" "case tries of None \<Rightarrow> True | Some (a, b, c, d) \<Rightarrow> tries_ok a b c d \<and> 1 < a"
  shows "\<exists>st'. sim_unlock pn st = Ret (True, st') \<and> talks xs st'
    \<and> wire st' = wire st @ frames (map fst (sim_talk pn tries)) \<and> unsol_log st' = unsol_log st"
proof (cases tries)
  case None
  then show ?thesis using pin_status_talk [of "''READY''" xs st] assms
    by (auto simp: sim_talk_def sim_unlock_def sim_defs frames_def cpin_answer_def)
next
  case (Some t)
  then obtain a b c d where t: "tries = Some (a, b, c, d)" "tries_ok a b c d" "1 < a" using assms(2) by (cases t) auto
  have "talks (cpin_answer ''SIM PIN'' # qpinc_answer a b c d # (cpin_cmd pn, [], ''OK'') # cpin_answer ''READY'' # xs) st"
    using assms(1) by (simp add: t(1) sim_talk_def)
  from pin_status_talk [OF this] obtain st1 where st1: "modem_hal_check_pin_status st = Ret (SIM_PIN, st1)"
    "talks (qpinc_answer a b c d # (cpin_cmd pn, [], ''OK'') # cpin_answer ''READY'' # xs) st1"
    "wire st1 = wire st @ ''AT+CPIN?'' @ [CR]" "unsol_log st1 = unsol_log st" by auto
  obtain st2 where st2: "modem_hal_get_numretries RIL_REQUEST_CHANGE_SIM_PIN st1 = Ret (a, st2)"
    "talks ((cpin_cmd pn, [], ''OK'') # cpin_answer ''READY'' # xs) st2"
    "wire st2 = wire st1 @ ''AT+QPINC?'' @ [CR]" "unsol_log st2 = unsol_log st1"
    using retries_talk [OF st1(2) t(2)] by blast
  obtain st3 where "enter_sim_pin pn st2 = Ret (0, st3)" "talks xs st3"
    "wire st3 = wire st2 @ frames [cpin_cmd pn, ''AT+CPIN?'']" "unsol_log st3 = unsol_log st2"
    using enter_pin_talk [OF st2(2) cpin_cmd_not_empty] by blast
  then show ?thesis using st1 st2 t
    by (simp add: sim_unlock_def sim_defs sim_talk_def frames_def cpin_answer_def qpinc_answer_def)
qed

text \<open>
  With a SIM that is not locked, or one with more than one try left and the right PIN, and a modem
  that accepts the setup and reports a registration, connecting sends exactly these commands in
  their order and then starts the network with the access point of the configuration; the
  registration state may be anything that is neither negative nor a searching state, the denied
  state included.
\<close>

definition setup_commands :: "string list" where
  "setup_commands = setup_first @ ''AT+CREG=2'' # setup_rest"

definition connect_talk :: "string \<Rightarrow> (int \<times> int \<times> int \<times> int) option \<Rightarrow> int \<Rightarrow> exchange list" where
  "connect_talk pn tries s = sim_talk pn tries @ ok_answers setup_commands @ [cgreg_answer s]"

definition registered :: "int \<Rightarrow> bool" where
  "registered s = (0 \<le> s \<and> s < 2 ^ 31 \<and> s \<notin> {RIL_NOT_REG_AND_NOT_SEARCHING, RIL_NOT_REG_AND_SEARCHING, RIL_UNKNOWN})"

lemma connect_sequence:
  assumes "talks (connect_talk (pin w) tries s @ xs) (at w)" "registered s" "popens w = Some out # ps"
    and "case tries of None \<Rightarrow> True | Some (a, b, c, d) \<Rightarrow> tries_ok a b c d \<and> 1 < a"
  obtains st where "talks xs st" "wire st = wire (at w) @ frames (map fst (connect_talk (pin w) tries s))"
    "unsol_log st = unsol_log (at w)"
    "modem_hal_connect w = Ret (0, w\<lparr>at := st, popens := ps, sys_cmds := sys_cmds w @ [start_network_cmd (modem w) (apn w)]\<rparr>)"
proof -
  have t: "talks (sim_talk (pin w) tries @ ok_answers setup_commands @ cgreg_answer s # xs) (at w)"
    using assms(1) by (simp add: connect_talk_def)
  obtain st1 where st1: "sim_unlock (pin w) (at w) = Ret (True, st1)"
    "talks (ok_answers setup_commands @ cgreg_answer s # xs) st1"
    "wire st1 = wire (at w) @ frames (map fst (sim_talk (pin w) tries))" "unsol_log st1 = unsol_log (at w)"
    using sim_unlock_talk [OF t assms(4)] by blast
  obtain st2 where st2: "network_setup st1 = Ret st2" "talks (cgreg_answer s # xs) st2"
    "wire st2 = wire st1 @ frames setup_commands" "unsol_log st2 = unsol_log st1"
    using network_setup_talk [OF st1(2) [unfolded setup_commands_def]] unfolding setup_commands_def by blast
  obtain st3 where st3: "modem_hal_get_registration_status st2 = Ret (s, st3)" "talks xs st3"
    "wire st3 = wire st2 @ ''AT+CGREG?'' @ [CR]" "unsol_log st3 = unsol_log st2"
    using cgreg_turn [OF st2(2), of 0] assms(2)
    by (auto simp: modem_hal_get_registration_status_def MAX_REG_WAIT_def keeps_waiting_def registered_def)
  have f: "map fst (ok_answers cs) = cs" for cs by (simp add: ok_answers_def comp_def)
  show thesis
    by (rule that [OF st3(2)])
      (use st1 st2 st3 assms(2,3) in \<open>simp_all add: modem_hal_connect_def connect_talk_def f cgreg_answer_def registered_def
          modem_hal_run_sys_cmd_def frames_def\<close>)
qed

definition modem_ctx0 :: "exchange list \<Rightarrow> string option list \<Rightarrow> modem_ctx" where
  "modem_ctx0 xs ps = \<lparr>at = script_chan xs, atif = 3, modem = ''cdc-wdm0'', wwan = ''wwan0'', apn = ''internet'',
     pin = ''1234'', popens = ps, sys_cmds = []\<rparr>"

text \<open>
  C15: with a locked SIM that reports one try or none, connecting fails without entering the PIN:
  the two queries are all that reaches the wire.
\<close>

theorem last_pin_try_kept:
  assumes "talks [cpin_answer ''SIM PIN'', (''AT+QPINC?'', [qpinc_text ''SC'' a b, qpinc_text ''P2'' c d], ''OK'')] (at w)"
    and "- (2 ^ 31) \<le> a" "a \<le> 1" "- (2 ^ 31) \<le> b" "b < 2 ^ 31"
    "- (2 ^ 31) \<le> c" "c < 2 ^ 31" "- (2 ^ 31) \<le> d" "d < 2 ^ 31"
  shows "\<exists>w'. modem_hal_connect w = Ret (-1, w')
    \<and> wire (at w') = wire (at w) @ frames [''AT+CPIN?'', ''AT+QPINC?''] \<and> sys_cmds w' = sys_cmds w"
proof -
  have "tries_ok a b c d" using assms(2-9) by (simp add: tries_ok_def)
  obtain st1 where st1: "modem_hal_check_pin_status (at w) = Ret (SIM_PIN, st1)"
    "talks [qpinc_answer a b c d] st1" "wire st1 = wire (at w) @ ''AT+CPIN?'' @ [CR]"
    using pin_status_talk [OF assms(1)] by (auto simp: qpinc_answer_def)
  obtain st2 where "modem_hal_get_numretries RIL_REQUEST_CHANGE_SIM_PIN st1 = Ret (a, st2)"
    "wire st2 = wire st1 @ ''AT+QPINC?'' @ [CR]"
    using retries_talk [OF st1(2) \<open>tries_ok a b c d\<close>] by blast
  then show ?thesis using st1 assms(3)
    by (simp add: modem_hal_connect_def sim_unlock_def sim_defs frames_def)
qed

theorem last_pin_try_kept_witness:
  "\<exists>w'. modem_hal_connect (modem_ctx0 [cpin_answer ''SIM PIN'', (''AT+QPINC?'', [qpinc_text ''SC'' 1 10, qpinc_text ''P2'' 3 10], ''OK'')] []) = Ret (-1, w')
    \<and> wire (at w') = [] @ frames [''AT+CPIN?'', ''AT+QPINC?''] \<and> sys_cmds w' = []"
proof -
  let ?xs = "[cpin_answer ''SIM PIN'', (''AT+QPINC?'', [qpinc_text ''SC'' 1 10, qpinc_text ''P2'' 3 10], ''OK'')]"
  have "talks ?xs (at (modem_ctx0 ?xs []))" by (simp only: modem_ctx0_def modem_ctx.simps talks_script)
  from last_pin_try_kept [OF this] show ?thesis
    by (simp add: modem_ctx0_def script_chan_def chan0_def)
qed

text \<open>A PIN of up to eight digits is quoted in full; a longer one loses its closing quote.\<close>

lemma cpin_cmd_fits: "length pn \<le> 8 \<Longrightarrow> cpin_cmd pn = ''AT+CPIN='' @ [QUOTE] @ pn @ [QUOTE]"
  by (simp add: cpin_cmd_def prepare_cmd_buf_def cpin_cmd_size_def)

lemma cpin_cmd_cut: "10 \<le> length pn \<Longrightarrow> cpin_cmd pn = ''AT+CPIN='' @ [QUOTE] @ take 10 pn"
  by (simp add: cpin_cmd_def prepare_cmd_buf_def cpin_cmd_size_def)

text \<open>The manager sets only the first of the two configuration pointers of a modem context; detaching
  frees both, the second of which was never written.\<close>

lemma modem_detach_frees_garbage:
  "map_option (\<lambda>config. modem_hal_detach (config[0 := True])) (modem_hal_attach True True) = Some (Fault UninitRead)"
  by (simp add: modem_hal_attach_def modem_hal_detach_def RADIO_MAX_AMOUNT_def numeral_2_eq_2)

theorem serial_attach_witness:
  "modem_hal_serial_attach (modem_ctx0 eg25 [Some (replicate 26 (CHR ''c'') @ [LF]), Some (''wwan0'' @ [LF]), Some []]) = Fault OutOfBounds"
proof -
  let ?w = "modem_ctx0 eg25 [Some (replicate 26 (CHR ''c'') @ [LF]), Some (''wwan0'' @ [LF]), Some []]"
  have "talks eg25 (at ?w)" by (simp only: modem_ctx0_def modem_ctx.simps talks_script)
  from serial_attach [OF this, of "replicate 26 (CHR ''c'')" "''wwan0''"] show ?thesis
    by (simp add: modem_ctx0_def SC_NAME_SIZE_def)
qed

end
