(* ===== verification/ModemLoop.thy ===== *)
theory ModemLoop
  imports ModemHal AtEndToEnd
begin

text \<open>
  The event loop of src/src/modem/modem_hal_main.cpp with all that its handlers do: the lines that
  the reader thread hears go through \<open>at_event_handler\<close> into the pipe, and the loop reads the messages
  and connects the modem. It refines the loop of theory ModemEvents, and is composed here with the
  reader of the bytes.
\<close>

section \<open>The pipe\<close>

text \<open>
  The writing end is not blocking: with \<open>cap\<close> messages in the pipe a further one is lost, and the
  negative result of the write is not noticed.
\<close>

definition pipe_write :: "nat \<Rightarrow> radio_hal_msg_buffer \<Rightarrow> radio_hal_msg_buffer list \<Rightarrow> radio_hal_msg_buffer list" where
  "pipe_write cap m q = (if length q < cap then q @ [m] else q)"

text \<open>The calls of \<open>s_unsolHandler\<close>, which is \<open>at_event_handler\<close>; it does not look at an SMS text.\<close>

fun post_lines :: "nat \<Rightarrow> (string \<times> string option) list \<Rightarrow> radio_hal_msg_buffer list \<Rightarrow> radio_hal_msg_buffer list outcome" where
  "post_lines cap [] q = Ret q"
| "post_lines cap ((s, sms_pdu) # ls) q = obind (at_event_handler s) (\<lambda>m. post_lines cap ls (pipe_write cap m q))"

section \<open>The loop\<close>

text \<open>
  The context, the locals of the loop, the pipe, how many of the calls of the handler
  are already in the pipe, and how often the loop slept.
\<close>

record modem_run =
  m_ctx :: modem_ctx
  m_state :: modem_state
  m_event :: int
  m_msg :: radio_hal_msg_buffer
  m_pipe :: "radio_hal_msg_buffer list"
  m_heard :: nat
  m_sleeps :: nat

text \<open>The handler has been called for all that the channel has logged.\<close>

definition hear :: "nat \<Rightarrow> modem_run \<Rightarrow> modem_run outcome" where
  "hear cap r = (let log = unsol_log (at (m_ctx r)) in
     obind (post_lines cap (drop (m_heard r) log) (m_pipe r)) (\<lambda>q. Ret (r\<lparr>m_pipe := q, m_heard := length log\<rparr>)))"

text \<open>
  What happens while the loop waits in \<open>read\<close>: the reader thread does the actions, then there is a
  message, or there is none and \<open>read\<close> goes on waiting; or \<open>read\<close> fails and leaves the buffer.
\<close>

datatype pipe_read = Hears "reader_ev list" | ReadFails

fun reader_runs :: "reader_ev list \<Rightarrow> at_chan \<Rightarrow> at_chan outcome" where
  "reader_runs [] st = Ret st"
| "reader_runs (e # es) st = obind (reader_step e st) (reader_runs es)"

definition pipe_reads :: "nat \<Rightarrow> pipe_read \<Rightarrow> modem_run \<Rightarrow> modem_run outcome" where
  "pipe_reads cap i r = (case i of
       Hears es \<Rightarrow> obind (reader_runs es (at (m_ctx r))) (\<lambda>st.
         obind (hear cap (r\<lparr>m_ctx := (m_ctx r)\<lparr>at := st\<rparr>\<rparr>)) (\<lambda>r1. case m_pipe r1 of
           [] \<Rightarrow> Blocked
         | m # q \<Rightarrow> Ret (r1\<lparr>m_pipe := q, m_msg := m, m_event := event m\<rparr>)))
     | ReadFails \<Rightarrow> Ret (r\<lparr>m_event := event (m_msg r)\<rparr>))"

text \<open>The two handlers of the table.\<close>

definition call_handler :: "nat \<Rightarrow> modem_handler \<Rightarrow> modem_run \<Rightarrow> modem_run outcome" where
  "call_handler cap h r = (case h of
       init_handler \<Rightarrow> obind (modem_hal_connect (m_ctx r)) (\<lambda>(ret, w). obind (hear cap (r\<lparr>m_ctx := w\<rparr>)) (\<lambda>r1.
         if ret \<noteq> 0 then Ret (r1\<lparr>m_sleeps := Suc (m_sleeps r1), m_state := MODEM_INIT_STATE\<rparr>)
         else Ret (r1\<lparr>m_state := MODEM_IF_UP_STATE\<rparr>)))
     | registration_handler \<Rightarrow> Ret (r\<lparr>m_state := MODEM_IF_UP_STATE\<rparr>))"

definition modem_events_turn :: "nat \<Rightarrow> pipe_read \<Rightarrow> modem_run \<Rightarrow> modem_run outcome" where
  "modem_events_turn cap i r =
     obind (if m_state r \<noteq> MODEM_INIT_STATE then pipe_reads cap i r else Ret r) (\<lambda>r1.
     if m_state r1 < MODEM_LAST_STATE \<and> m_event r1 < MODEM_LAST_EVENT
     then (case sm_search modem_sStateMachine (m_state r1) (m_event r1) of
         Some h \<Rightarrow> call_handler cap h r1
       | None \<Rightarrow> Ret r1)
     else Ret r1)"

fun modem_events_turns :: "nat \<Rightarrow> pipe_read list \<Rightarrow> modem_run \<Rightarrow> modem_run outcome" where
  "modem_events_turns cap [] r = Ret r"
| "modem_events_turns cap (i # is) r = obind (modem_events_turn cap i r) (modem_events_turns cap is)"

text \<open>The query before the loop; its result is only reported.\<close>

definition modem_events_start :: "nat \<Rightarrow> modem_ctx \<Rightarrow> modem_run outcome" where
  "modem_events_start cap w = obind (at_send_command False (''AT+CGREG?'' @ [LF]) False (at w)) (\<lambda>(_, _, st).
     hear cap \<lparr>m_ctx = w\<lparr>at := st\<rparr>, m_state = MODEM_INIT_STATE, m_event = MODEM_STARTUP_EVENT, m_msg = zero_msg,
       m_pipe = [], m_heard = 0, m_sleeps = 0\<rparr>)"

text \<open>The loop has no exit: its first turns, one for each element of the list.\<close>

definition modem_events :: "nat \<Rightarrow> pipe_read list \<Rightarrow> modem_ctx \<Rightarrow> modem_run outcome" where
  "modem_events cap is w = obind (modem_events_start cap w) (modem_events_turns cap is)"

section \<open>Refinement\<close>

definition abs_loop :: "modem_run \<Rightarrow> modem_loop" where
  "abs_loop r = \<lparr>state = m_state r, NewEvent = m_event r, msg_event = event (m_msg r)\<rparr>"

lemma hear_frame: "hear cap r = Ret r' \<Longrightarrow> abs_loop r' = abs_loop r"
  by (auto simp: hear_def Let_def abs_loop_def obind_eq_Ret)

lemma pipe_reads_abs:
  assumes "pipe_reads cap i r = Ret r1"
  shows "\<exists>p. abs_loop r1 = (let e = (case p of Some e \<Rightarrow> e | None \<Rightarrow> msg_event (abs_loop r))
      in (abs_loop r)\<lparr>msg_event := e, NewEvent := e\<rparr>)"
proof (cases i)
  case (Hears es)
  obtain st r0 where h: "hear cap (r\<lparr>m_ctx := (m_ctx r)\<lparr>at := st\<rparr>\<rparr>) = Ret r0"
    and k: "(case m_pipe r0 of [] \<Rightarrow> Blocked | m # q \<Rightarrow> Ret (r0\<lparr>m_pipe := q, m_msg := m, m_event := event m\<rparr>)) = Ret r1"
    using assms [unfolded Hears pipe_reads_def pipe_read.case obind_eq_Ret] by blast
  from k obtain m q where "r1 = r0\<lparr>m_pipe := q, m_msg := m, m_event := event m\<rparr>" by (cases "m_pipe r0") auto
  with hear_frame [OF h] show ?thesis by (intro exI [of _ "Some (event m)"]) (simp add: abs_loop_def Let_def)
next
  case ReadFails
  with assms show ?thesis by (intro exI [of _ None]) (auto simp: pipe_reads_def abs_loop_def Let_def)
qed

lemma call_handler_abs:
  assumes "call_handler cap h r = Ret r1"
  shows "\<exists>ok. abs_loop r1 = (abs_loop r)\<lparr>state := run_handler h ok\<rparr>"
proof (cases h)
  case init_handler
  obtain ret w where c: "modem_hal_connect (m_ctx r) = Ret (ret, w)"
    using assms by (auto simp: init_handler call_handler_def obind_eq_Ret)
  then obtain r0 where h: "hear cap (r\<lparr>m_ctx := w\<rparr>) = Ret r0"
    using assms by (auto simp: init_handler call_handler_def obind_eq_Ret)
  have k: "r1 = (if ret \<noteq> 0 then r0\<lparr>m_sleeps := Suc (m_sleeps r0), m_state := MODEM_INIT_STATE\<rparr>
           else r0\<lparr>m_state := MODEM_IF_UP_STATE\<rparr>)"
    using assms by (simp add: init_handler call_handler_def c h split: if_splits)
  from k hear_frame [OF h] init_handler show ?thesis by (intro exI [of _ "ret = 0"]) (auto simp: abs_loop_def run_handler_def)
next
  case registration_handler
  with assms show ?thesis by (auto simp: call_handler_def abs_loop_def run_handler_def)
qed

lemma turn_refines:
  assumes "modem_events_turn cap i r = Ret r'"
  shows "\<exists>t. abs_loop r' = modem_loop_turn t (abs_loop r)"
proof -
  from assms obtain r1 where r1: "(if m_state r \<noteq> MODEM_INIT_STATE then pipe_reads cap i r else Ret r) = Ret r1"
    and k: "(if m_state r1 < MODEM_LAST_STATE \<and> m_event r1 < MODEM_LAST_EVENT
     then (case sm_search modem_sStateMachine (m_state r1) (m_event r1) of
         Some h \<Rightarrow> call_handler cap h r1 | None \<Rightarrow> Ret r1) else Ret r1) = Ret r'"
    unfolding modem_events_turn_def obind_eq_Ret by blast
  have st: "m_state x = state (abs_loop x)" "m_event x = NewEvent (abs_loop x)" for x by (simp_all add: abs_loop_def)
  obtain p where p: "abs_loop r1 = (if state (abs_loop r) \<noteq> MODEM_INIT_STATE
      then (let e = (case p of Some e \<Rightarrow> e | None \<Rightarrow> msg_event (abs_loop r)) in (abs_loop r)\<lparr>msg_event := e, NewEvent := e\<rparr>)
      else abs_loop r)"
  proof (cases "m_state r = MODEM_INIT_STATE")
    case True
    with r1 that show ?thesis by (simp add: st)
  next
    case False
    with r1 have "pipe_reads cap i r = Ret r1" by simp
    from pipe_reads_abs [OF this] False that show ?thesis unfolding st by auto
  qed
  have "\<exists>ok. abs_loop r' = (if state (abs_loop r1) < MODEM_LAST_STATE \<and> NewEvent (abs_loop r1) < MODEM_LAST_EVENT
      then (case sm_search modem_sStateMachine (state (abs_loop r1)) (NewEvent (abs_loop r1)) of
          Some h \<Rightarrow> (abs_loop r1)\<lparr>state := run_handler h ok\<rparr> | None \<Rightarrow> abs_loop r1) else abs_loop r1)"
  proof (cases "m_state r1 < MODEM_LAST_STATE \<and> m_event r1 < MODEM_LAST_EVENT")
    case True
    with k show ?thesis
      using call_handler_abs [of cap _ r1 r'] by (cases "sm_search modem_sStateMachine (m_state r1) (m_event r1)") (simp_all add: st)
  next
    case False
    with k have "r' = r1" by (simp split: if_splits)
    with False show ?thesis unfolding st by (simp only: if_False) simp
  qed
  then obtain ok where ok: "abs_loop r' = (if state (abs_loop r1) < MODEM_LAST_STATE \<and> NewEvent (abs_loop r1) < MODEM_LAST_EVENT
      then (case sm_search modem_sStateMachine (state (abs_loop r1)) (NewEvent (abs_loop r1)) of
          Some h \<Rightarrow> (abs_loop r1)\<lparr>state := run_handler h ok\<rparr> | None \<Rightarrow> abs_loop r1) else abs_loop r1)" by blast
  have "abs_loop r' = modem_loop_turn \<lparr>connect_ok = ok, pipe_event = p\<rparr> (abs_loop r)"
    unfolding modem_loop_turn_def Let_def modem_turn.select_convs p [unfolded Let_def, symmetric] by (rule ok)
  then show ?thesis by blast
qed

lemma turns_refine:
  "modem_events_turns cap is r = Ret r' \<Longrightarrow> \<exists>ts. length ts = length is \<and> abs_loop r' = fold modem_loop_turn ts (abs_loop r)"
proof (induction "is" arbitrary: r)
  case (Cons i "is")
  then obtain r1 where r1: "modem_events_turn cap i r = Ret r1" "modem_events_turns cap is r1 = Ret r'"
    by (auto simp: obind_eq_Ret)
  obtain t ts where "abs_loop r1 = modem_loop_turn t (abs_loop r)" "length ts = length is"
    "abs_loop r' = fold modem_loop_turn ts (abs_loop r1)"
    using turn_refines [OF r1(1)] Cons.IH [OF r1(2)] by blast
  then show ?case by (intro exI [of _ "t # ts"]) simp
qed simp

text \<open>What the loop does is what its specification does, whatever the modem answers.\<close>

lemma modem_events_refines:
  assumes "modem_events cap is w = Ret r"
  shows "\<exists>ts. length ts = length is \<and> abs_loop r = modem_loop_run ts"
proof -
  from assms obtain r0 where r0: "modem_events_start cap w = Ret r0" "modem_events_turns cap is r0 = Ret r"
    by (auto simp: modem_events_def obind_eq_Ret)
  have "abs_loop r0 = modem_loop_start"
    using r0(1) by (auto simp: modem_events_start_def obind_eq_Ret abs_loop_def modem_loop_start_def zero_msg_def dest!: hear_frame)
  with turns_refine [OF r0(2)] show ?thesis by (simp add: modem_loop_run_def)
qed

section \<open>From the bytes to the messages\<close>




lemma hear_keeps: "hear cap r = Ret r' \<Longrightarrow> m_state r' = m_state r"
  using hear_frame [of cap r r'] by (simp add: abs_loop_def)







end
