(* ===== verification/RadioMgr.thy ===== *)
theory RadioMgr
  imports WifiEvents WifiOpen WifiAttach ModemLoop
begin

text \<open>
  The radio manager: src/src/common/radio_hal_common.cpp, the option loop and the threads of
  src/src/common/radio_mgmr.cpp, and the message queues of src/src/common/radio_hal_msg.cpp.
\<close>

section \<open>Attaching a radio by its type\<close>

datatype hal_ctx = WifiCtx wifi_res | ModemCtx "bool list"

text \<open>The world of the manager: what allocations, files, the serial device and \<open>pthread_create\<close> do,
  and the contexts as the two HALs find them. The modem configuration comes from \<open>malloc\<close> as
  \<open>e_modem_junk\<close>.\<close>

record mgr_env =
  e_attach :: attach_env
  e_wifi :: wifi_ctx
  e_modem_alloc :: "bool \<times> bool"
  e_modem_junk :: modem_config
  e_modem :: modem_ctx
  e_serial :: "string \<Rightarrow> int"
  e_reader_rc :: int
  e_files :: "string \<Rightarrow> yaml_token list option"
  e_thread_ok :: bool

definition radio_hal_attach :: "radio_type \<Rightarrow> mgr_env \<Rightarrow> hal_ctx option outcome" where
  "radio_hal_attach type env = (case type of
       RADIO_WIFI \<Rightarrow> obind (wifi_hal_attach (e_attach env)) (\<lambda>(ok, r). Ret (if ok then Some (WifiCtx r) else None))
     | RADIO_MODEM \<Rightarrow> Ret (map_option ModemCtx (case e_modem_alloc env of (c, s) \<Rightarrow> modem_hal_attach c s))
     | _ \<Rightarrow> Ret None)"

text \<open>A context of the other kind does not reach the switch: the manager detaches what it attached.\<close>

definition radio_hal_dettach :: "hal_ctx \<Rightarrow> radio_type \<Rightarrow> int outcome" where
  "radio_hal_dettach ctx type = (case type of
       RADIO_WIFI \<Rightarrow> (case ctx of WifiCtx r \<Rightarrow> obind (wifi_hal_dettach r) (\<lambda>(err, _). Ret err) | ModemCtx _ \<Rightarrow> Fault OutOfBounds)
     | RADIO_MODEM \<Rightarrow> (case ctx of ModemCtx c \<Rightarrow> modem_hal_detach c | WifiCtx _ \<Rightarrow> Fault OutOfBounds)
     | _ \<Rightarrow> Ret 0)"

section \<open>Options\<close>

datatype hal_opt = OptWifi string | OptBt string | OptZigbee string | OptModem string | OptHelp | OptOther

datatype hal_thread = WifiThread wifi_ctx | ModemThread modem_ctx

definition EVENT_THREAD_AMOUNT :: nat where "EVENT_THREAD_AMOUNT = 5"

text \<open>\<open>pthread_create\<close> reports an error with a positive number, which is not taken for one: the
  element of \<open>s_event_reader\<close> then stays zero.\<close>

definition add_thread :: "mgr_env \<Rightarrow> hal_thread \<Rightarrow> hal_thread option list \<Rightarrow> hal_thread option list" where
  "add_thread env t ts = (if length ts < EVENT_THREAD_AMOUNT then ts @ [if e_thread_ok env then Some t else None] else ts)"

text \<open>The result is what \<open>main\<close> returns, if it does, and the threads.\<close>

type_synonym opt_result = "(int option \<times> hal_thread option list) outcome"

definition wifi_opt :: "mgr_env \<Rightarrow> string \<Rightarrow> hal_thread option list \<Rightarrow> opt_result" where
  "wifi_opt env files ts = obind (radio_hal_attach RADIO_WIFI env) (\<lambda>ctx.
     if ctx = None then Ret (Some (-1), ts)
     else obind (radio_hal_yaml_config (e_files env) files RADIO_WIFI
         \<lparr>wifi_confs = replicate WIFI_RADIO_MAX wifi_config_zero, modem_confs = []\<rparr>) (\<lambda>(ret, t).
       if ret < 0 then Ret (Some (-1), ts)
       else obind (wifi_hal_open ((e_wifi env)\<lparr>wifi_configs := wifi_confs t\<rparr>)) (\<lambda>(ret, w).
         if ret < 0 then Ret (Some (-1), ts) else Ret (None, add_thread env (WifiThread w) ts))))"

text \<open>The strings of the modem configuration; one that fills its array runs into the next.\<close>

definition with_config :: "modem_config \<Rightarrow> modem_ctx \<Rightarrow> modem_ctx" where
  "with_config c m = m\<lparr>apn := arr_str (mc_apn c @ mc_pin c @ mc_at_serial c), pin := arr_str (mc_pin c @ mc_at_serial c)\<rparr>"

definition modem_opt :: "mgr_env \<Rightarrow> string \<Rightarrow> hal_thread option list \<Rightarrow> opt_result" where
  "modem_opt env files ts = obind (radio_hal_attach RADIO_MODEM env) (\<lambda>ctx.
     if ctx = None then Ret (Some (-1), ts)
     else obind (radio_hal_yaml_config (e_files env) files RADIO_MODEM
         \<lparr>wifi_confs = [], modem_confs = [e_modem_junk env]\<rparr>) (\<lambda>(ret, t).
       if ret < 0 then Ret (Some (-1), ts)
       else let c = modem_confs t ! 0 in
         obind (modem_hal_open (e_serial env (arr_str (mc_at_serial c))) (e_reader_rc env) (with_config c (e_modem env))) (\<lambda>(ret, m).
         if ret < 0 then Ret (Some (-1), ts) else Ret (None, add_thread env (ModemThread m) ts))))"

text \<open>Bluetooth and 15.4: a context that is NULL is only reported before its \<open>config\<close> is stored to. The
  result of the configuration is not looked at, and nothing is opened.\<close>

definition null_opt :: "radio_type \<Rightarrow> mgr_env \<Rightarrow> string \<Rightarrow> hal_thread option list \<Rightarrow> opt_result" where
  "null_opt type env files ts = obind (radio_hal_attach type env) (\<lambda>ctx.
     if ctx = None then Fault NullDeref
     else obind (radio_hal_yaml_config (e_files env) files type \<lparr>wifi_confs = [], modem_confs = []\<rparr>) (\<lambda>_. Ret (None, ts)))"

definition opt_step :: "mgr_env \<Rightarrow> hal_opt \<Rightarrow> hal_thread option list \<Rightarrow> opt_result" where
  "opt_step env opt ts = (case opt of
       OptWifi files \<Rightarrow> wifi_opt env files ts
     | OptBt files \<Rightarrow> null_opt RADIO_BT env files ts
     | OptZigbee files \<Rightarrow> null_opt RADIO_15_4 env files ts
     | OptModem files \<Rightarrow> modem_opt env files ts
     | OptHelp \<Rightarrow> Ret (Some 0, ts)
     | OptOther \<Rightarrow> Ret (Some 0, ts))"

text \<open>Behind the options the threads are joined; one that was never created is 0.\<close>

fun opt_loop :: "mgr_env \<Rightarrow> hal_opt list \<Rightarrow> hal_thread option list \<Rightarrow> (int \<times> hal_thread option list) outcome" where
  "opt_loop env [] ts = (if list_all (\<lambda>t. t \<noteq> None) ts then Ret (0, ts) else Fault NullDeref)"
| "opt_loop env (opt # opts) ts = obind (opt_step env opt ts) (\<lambda>(r, ts'). case r of
       Some ret \<Rightarrow> Ret (ret, ts') | None \<Rightarrow> opt_loop env opts ts')"

text \<open>\<open>argv[2]\<close> is printed first, as a string: with one argument it is the NULL that ends \<open>argv\<close>,
  without arguments it lies behind that.\<close>

definition radio_mgmr_main :: "mgr_env \<Rightarrow> nat \<Rightarrow> hal_opt list \<Rightarrow> (int \<times> hal_thread option list) outcome" where
  "radio_mgmr_main env argc opts =
     (if argc < 2 then Fault OutOfBounds else if argc = 2 then Fault NullDeref else opt_loop env opts [])"

definition wifi_event_loop :: "nat \<Rightarrow> mem \<Rightarrow> mem \<Rightarrow> wifi_ctx \<Rightarrow> wifi_ctx option outcome" where
  "wifi_event_loop n junk junk4 w = obind (wifi_events n junk junk4 w) (\<lambda>r. case r of
       None \<Rightarrow> Ret None | Some w' \<Rightarrow> obind (wifi_hal_close w') (\<lambda>(_, w''). Ret (Some w'')))"

text \<open>The loop of the modem has no exit: its thread never gets to the \<open>close\<close> behind it.\<close>

definition modem_event_loop :: "nat \<Rightarrow> pipe_read list \<Rightarrow> modem_ctx \<Rightarrow> modem_run outcome" where
  "modem_event_loop cap is w = modem_events cap is w"

section \<open>Message queues\<close>

definition msg_keys :: "int list" where "msg_keys = [10001, 10002, 10003, 10004]"

definition msg_type :: "radio_type \<Rightarrow> 64 word" where
  "msg_type radio = 0x80000000 + of_nat (radio_type_code radio)"

text \<open>The system calls are arguments; \<open>RADIO_MAX\<close> is behind the keys.\<close>

definition IPC_CREAT :: int where "IPC_CREAT = 512"

definition radio_hal_msg_queue_init :: "(int \<Rightarrow> int \<Rightarrow> int) \<Rightarrow> radio_type \<Rightarrow> int outcome" where
  "radio_hal_msg_queue_init msgget radio = (if radio_type_code radio < length msg_keys
     then Ret (msgget (msg_keys ! radio_type_code radio) (438 + IPC_CREAT)) else Fault OutOfBounds)"

definition radio_hal_msg_queue_destroy :: "(int \<Rightarrow> int) \<Rightarrow> radio_type \<Rightarrow> int \<Rightarrow> int" where
  "radio_hal_msg_queue_destroy msgctl_rmid radio msg_id = msgctl_rmid msg_id"

text \<open>What \<open>msgsnd(msg_id, &msg, ..)\<close> queues starts at the pointer \<open>msg\<close> itself, not at the message:
  its type is the address, and behind it come the bytes of the stack. \<open>err\<close> is the error of the
  system call, 0 for none.\<close>

definition radio_hal_msg_send :: "int \<Rightarrow> 64 word \<Rightarrow> radio_hal_msg_buffer \<Rightarrow> radio_hal_msg_buffer \<Rightarrow> radio_type
    \<Rightarrow> radio_hal_msg_buffer list \<Rightarrow> int \<times> radio_hal_msg_buffer \<times> radio_hal_msg_buffer list" where
  "radio_hal_msg_send err addr stack msg radio q = (let m = msg\<lparr>mtype := msg_type radio\<rparr> in
     if err \<noteq> 0 then (err, m, q) else (0, m, q @ [stack\<lparr>mtype := addr\<rparr>]))"

text \<open>The first message of the type; none: \<open>msgrcv\<close> waits.\<close>

fun take_message :: "radio_type \<Rightarrow> radio_hal_msg_buffer list \<Rightarrow> (radio_hal_msg_buffer \<times> radio_hal_msg_buffer list) outcome" where
  "take_message radio [] = Blocked"
| "take_message radio (m # q) = (if mtype m = msg_type radio then Ret (m, q)
     else obind (take_message radio q) (\<lambda>(x, q'). Ret (x, m # q')))"

definition ENOMSG :: int where "ENOMSG = 42"

definition radio_hal_msg_recv :: "int \<Rightarrow> radio_hal_msg_buffer \<Rightarrow> radio_type \<Rightarrow> radio_hal_msg_buffer list
    \<Rightarrow> (int \<times> radio_hal_msg_buffer \<times> radio_hal_msg_buffer list) outcome" where
  "radio_hal_msg_recv err msg radio q = (if err = ENOMSG then Ret (0, msg, q) else if err \<noteq> 0 then Ret (err, msg, q)
     else obind (take_message radio q) (\<lambda>(m, q'). Ret (0, m, q')))"

section \<open>Lemmas\<close>

lemma take_waits: "\<forall>m \<in> set q. mtype m \<noteq> msg_type radio \<Longrightarrow> take_message radio q = Blocked"
  by (induction q) auto

text \<open>A message that was sent is not received: the receiver goes on waiting.\<close>

lemma sent_not_received:
  assumes "\<forall>m \<in> set q. mtype m \<noteq> msg_type radio" "addr \<noteq> msg_type radio"
    and "radio_hal_msg_send err addr stack msg radio q = (ret, m, q')"
  shows "radio_hal_msg_recv 0 buf radio q' = Blocked"
proof -
  have "\<forall>m \<in> set q'. mtype m \<noteq> msg_type radio"
    using assms by (auto simp: radio_hal_msg_send_def Let_def split: if_splits)
  then show ?thesis by (simp add: radio_hal_msg_recv_def take_waits ENOMSG_def)
qed

text \<open>The HAL is attached.\<close>

definition attach_works :: "attach_env \<Rightarrow> bool" where
  "attach_works a = (reaches_cbs a \<and> a_if_cb a \<and> a_link_info_cb a \<and> a_set_cb a)"

lemma attach_ok: "attach_works env \<Longrightarrow> \<exists>r. wifi_hal_attach env = Ret (True, r)"
  by (simp add: attach_works_def wifi_hal_attach_def reaches_cbs_def wifi_hal_nl80211_attach_def
      wifi_hal_register_nl_cb_def)

text \<open>Files that can be read, one mapping each, and the HAL with what they say.\<close>

definition wifi_files :: "mgr_env \<Rightarrow> (string \<Rightarrow> (string \<times> string) list) \<Rightarrow> string list \<Rightarrow> bool" where
  "wifi_files env kvs fl = (fl \<noteq> [] \<and> list_all file_name_ok fl
     \<and> list_all (\<lambda>f. e_files env f = Some (mapping_tokens (kvs f)) \<and> all_safe (kvs f)) fl)"

definition wifi_loaded :: "mgr_env \<Rightarrow> (string \<Rightarrow> (string \<times> string) list) \<Rightarrow> string list \<Rightarrow> wifi_ctx" where
  "wifi_loaded env kvs fl = (e_wifi env)\<lparr>wifi_configs :=
     map (\<lambda>j. if j < length fl then load_wifi (kvs (fl ! j)) wifi_config_zero else wifi_config_zero) [0..<WIFI_RADIO_MAX]\<rparr>"

lemma file_args_not_Nil: "fl \<noteq> [] \<Longrightarrow> list_all file_name_ok fl \<Longrightarrow> file_args fl \<noteq> []"
  by (cases fl rule: file_args.cases) (auto simp: file_name_ok_def)

lemma wifi_opt_loaded:
  assumes "attach_works (e_attach env)" "wifi_files env kvs fl" "wifi_hal_open (wifi_loaded env kvs fl) = Ret (ret, w)"
  shows "wifi_opt env (file_args fl) ts =
    (if ret < 0 then Ret (Some (-1), ts) else Ret (None, add_thread env (WifiThread w) ts))"
proof -
  let ?t = "\<lparr>wifi_confs = replicate WIFI_RADIO_MAX wifi_config_zero, modem_confs = []\<rparr>"
  note fl = assms(2) [unfolded wifi_files_def]
  obtain r where a: "wifi_hal_attach (e_attach env) = Ret (True, r)" using attach_ok [OF assms(1)] by blast
  have "yaml_files_loop (e_files env) RADIO_WIFI 0 fl (False, []) ?t = Ret (0, load_files kvs 0 fl ?t)"
    using fl by (intro files_mapping) (auto simp: list_all_iff)
  then have y: "radio_hal_yaml_config (e_files env) (file_args fl) RADIO_WIFI ?t = Ret (0, load_files kvs 0 fl ?t)"
    using fl file_args_not_Nil strtok_file_args by (simp add: radio_hal_yaml_config_def)
  have "wifi_confs (load_files kvs 0 fl ?t)
      = map (\<lambda>j. if j < length fl then load_wifi (kvs (fl ! j)) wifi_config_zero else wifi_config_zero) [0..<WIFI_RADIO_MAX]"
    by (intro nth_equalityI) (auto simp: load_files_nth)
  then show ?thesis using a y assms(3) by (simp add: wifi_opt_def radio_hal_attach_def wifi_loaded_def)
qed

lemma wifi_opt_no_file:
  assumes "attach_works (e_attach env)" "list_all file_name_ok (f # fl)" "e_files env f = None"
  shows "wifi_opt env (file_args (f # fl)) ts = Ret (Some (-1), ts)"
proof -
  obtain r where a: "wifi_hal_attach (e_attach env) = Ret (True, r)" using attach_ok [OF assms(1)] by blast
  show ?thesis using a assms(2,3) file_args_not_Nil [of "f # fl"] strtok_file_args [OF assms(2)]
    by (simp add: wifi_opt_def radio_hal_attach_def radio_hal_yaml_config_def)
qed

lemma wifi_thread_started:
  assumes "attach_works (e_attach env)" "wifi_files env kvs fl" "wifi_hal_open (wifi_loaded env kvs fl) = Ret (ret, w)"
    and "3 \<le> argc"
  shows "radio_mgmr_main env argc (OptWifi (file_args fl) # opts) = (if ret < 0 then Ret (-1, [])
    else opt_loop env opts [if e_thread_ok env then Some (WifiThread w) else None])"
  using wifi_opt_loaded [OF assms(1-3)] assms(4)
  by (simp add: radio_mgmr_main_def opt_step_def add_thread_def EVENT_THREAD_AMOUNT_def)

text \<open>
  C40: the manager started for WiFi loads one file per radio into fresh configurations, opens the HAL
  with them, starts its thread and goes on with the other options; it returns -1, and looks at no
  further option, when the HAL cannot be attached, when the first file cannot be read, or when the
  HAL cannot be opened. Without other options it joins the thread, one that was not created
  included. The Bluetooth and 15.4 options use the context that was not attached. Both need at least
  two arguments: with one the manager prints a NULL string, whatever the option, and without
  arguments it reads behind the argument vector.
\<close>

theorem manager_starts:
  assumes "3 \<le> argc"
  shows "(attach_works (e_attach env) \<and> wifi_files env kvs fl \<and> wifi_hal_open (wifi_loaded env kvs fl) = Ret (ret, w) \<longrightarrow>
        radio_mgmr_main env argc (OptWifi (file_args fl) # opts) = (if ret < 0 then Ret (-1, [])
          else opt_loop env opts [if e_thread_ok env then Some (WifiThread w) else None])
      \<and> radio_mgmr_main env argc [OptWifi (file_args fl)] = (if ret < 0 then Ret (-1, [])
          else if e_thread_ok env then Ret (0, [Some (WifiThread w)]) else Fault NullDeref))
    \<and> (attach_works (e_attach env) \<and> list_all file_name_ok (f # fl) \<and> e_files env f = None \<longrightarrow>
        radio_mgmr_main env argc (OptWifi (file_args (f # fl)) # opts) = Ret (-1, []))
    \<and> (wifi_hal_attach (e_attach env) = Ret (False, r) \<longrightarrow> radio_mgmr_main env argc (OptWifi files # opts) = Ret (-1, []))
    \<and> radio_mgmr_main env argc (OptBt files # opts) = Fault NullDeref
    \<and> radio_mgmr_main env argc (OptZigbee files # opts) = Fault NullDeref
    \<and> radio_mgmr_main env 2 opts = Fault NullDeref \<and> radio_mgmr_main env 1 opts = Fault OutOfBounds"
proof -
  note run = radio_mgmr_main_def opt_step_def
  have "radio_mgmr_main env argc (OptWifi (file_args (f # fl)) # opts) = Ret (-1, [])"
    if "attach_works (e_attach env) \<and> list_all file_name_ok (f # fl) \<and> e_files env f = None"
    using wifi_opt_no_file [of env f fl "[]"] that assms by (simp add: run)
  moreover have "radio_mgmr_main env argc (OptWifi files # opts) = Ret (-1, [])"
    if "wifi_hal_attach (e_attach env) = Ret (False, r)"
    using that assms by (simp add: run wifi_opt_def radio_hal_attach_def)
  moreover have "radio_mgmr_main env argc (OptBt files # opts) = Fault NullDeref"
    "radio_mgmr_main env argc (OptZigbee files # opts) = Fault NullDeref"
    "radio_mgmr_main env 2 opts = Fault NullDeref" "radio_mgmr_main env 1 opts = Fault OutOfBounds"
    using assms by (simp_all add: run null_opt_def radio_hal_attach_def)
  ultimately show ?thesis using wifi_thread_started [OF _ _ _ assms, of env kvs fl ret w] by simp
qed

definition env0 :: mgr_env where
  "env0 = \<lparr>e_attach = \<lparr>a_ctx = True, a_sc = True, a_sock = True, a_connect = 0, a_resolve = 28, a_if_cb = True,
       a_link_info_cb = True, a_set_cb = True\<rparr>,
     e_wifi = wifi_ctx0 [NlFinish], e_modem_alloc = (True, True), e_modem_junk = \<lparr>mc_apn = [], mc_pin = [], mc_at_serial = []\<rparr>,
     e_modem = modem_ctx0 [] [], e_serial = (\<lambda>_. 3), e_reader_rc = 0,
     e_files = (\<lambda>_. Some (mapping_tokens [(''mode'', ''ap'')])), e_thread_ok = True\<rparr>"

text \<open>One file: the thread is started, or cannot be created and is joined all the same; no file; no memory.\<close>

theorem manager_starts_witness:
  "(\<exists>w. radio_mgmr_main env0 3 [OptWifi ''a.yaml''] = Ret (0, [Some (WifiThread w)])
      \<and> wifi_configs w = [load_wifi [(''mode'', ''ap'')] wifi_config_zero, wifi_config_zero])
   \<and> radio_mgmr_main (env0\<lparr>e_thread_ok := False\<rparr>) 3 [OptWifi ''a.yaml''] = Fault NullDeref
   \<and> radio_mgmr_main (env0\<lparr>e_files := \<lambda>_. None\<rparr>) 3 [OptWifi ''a.yaml''] = Ret (-1, [])
   \<and> radio_mgmr_main (env0\<lparr>e_attach := (e_attach env0)\<lparr>a_ctx := False\<rparr>\<rparr>) 3 [OptWifi ''a.yaml'', OptHelp] = Ret (-1, [])"
proof -
  let ?kvs = "\<lambda>_. [(''mode'', ''ap'')]"
  have l: "wifi_loaded (env0\<lparr>e_thread_ok := b\<rparr>) ?kvs [''a.yaml''] = wifi_loaded env0 ?kvs [''a.yaml'']" for b
    by (simp add: wifi_loaded_def)
  have f: "wifi_files (env0\<lparr>e_thread_ok := b\<rparr>) ?kvs [''a.yaml'']" for b
    by (simp add: wifi_files_def env0_def file_name_ok_def all_safe_def safe_char_def)
  have c: "wifi_configs (wifi_loaded env0 ?kvs [''a.yaml'']) = [load_wifi [(''mode'', ''ap'')] wifi_config_zero, wifi_config_zero]"
    by (simp add: wifi_loaded_def WIFI_RADIO_MAX_def upt_rec)
  obtain w where w: "wifi_hal_open (wifi_loaded env0 ?kvs [''a.yaml'']) = Ret (0, w)"
    "wifi_configs w = wifi_configs (wifi_loaded env0 ?kvs [''a.yaml''])"
    by (simp add: wifi_loaded_def env0_def wifi_hal_open_def wifi_hal_get_interface_def nl_send_def wifi_ctx0_def
        wifi_hal_start_wpa_dummy_config_def create_default_wpa_config_def)
  have a: "attach_works (e_attach env0)" by (simp add: attach_works_def env0_def reaches_cbs_def)
  note starts = manager_starts [of 3, where kvs = ?kvs]
  have "radio_mgmr_main (env0\<lparr>e_thread_ok := b\<rparr>) 3 [OptWifi ''a.yaml''] =
      (if b then Ret (0, [Some (WifiThread w)]) else Fault NullDeref)" for b
    using starts [of "env0\<lparr>e_thread_ok := b\<rparr>" "[''a.yaml'']" 0 w] a f [of b] l [of b] w(1) by simp
  from this [of True] this [of False] have "radio_mgmr_main env0 3 [OptWifi ''a.yaml''] = Ret (0, [Some (WifiThread w)])"
    "radio_mgmr_main (env0\<lparr>e_thread_ok := False\<rparr>) 3 [OptWifi ''a.yaml''] = Fault NullDeref" by (simp_all add: env0_def)
  moreover have "radio_mgmr_main (env0\<lparr>e_files := \<lambda>_. None\<rparr>) 3 [OptWifi ''a.yaml''] = Ret (-1, [])"
    using starts [of "env0\<lparr>e_files := \<lambda>_. None\<rparr>" "[]" _ _ "[]" "''a.yaml''"] a by (simp add: file_name_ok_def)
  moreover have "radio_mgmr_main (env0\<lparr>e_attach := (e_attach env0)\<lparr>a_ctx := False\<rparr>\<rparr>) 3 [OptWifi ''a.yaml'', OptHelp] = Ret (-1, [])"
    using starts [of "env0\<lparr>e_attach := (e_attach env0)\<lparr>a_ctx := False\<rparr>\<rparr>" _ _ _ "[OptHelp]" _ no_res "''a.yaml''"]
    by (simp add: wifi_hal_attach_def)
  ultimately show ?thesis using w(2) c by (intro conjI exI [of _ w]) (simp_all only:)
qed

end
