(* ===== verification/ConfigFile.thy ===== *)
theory ConfigFile
  imports RadioYaml
begin

text \<open>
  What a configuration file of distinct keys sets: the fields of the structs of theory RadioYaml after
  the loader, and the strings that the HALs read from them.
\<close>

section \<open>A field after loading\<close>

lemma load_field:
  assumes "list_all (\<lambda>k. \<forall>v c. P (set_pair k v c) = (if k = key then upd v (P c) else P c)) keys"
    "list_all (\<lambda>k. temp_key_of k = k) keys" "distinct (map fst kvs)" "set (map fst kvs) \<subseteq> set keys"
  shows "P (load_pairs set_pair kvs c) = (case map_of kvs key of None \<Rightarrow> P c | Some v \<Rightarrow> upd v (P c))"
  using assms(3,4)
proof (induction kvs arbitrary: c)
  case (Cons p kvs)
  obtain k v where p: "p = (k, v)" by (cases p)
  have none: "map_of kvs k = None" using Cons.prems(1) p by (simp add: map_of_eq_None_iff)
  have "P (load_pairs set_pair kvs (set_pair k v c)) =
      (case map_of kvs key of None \<Rightarrow> P (set_pair k v c) | Some v' \<Rightarrow> upd v' (P (set_pair k v c)))"
    using Cons by simp
  moreover have "P (set_pair k v c) = (if k = key then upd v (P c) else P c)"
    using Cons.prems(2) p assms(1) by (simp add: list_all_iff)
  moreover have "temp_key_of k = k" using Cons.prems(2) assms(2) p by (auto simp: list_all_iff)
  ultimately show ?case using none p by (cases "k = key") (auto simp: load_pairs_simps split: option.split)
qed (simp add: load_pairs_simps)

lemma safe_value:
  assumes "all_safe kvs" "map_of kvs k = Some v"
  shows "NUL \<notin> set v"
  using map_of_SomeD [OF assms(2)] assms(1) by (fastforce simp: all_safe_def list_all_iff)

text \<open>One file of one radio.\<close>

lemma strtok_one_file: "file_name_ok f \<Longrightarrow> strtok_all f = [f]"
  using strtok_file_args [of "[f]"] by simp

section \<open>WiFi\<close>

definition config_keys :: "string list" where
  "config_keys = [''debug'', ''ssid'', ''key'', ''frequency'', ''api_version'', ''passphrase'', ''enc'', ''ap_mac'',
     ''country'', ''bw'', ''preamble'', ''distance'', ''tx_power'', ''mode'', ''type'', ''mesh_fwding'']"

lemma known_keys_fit: "list_all (\<lambda>k. temp_key_of k = k) config_keys"
  by (simp add: config_keys_def temp_key_of_def TEMP_KEY_SIZE_def)

lemma key_by_key:
  "list_all (\<lambda>k. \<forall>v c. wc_ssid (radio_hal_yaml_wifi_config k v c) = (if k = ''ssid'' then put_text 32 v (wc_ssid c) else wc_ssid c)) config_keys"
  "list_all (\<lambda>k. \<forall>v c. wc_freq (radio_hal_yaml_wifi_config k v c) = (if k = ''frequency'' then put_text 6 v (wc_freq c) else wc_freq c)) config_keys"
  "list_all (\<lambda>k. \<forall>v c. wc_key (radio_hal_yaml_wifi_config k v c) = (if k = ''key'' then put_text 64 v (wc_key c) else wc_key c)) config_keys"
  "list_all (\<lambda>k. \<forall>v c. wc_enc (radio_hal_yaml_wifi_config k v c) = (if k = ''enc'' then put_text 8 v (wc_enc c) else wc_enc c)) config_keys"
  "list_all (\<lambda>k. \<forall>v c. wc_mode (radio_hal_yaml_wifi_config k v c) = (if k = ''mode'' then put_text 5 v (wc_mode c) else wc_mode c)) config_keys"
  by (simp_all add: config_keys_def radio_hal_yaml_wifi_config_def starts_with_def)

lemma load_ok: "all_safe kvs \<Longrightarrow> wifi_config_ok c \<Longrightarrow> wifi_config_ok (load_wifi kvs c)"
  by (induction kvs arbitrary: c) (auto simp: all_safe_def wifi_set_ok)

text \<open>A field is read back when its value is shorter than its array.\<close>

lemma field_read:
  assumes "wifi_config_ok c" "NUL \<notin> set v" "v \<noteq> []"
  shows "wc_ssid c = put_text 32 v old \<Longrightarrow> length v < 32 \<Longrightarrow> ssid_str c = v"
    "wc_freq c = put_text 6 v old \<Longrightarrow> length v < 6 \<Longrightarrow> freq_str c = v"
    "wc_key c = put_text 64 v old \<Longrightarrow> length v < 64 \<Longrightarrow> key_str c = v"
    "wc_enc c = put_text 8 v old \<Longrightarrow> length v < 8 \<Longrightarrow> enc_str c = v"
    "wc_mode c = put_text 5 v old \<Longrightarrow> length v < 5 \<Longrightarrow> mode_str c = v"
proof -
  have len: "length (wc_key c) = 64" "length (wc_passphrase c) = 64" "length (wc_ssid c) = 32" "length (wc_enc c) = 8"
    "length (wc_ap_mac_addr c) = 18" "length (wc_country c) = 3"
    using assms(1) by (simp_all add: wifi_config_ok_def text_ok_def RADIO_MACADDR_SIZE_def)
  note run = put_text_run [OF assms(2,3), of _ old]
  show "wc_ssid c = put_text 32 v old \<Longrightarrow> length v < 32 \<Longrightarrow> ssid_str c = v"
    "wc_freq c = put_text 6 v old \<Longrightarrow> length v < 6 \<Longrightarrow> freq_str c = v"
    "wc_key c = put_text 64 v old \<Longrightarrow> length v < 64 \<Longrightarrow> key_str c = v"
    "wc_enc c = put_text 8 v old \<Longrightarrow> length v < 8 \<Longrightarrow> enc_str c = v"
    "wc_mode c = put_text 5 v old \<Longrightarrow> length v < 5 \<Longrightarrow> mode_str c = v"
    using len run by (simp_all add: ssid_str_def freq_str_def key_str_def enc_str_def mode_str_def field_from_def wifi_chars_def)
qed

text \<open>A file with each key once; a setting that fits its array.\<close>

definition wifi_file_ok :: "(string \<times> string) list \<Rightarrow> bool" where
  "wifi_file_ok kvs = (all_safe kvs \<and> distinct (map fst kvs) \<and> set (map fst kvs) \<subseteq> set config_keys)"

definition gives :: "(string \<times> string) list \<Rightarrow> string \<Rightarrow> nat \<Rightarrow> string \<Rightarrow> bool" where
  "gives kvs k n v = (map_of kvs k = Some v \<and> v \<noteq> [] \<and> length v < n)"

lemma file_fields:
  assumes "wifi_file_ok kvs"
  defines "cfg \<equiv> load_wifi kvs wifi_config_zero"
  shows "gives kvs ''ssid'' 32 v \<Longrightarrow> ssid_str cfg = v" "gives kvs ''frequency'' 6 v \<Longrightarrow> freq_str cfg = v"
    "gives kvs ''key'' 64 v \<Longrightarrow> key_str cfg = v" "gives kvs ''enc'' 8 v \<Longrightarrow> enc_str cfg = v"
    "gives kvs ''mode'' 5 v \<Longrightarrow> mode_str cfg = v"
proof -
  note f = assms(1) [unfolded wifi_file_ok_def, THEN conjunct1] assms(1) [unfolded wifi_file_ok_def, THEN conjunct2, THEN conjunct1]
    assms(1) [unfolded wifi_file_ok_def, THEN conjunct2, THEN conjunct2]
  have ok: "wifi_config_ok cfg" using load_ok [OF f(1)] by (simp add: cfg_def)
  note field = load_field [where set_pair = radio_hal_yaml_wifi_config and c = wifi_config_zero, OF _ known_keys_fit f(2,3),
    folded load_wifi_def, folded cfg_def]
  have read: "str cfg = v" if "gives kvs k n v"
    "P cfg = (case map_of kvs k of None \<Rightarrow> P wifi_config_zero | Some v \<Rightarrow> put_text n v (P wifi_config_zero))"
    "\<And>v. NUL \<notin> set v \<Longrightarrow> v \<noteq> [] \<Longrightarrow> P cfg = put_text n v (P wifi_config_zero) \<Longrightarrow> length v < n \<Longrightarrow> str cfg = v"
    for str :: "wifi_config \<Rightarrow> string" and P k n v
  proof (rule that(3))
    show "NUL \<notin> set v" using that(1) safe_value [OF f(1), of k v] by (simp add: gives_def)
  qed (use that(1,2) in \<open>simp_all add: gives_def\<close>)
  show "gives kvs ''ssid'' 32 v \<Longrightarrow> ssid_str cfg = v"
    by (rule read [where str = ssid_str and P = wc_ssid, OF _ field [of wc_ssid "''ssid''" "put_text 32", OF key_by_key(1)] field_read(1) [OF ok]])
  show "gives kvs ''frequency'' 6 v \<Longrightarrow> freq_str cfg = v"
    by (rule read [where str = freq_str and P = wc_freq, OF _ field [of wc_freq "''frequency''" "put_text 6", OF key_by_key(2)] field_read(2) [OF ok]])
  show "gives kvs ''key'' 64 v \<Longrightarrow> key_str cfg = v"
    by (rule read [where str = key_str and P = wc_key, OF _ field [of wc_key "''key''" "put_text 64", OF key_by_key(3)] field_read(3) [OF ok]])
  show "gives kvs ''enc'' 8 v \<Longrightarrow> enc_str cfg = v"
    by (rule read [where str = enc_str and P = wc_enc, OF _ field [of wc_enc "''enc''" "put_text 8", OF key_by_key(4)] field_read(4) [OF ok]])
  show "gives kvs ''mode'' 5 v \<Longrightarrow> mode_str cfg = v"
    by (rule read [where str = mode_str and P = wc_mode, OF _ field [of wc_mode "''mode''" "put_text 5", OF key_by_key(5)] field_read(5) [OF ok]])
qed

lemma one_file_loaded:
  assumes "fs f = Some (mapping_tokens kvs)" "file_name_ok f" "all_safe kvs"
  shows "radio_hal_yaml_config fs f RADIO_WIFI \<lparr>wifi_confs = [wifi_config_zero, wifi_config_zero], modem_confs = ms\<rparr>
    = Ret (0, \<lparr>wifi_confs = [load_wifi kvs wifi_config_zero, wifi_config_zero], modem_confs = ms\<rparr>)"
proof -
  let ?t = "\<lparr>wifi_confs = [wifi_config_zero, wifi_config_zero], modem_confs = ms\<rparr>"
  obtain l where "yaml_scan_loop RADIO_WIFI 0 (mapping_tokens kvs) (False, []) ?t = Ret (0, l, put_wifi 0 (load_wifi kvs) ?t)"
    using wifi_file.scan_mapping [of ?t kvs 0 "(False, [])"] assms(3) unfolding load_wifi_def by (auto simp: WIFI_RADIO_MAX_def)
  then show ?thesis using assms(1,2) strtok_one_file [OF assms(2)]
    by (simp add: radio_hal_yaml_config_def file_name_ok_def put_wifi_def WIFI_RADIO_MAX_def)
qed

section \<open>Modem\<close>

definition modem_keys :: "string list" where
  "modem_keys = [''apn'', ''pin'', ''at_serial'']"

definition modem_file_ok :: "(string \<times> string) list \<Rightarrow> bool" where
  "modem_file_ok kvs = (all_safe kvs \<and> distinct (map fst kvs) \<and> set (map fst kvs) \<subseteq> set modem_keys)"

lemma modem_key_by_key:
  "list_all (\<lambda>k. \<forall>v c. mc_apn (radio_hal_yaml_modem_config k v c) = (if k = ''apn'' then put_text 20 v (mc_apn c) else mc_apn c)) modem_keys"
  "list_all (\<lambda>k. \<forall>v c. mc_pin (radio_hal_yaml_modem_config k v c) = (if k = ''pin'' then put_text 5 v (mc_pin c) else mc_pin c)) modem_keys"
  "list_all (\<lambda>k. \<forall>v c. mc_at_serial (radio_hal_yaml_modem_config k v c) = (if k = ''at_serial'' then put_text 20 v (mc_at_serial c) else mc_at_serial c)) modem_keys"
  by (simp_all add: modem_keys_def radio_hal_yaml_modem_config_def starts_with_def)

text \<open>Whatever \<open>malloc\<close> left in the struct, the strings are those of the file.\<close>

lemma modem_fields:
  fixes junk :: modem_config
  assumes "modem_file_ok kvs" "gives kvs ''apn'' 20 a" "gives kvs ''pin'' 5 p" "gives kvs ''at_serial'' 20 d"
  defines "c \<equiv> load_modem kvs junk"
  shows "arr_str (mc_apn c @ r1) = a" "arr_str (mc_pin c @ r2) = p" "arr_str (mc_at_serial c @ r3) = d"
proof -
  have f: "all_safe kvs" "distinct (map fst kvs)" "set (map fst kvs) \<subseteq> set modem_keys" using assms(1) by (simp_all add: modem_file_ok_def)
  have fit: "list_all (\<lambda>k. temp_key_of k = k) modem_keys" by (simp add: modem_keys_def temp_key_of_def TEMP_KEY_SIZE_def)
  note field = load_field [where set_pair = radio_hal_yaml_modem_config, OF _ fit f(2,3), folded load_modem_def]
  have safe: "gives kvs k n v \<Longrightarrow> NUL \<notin> set v \<and> v \<noteq> [] \<and> length v \<le> n \<and> length v < n" for k n v
    using safe_value [OF f(1)] by (auto simp: gives_def)
  have "mc_apn c = put_text 20 a (mc_apn junk)" "mc_pin c = put_text 5 p (mc_pin junk)" "mc_at_serial c = put_text 20 d (mc_at_serial junk)"
    using field [of mc_apn "''apn''" "put_text 20", OF modem_key_by_key(1)] field [of mc_pin "''pin''" "put_text 5", OF modem_key_by_key(2)]
      field [of mc_at_serial "''at_serial''" "put_text 20", OF modem_key_by_key(3)] assms(2-4) by (auto simp: gives_def c_def)
  then show "arr_str (mc_apn c @ r1) = a" "arr_str (mc_pin c @ r2) = p" "arr_str (mc_at_serial c @ r3) = d"
    using put_text_run safe [OF assms(2)] safe [OF assms(3)] safe [OF assms(4)] by simp_all
qed

lemma modem_file_loaded:
  assumes "fs f = Some (mapping_tokens kvs)" "file_name_ok f" "all_safe kvs"
  shows "radio_hal_yaml_config fs f RADIO_MODEM \<lparr>wifi_confs = ws, modem_confs = [c]\<rparr>
    = Ret (0, \<lparr>wifi_confs = ws, modem_confs = [load_modem kvs c]\<rparr>)"
proof -
  let ?t = "\<lparr>wifi_confs = ws, modem_confs = [c]\<rparr>"
  obtain l where "yaml_scan_loop RADIO_MODEM 0 (mapping_tokens kvs) (False, []) ?t = Ret (0, l, put_modem 0 (load_modem kvs) ?t)"
    using modem_file.scan_mapping [of ?t kvs 0 "(False, [])"] assms(3) unfolding load_modem_def by (auto simp: RADIO_ONE_RADIO_SUPPORT_def)
  then show ?thesis using assms(1,2) strtok_one_file [OF assms(2)]
    by (simp add: radio_hal_yaml_config_def file_name_ok_def put_modem_def RADIO_ONE_RADIO_SUPPORT_def)
qed

end
