(* ===== verification/ConfiguredWifi.thy ===== *)
theory ConfiguredWifi
  imports WifiBringUp WifiLoop ConfigFile
begin

text \<open>
  From a configuration file to the commands that wpa_supplicant gets: the loader of RadioYaml, the
  startup handler of the event loop and the bring-up of an access point, a client or a mesh, composed.
\<close>

section \<open>The startup handler\<close>

lemma debugfs_init_fields:
  "wifi_configs (snd (wifi_debugfs_init i w)) = wifi_configs w" "wpa_ctx (snd (wifi_debugfs_init i w)) = wpa_ctx w"
  "freed (snd (wifi_debugfs_init i w)) = freed w" "ifname (snd (wifi_debugfs_init i w)) = ifname w"
  "phyname (snd (wifi_debugfs_init i w)) = phyname w" "nl_results (snd (wifi_debugfs_init i w)) = nl_results w"
  "new_ctrls (snd (wifi_debugfs_init i w)) = new_ctrls w" "ctrl_counter (snd (wifi_debugfs_init i w)) = ctrl_counter w"
  "nl_in (snd (wifi_debugfs_init i w)) = nl_in w" "nl_out (snd (wifi_debugfs_init i w)) = nl_out w"
  "nametoindex (snd (wifi_debugfs_init i w)) = nametoindex w"
  by (simp_all add: wifi_debugfs_init_def Let_def split: option.split)

lemma debugfs_init_frame:
  "wifi_configs (snd (wifi_debugfs_init i w)) = wifi_configs w" "cmd_ctl j (snd (wifi_debugfs_init i w)) = cmd_ctl j w"
  "live c (snd (wifi_debugfs_init i w)) = live c w" "card_ready j cfg (snd (wifi_debugfs_init i w)) = card_ready j cfg w"
  "card_requests j cfg (snd (wifi_debugfs_init i w)) = card_requests j cfg w" "sock_path j (snd (wifi_debugfs_init i w)) = sock_path j w" "nl_out (snd (wifi_debugfs_init i w)) = nl_out w"
  by (simp_all only: cmd_ctl_def live_def card_ready_def card_requests_def sock_path_def debugfs_init_fields)

text \<open>The mode of the configuration decides; what the bring-up returns does not.\<close>

lemma init_handler_mode:
  assumes "elem (wifi_configs w) i = Ret cfg"
  shows "mode_str cfg = ''ap'' \<Longrightarrow> wifi_hal_create_ap i (snd (wifi_debugfs_init i w)) = Ret (ret, w')
      \<Longrightarrow> init_handler i w = Ret (IF_INIT_STAGE_1, w')"
    "mode_str cfg = ''sta'' \<Longrightarrow> wifi_hal_connect_ap i (snd (wifi_debugfs_init i w)) = Ret (ret, w')
      \<Longrightarrow> init_handler i w = Ret (IF_INIT_STAGE_1, w')"
    "mode_str cfg = ''mesh'' \<Longrightarrow> wifi_hal_join_mesh i (snd (wifi_debugfs_init i w)) = Ret (ret, w')
      \<Longrightarrow> init_handler i w = Ret (IF_INIT_STAGE_1, w')"
  using assms by (simp_all add: init_handler_def Let_def split_beta starts_with_def)

text \<open>The radio 0 of a context with the configurations that the loader built from one file.\<close>

definition loads :: "(string \<Rightarrow> yaml_token list option) \<Rightarrow> string \<Rightarrow> wifi_config list \<Rightarrow> bool" where
  "loads fs f cs = (\<exists>ms t. radio_hal_yaml_config fs f RADIO_WIFI \<lparr>wifi_confs = [wifi_config_zero, wifi_config_zero], modem_confs = ms\<rparr>
     = Ret (0, t) \<and> wifi_confs t = cs)"

lemma loaded_radio:
  assumes "fs f = Some (mapping_tokens kvs)" "file_name_ok f" "wifi_file_ok kvs" "loads fs f (wifi_configs w)"
  defines "cfg \<equiv> load_wifi kvs wifi_config_zero"
  shows "wifi_configs w = [cfg, wifi_config_zero]" "elem (wifi_configs w) 0 = Ret cfg"
    "elem (wifi_configs (snd (wifi_debugfs_init 0 w))) 0 = Ret cfg"
proof -
  show c: "wifi_configs w = [cfg, wifi_config_zero]"
    using assms(4) one_file_loaded [of fs, OF assms(1,2)] assms(3) by (auto simp: loads_def wifi_file_ok_def cfg_def)
  show "elem (wifi_configs w) 0 = Ret cfg" "elem (wifi_configs (snd (wifi_debugfs_init 0 w))) 0 = Ret cfg"
    by (simp_all add: debugfs_init_frame c elem_def)
qed

section \<open>An access point\<close>

definition ap_file :: "(string \<times> string) list \<Rightarrow> string \<Rightarrow> string \<Rightarrow> string \<Rightarrow> bool" where
  "ap_file kvs s fr k = (wifi_file_ok kvs \<and> gives kvs ''mode'' 5 ''ap'' \<and> gives kvs ''ssid'' 32 s
     \<and> gives kvs ''frequency'' 6 fr \<and> gives kvs ''key'' 64 k)"

definition ap_commands :: "string \<Rightarrow> string \<Rightarrow> string \<Rightarrow> string \<Rightarrow> string list" where
  "ap_commands nid s fr k =
     [''REMOVE_NETWORK all'', ''ADD_NETWORK'',
      ''SET_NETWORK '' @ nid @ '' mode 2'', ''SET_NETWORK '' @ nid @ '' ssid '' @ quoted s,
      ''SET_NETWORK '' @ nid @ '' frequency '' @ fr, ''SET_NETWORK '' @ nid @ '' key_mgmt WPA-PSK'',
      ''SET_NETWORK '' @ nid @ '' psk '' @ quoted k, ''ENABLE_NETWORK '' @ nid]"

text \<open>
  C29: An access point from its file: when the file of the first radio has each key once and gives
  the mode, the SSID, the frequency and the key, then the configuration that the loader builds makes the
  startup handler of the event loop send wpa_supplicant exactly these values, in the order of the
  bring-up and for the network that was added, up to the first refusal; the card gets its settings
  after the mode. Whether all was accepted is the result of the bring-up, but the handler goes to
  the first stage either way.
\<close>

theorem configured_access_point:
  assumes "fs f = Some (mapping_tokens kvs)" "file_name_ok f" "ap_file kvs s fr k" "loads fs f (wifi_configs w)"
    and "cmd_ctl 0 w = Some c" "live c w" "card_ready 0 (wifi_configs w ! 0) w"
    and "sock_in c = map Datagram [answer True, ds @ [LF]] @ map (\<lambda>b. Datagram (answer b)) bs"
    and "length bs = 6" "ds \<noteq> []" "length ds \<le> 3" "list_all (is_base_digit 10) ds"
  shows "\<exists>w' c'. init_handler 0 w = Ret (IF_INIT_STAGE_1, w')
    \<and> wifi_hal_create_ap 0 (snd (wifi_debugfs_init 0 w)) = Ret (if list_all id bs then 0 else -1, w')
    \<and> cmd_ctl 0 w' = Some c' \<and> requests c' = requests c @ take (2 + asked bs) (ap_commands ds s fr k)
    \<and> nl_out w' = nl_out w @ (if hd bs then card_requests 0 (wifi_configs w ! 0) w else [])"
proof -
  let ?cfg = "load_wifi kvs wifi_config_zero"
  let ?w = "snd (wifi_debugfs_init 0 w)"
  have f: "wifi_file_ok kvs" using assms(3) by (simp add: ap_file_def)
  note cfg = loaded_radio [OF assms(1,2) f assms(4)]
  have fields: "mode_str ?cfg = ''ap''" "ssid_str ?cfg = s" "freq_str ?cfg = fr" "key_str ?cfg = k"
    using file_fields [OF f] assms(3) by (simp_all add: ap_file_def)
  have "cmd_ctl 0 ?w = Some c" "live c ?w" "card_ready 0 ?cfg ?w" using assms(5-7) cfg(1) by (simp_all add: debugfs_init_frame)
  note run = create_ap_commands [OF this(1,2) cfg(3) this(3) assms(8-12)]
  obtain w' c' where
    w': "wifi_hal_create_ap 0 ?w = Ret (if list_all id bs then 0 else -1, w')" "cmd_ctl 0 w' = Some c'"
    "requests c' = requests c @ [''REMOVE_NETWORK all'', ''ADD_NETWORK''] @ take (asked bs) (ap_setup ds ?cfg)"
    "nl_out w' = nl_out ?w @ (if hd bs then card_requests 0 ?cfg ?w else [])"
    by (rule that [OF run(1,2) _ run(3)]) simp
  have "[''REMOVE_NETWORK all'', ''ADD_NETWORK''] @ take (asked bs) (ap_setup ds ?cfg) = take (2 + asked bs) (ap_commands ds s fr k)"
    using fields by (simp add: ap_setup_def ap_commands_def Let_def)
  then show ?thesis using w' init_handler_mode(1) [OF cfg(2) fields(1) w'(1)] cfg(1) by (simp add: debugfs_init_frame)
qed

section \<open>A client\<close>

definition client_file :: "(string \<times> string) list \<Rightarrow> string \<Rightarrow> string \<Rightarrow> bool" where
  "client_file kvs s k = (wifi_file_ok kvs \<and> gives kvs ''mode'' 5 ''sta'' \<and> gives kvs ''ssid'' 32 s \<and> gives kvs ''key'' 64 k)"

definition client_commands :: "string \<Rightarrow> string \<Rightarrow> string \<Rightarrow> string list" where
  "client_commands nid s k = [''REMOVE_NETWORK all'', ''ADD_NETWORK'', ''SET_NETWORK '' @ nid @ '' ssid '' @ quoted s,
     ''SET_NETWORK '' @ nid @ '' psk '' @ quoted k, ''ENABLE_NETWORK '' @ nid]"

text \<open>
  C31: A client from its file: the startup handler asks for the SSID and the passphrase of the file
  and for ENABLE_NETWORK, behind the settings of the card, and stops at a refusal of the first two.
  What the bring-up returns does not tell: 0 also when the SSID is refused, because the refusal has
  been cut to three bytes and is not recognised, and 0 also when the network cannot be enabled. Only
  a refused passphrase gives -1. The handler goes to the first stage in any case.
\<close>

theorem configured_client:
  assumes "fs f = Some (mapping_tokens kvs)" "file_name_ok f" "client_file kvs s k" "loads fs f (wifi_configs w)"
    and "cmd_ctl 0 w = Some c" "live c w" "card_ready 0 (wifi_configs w ! 0) w"
    and "sock_in c = map Datagram [answer True, ds @ [LF]] @ map (\<lambda>b. Datagram (answer b)) [ssid_ok, psk_ok, enable_ok]"
    and "ds \<noteq> []" "length ds \<le> 3" "list_all (is_base_digit 10) ds"
  shows "\<exists>w' c'. init_handler 0 w = Ret (IF_INIT_STAGE_1, w')
    \<and> wifi_hal_connect_ap 0 (snd (wifi_debugfs_init 0 w)) = Ret (if ssid_ok \<and> \<not> psk_ok then -1 else 0, w')
    \<and> cmd_ctl 0 w' = Some c'
    \<and> requests c' = requests c @ take (if \<not> ssid_ok then 3 else if \<not> psk_ok then 4 else 5) (client_commands ds s k)
    \<and> nl_out w' = nl_out w @ card_requests 0 (wifi_configs w ! 0) w"
proof -
  let ?cfg = "load_wifi kvs wifi_config_zero"
  let ?w = "snd (wifi_debugfs_init 0 w)"
  have f: "wifi_file_ok kvs" using assms(3) by (simp add: client_file_def)
  note cfg = loaded_radio [OF assms(1,2) f assms(4)]
  have fields: "mode_str ?cfg = ''sta''" "ssid_str ?cfg = s" "key_str ?cfg = k"
    using file_fields [OF f] assms(3) by (simp_all add: client_file_def)
  have "cmd_ctl 0 ?w = Some c" "live c ?w" "card_ready 0 ?cfg ?w" using assms(5-7) cfg(1) by (simp_all add: debugfs_init_frame)
  from connect_ap_commands [OF this(1,2) cfg(3) this(3) assms(8-11)] obtain w' c' where
    w': "wifi_hal_connect_ap 0 ?w = Ret (if ssid_ok \<and> \<not> psk_ok then -1 else 0, w')" "cmd_ctl 0 w' = Some c'"
    "requests c' = requests c @ [''REMOVE_NETWORK all'', ''ADD_NETWORK'']
        @ take (if \<not> ssid_ok then 1 else if \<not> psk_ok then 2 else 3) (sta_setup ds ?cfg)"
    "nl_out w' = nl_out ?w @ card_requests 0 ?cfg ?w" by blast
  have "[''REMOVE_NETWORK all'', ''ADD_NETWORK''] @ take (if \<not> ssid_ok then 1 else if \<not> psk_ok then 2 else 3) (sta_setup ds ?cfg)
      = take (if \<not> ssid_ok then 3 else if \<not> psk_ok then 4 else 5) (client_commands ds s k)"
    using fields by (simp add: sta_setup_def client_commands_def eval_nat_numeral)
  then show ?thesis using w' init_handler_mode(2) [OF cfg(2) fields(1) w'(1)] cfg(1) by (simp add: debugfs_init_frame)
qed

section \<open>A mesh\<close>

definition mesh_file :: "(string \<times> string) list \<Rightarrow> string \<Rightarrow> string \<Rightarrow> string \<Rightarrow> string \<Rightarrow> bool" where
  "mesh_file kvs s fr e k = (wifi_file_ok kvs \<and> gives kvs ''mode'' 5 ''mesh'' \<and> gives kvs ''ssid'' 32 s
     \<and> gives kvs ''frequency'' 6 fr \<and> gives kvs ''enc'' 8 e \<and> gives kvs ''key'' 64 k)"

definition mesh_commands :: "string \<Rightarrow> string \<Rightarrow> string \<Rightarrow> string \<Rightarrow> string \<Rightarrow> string list" where
  "mesh_commands nid s fr e k =
     [''ADD_NETWORK'', ''SET_NETWORK '' @ nid @ '' mode 5'', ''SET_NETWORK '' @ nid @ '' ssid '' @ quoted s,
      ''SET_NETWORK '' @ nid @ '' frequency '' @ fr, ''SET_NETWORK '' @ nid @ '' key_mgmt '' @ e,
      ''SET_NETWORK '' @ nid @ '' psk '' @ quoted k, ''MESH_GROUP_ADD '' @ nid]"

text \<open>
  C30: A mesh from its file: the startup handler opens a connection of its own and asks there for a
  network with the mesh mode and the SSID, the frequency, the encryption and the passphrase of the
  file, and for MESH_GROUP_ADD, with the settings of the card after the mode; the old networks are
  removed over the ordinary connection. It returns 0 when every step is answered with OK and -1
  at the first that is not, and asks nothing behind it; the handler goes to the first stage either way.
\<close>

theorem configured_mesh:
  assumes "fs f = Some (mapping_tokens kvs)" "file_name_ok f" "mesh_file kvs s fr e k" "loads fs f (wifi_configs w)"
    and "cmd_ctl 0 w = Some c" "live c w" "card_ready 0 (wifi_configs w ! 0) w"
    and "sock_in c = [Datagram (answer True)]"
    and "new_ctrls w = (env, map Datagram [ds @ [LF]] @ map (\<lambda>b. Datagram (answer b)) bs) # rest"
    and "wpa_ctrl_open2 (Some (sock_path 0 w)) None (ctrl_counter w) env = (Some m, n, l)" "ctrl_local m \<notin> set (freed w)"
    and "length bs = 6" "ds \<noteq> []" "length ds \<le> 3" "list_all (is_base_digit 10) ds"
  shows "\<exists>w' m'. init_handler 0 w = Ret (IF_INIT_STAGE_1, w')
    \<and> wifi_hal_join_mesh 0 (snd (wifi_debugfs_init 0 w)) = Ret (if list_all id bs then 0 else -1, w')
    \<and> mesh_ctl 0 w' = Some m' \<and> requests m' = take (1 + asked bs) (mesh_commands ds s fr e k)
    \<and> nl_out w' = nl_out w @ (if hd bs then card_requests 0 (wifi_configs w ! 0) w else [])"
proof -
  let ?cfg = "load_wifi kvs wifi_config_zero"
  let ?w = "snd (wifi_debugfs_init 0 w)"
  have f: "wifi_file_ok kvs" using assms(3) by (simp add: mesh_file_def)
  note cfg = loaded_radio [OF assms(1,2) f assms(4)]
  have fields: "mode_str ?cfg = ''mesh''" "ssid_str ?cfg = s" "freq_str ?cfg = fr" "enc_str ?cfg = e" "key_str ?cfg = k"
    using file_fields [OF f] assms(3) by (simp_all add: mesh_file_def)
  have w: "cmd_ctl 0 ?w = Some c" "live c ?w" "card_ready 0 ?cfg ?w" using assms(5-7) cfg(1) by (simp_all add: debugfs_init_frame)
  have o: "new_ctrls ?w = (env, map Datagram [ds @ [LF]] @ map (\<lambda>b. Datagram (answer b)) bs) # rest"
    "wpa_ctrl_open2 (Some (sock_path 0 ?w)) None (ctrl_counter ?w) env = (Some m, n, l)" "ctrl_local m \<notin> set (freed ?w)"
    using assms(9-11) by (simp_all only: debugfs_init_fields debugfs_init_frame not_False_eq_True)
  from join_mesh_commands [OF w(1,2) cfg(3) w(3) assms(8) o assms(12-15)] obtain w' m' where
    w': "wifi_hal_join_mesh 0 ?w = Ret (if list_all id bs then 0 else -1, w')" "mesh_ctl 0 w' = Some m'"
    "requests m' = ''ADD_NETWORK'' # take (asked bs) (mesh_setup ds ?cfg)"
    "nl_out w' = nl_out ?w @ (if hd bs then card_requests 0 ?cfg ?w else [])" by blast
  have "''ADD_NETWORK'' # take (asked bs) (mesh_setup ds ?cfg) = take (1 + asked bs) (mesh_commands ds s fr e k)"
    using fields by (simp add: mesh_setup_def mesh_commands_def Let_def)
  then show ?thesis using w' init_handler_mode(3) [OF cfg(2) fields(1) w'(1)] cfg(1) by (simp add: debugfs_init_frame)
qed

section \<open>Witnesses\<close>

lemma configs_frame:
  "cmd_ctl j (w\<lparr>wifi_configs := cs\<rparr>) = cmd_ctl j w" "live c (w\<lparr>wifi_configs := cs\<rparr>) = live c w"
  "card_ready j cfg (w\<lparr>wifi_configs := cs\<rparr>) = card_ready j cfg w"
  by (auto simp: cmd_ctl_def live_def card_ready_def)

lemma new_ctrls_frame:
  "cmd_ctl j (w\<lparr>new_ctrls := ns\<rparr>) = cmd_ctl j w" "live c (w\<lparr>new_ctrls := ns\<rparr>) = live c w"
  "card_ready j cfg (w\<lparr>new_ctrls := ns\<rparr>) = card_ready j cfg w"
  by (auto simp: cmd_ctl_def live_def card_ready_def)

text \<open>A file for each mode.\<close>

definition example_file :: "string \<Rightarrow> (string \<times> string) list" where
  "example_file mode = [(''mode'', mode), (''ssid'', ''net1''), (''frequency'', ''2412''), (''enc'', ''SAE''),
     (''key'', ''pass-word''), (''tx_power'', ''20'')]"

definition example_ctx :: "string \<Rightarrow> string list \<Rightarrow> wifi_ctx" where
  "example_ctx mode replies = (ap_ctx replies)\<lparr>wifi_configs := [load_wifi (example_file mode) wifi_config_zero, wifi_config_zero]\<rparr>"

definition example_fs :: "string \<Rightarrow> string \<Rightarrow> yaml_token list option" where
  "example_fs mode = (\<lambda>f. Some (mapping_tokens (example_file mode)))"

lemma example_files:
  assumes "mode \<in> {''ap'', ''sta'', ''mesh''}"
  shows "wifi_file_ok (example_file mode)" "gives (example_file mode) ''mode'' 5 mode" "gives (example_file mode) ''ssid'' 32 ''net1''"
    "gives (example_file mode) ''frequency'' 6 ''2412''" "gives (example_file mode) ''enc'' 8 ''SAE''"
    "gives (example_file mode) ''key'' 64 ''pass-word''"
  using assms by (auto simp: wifi_file_ok_def example_file_def config_keys_def all_safe_def safe_char_def gives_def)

lemma example_card:
  "wc_tx_power (load_wifi (example_file mode) wifi_config_zero) = 20" "wc_distance (load_wifi (example_file mode) wifi_config_zero) = 0"
  by (simp_all add: example_file_def radio_hal_yaml_wifi_config_def starts_with_def temp_key_of_def TEMP_KEY_SIZE_def wifi_config_zero_def
      put_int_def strtol_def subject_seq_def split_sign_def isspace_def is_base_digit_def digit_of_def digits_value_def c_int_def)

lemma example_ready:
  assumes "mode \<in> {''ap'', ''sta'', ''mesh''}"
  shows "example_fs mode ''a.yaml'' = Some (mapping_tokens (example_file mode))" "file_name_ok ''a.yaml''"
    "loads (example_fs mode) ''a.yaml'' (wifi_configs (example_ctx mode rs))"
    "cmd_ctl 0 (example_ctx mode rs) = Some (idle_ctrl (map Datagram rs))"
    "live (idle_ctrl (map Datagram rs)) (example_ctx mode rs)"
    "card_ready 0 (wifi_configs (example_ctx mode rs) ! 0) (example_ctx mode rs)"
proof -
  let ?f = "example_file mode"
  show fs: "example_fs mode ''a.yaml'' = Some (mapping_tokens ?f)" and ok: "file_name_ok ''a.yaml''"
    by (simp_all add: example_fs_def file_name_ok_def)
  have "all_safe ?f" using example_files(1) [OF assms] by (simp add: wifi_file_ok_def)
  from one_file_loaded [of "example_fs mode", OF fs ok this]
  show "loads (example_fs mode) ''a.yaml'' (wifi_configs (example_ctx mode rs))" by (auto simp: loads_def example_ctx_def)
  note r = ap_ctx_ready [of rs]
  show "cmd_ctl 0 (example_ctx mode rs) = Some (idle_ctrl (map Datagram rs))" "live (idle_ctrl (map Datagram rs)) (example_ctx mode rs)"
    using r(1,2) by (simp_all only: example_ctx_def configs_frame)
  have "card_ready 0 (load_wifi ?f wifi_config_zero) (ap_ctx rs)" using r(4) example_card by (simp add: card_ready_def)
  then show "card_ready 0 (wifi_configs (example_ctx mode rs) ! 0) (example_ctx mode rs)"
    by (simp add: example_ctx_def configs_frame)
qed

theorem configured_access_point_witness:
  "\<exists>w' c'. init_handler 0 (example_ctx ''ap'' (answer True # (''0'' @ [LF]) # map answer [True, True, False, True, True, True]))
      = Ret (IF_INIT_STAGE_1, w') \<and> cmd_ctl 0 w' = Some c'
    \<and> requests c' = [''REMOVE_NETWORK all'', ''ADD_NETWORK'', ''SET_NETWORK 0 mode 2'',
        ''SET_NETWORK 0 ssid '' @ quoted ''net1'', ''SET_NETWORK 0 frequency 2412'']"
proof -
  have m: "''ap'' \<in> {''ap'', ''sta'', ''mesh''}" by simp
  have f: "ap_file (example_file ''ap'') ''net1'' ''2412'' ''pass-word''" using example_files [OF m] by (simp add: ap_file_def)
  note r = example_ready(1,2) [OF m] example_ready(3-6) [OF m, of "answer True # (''0'' @ [LF]) # map answer [True, True, False, True, True, True]"]
  from configured_access_point [OF r(1,2) f r(3-6), of "''0''" "[True, True, False, True, True, True]"]
  show ?thesis by (auto simp: idle_ctrl_def is_base_digit_def digit_of_def ap_commands_def numeral_3_eq_3)
qed

theorem configured_client_witness:
  "\<exists>w' c'. init_handler 0 (example_ctx ''sta'' (answer True # (''0'' @ [LF]) # map answer [False, True, True]))
      = Ret (IF_INIT_STAGE_1, w') \<and> cmd_ctl 0 w' = Some c'
    \<and> requests c' = [''REMOVE_NETWORK all'', ''ADD_NETWORK'', ''SET_NETWORK 0 ssid '' @ quoted ''net1'']"
proof -
  have m: "''sta'' \<in> {''ap'', ''sta'', ''mesh''}" by simp
  have f: "client_file (example_file ''sta'') ''net1'' ''pass-word''" using example_files [OF m] by (simp add: client_file_def)
  note r = example_ready(1,2) [OF m] example_ready(3-6) [OF m, of "answer True # (''0'' @ [LF]) # map answer [False, True, True]"]
  from configured_client [OF r(1,2) f r(3-6), of "''0''" False True True]
  show ?thesis by (auto simp: idle_ctrl_def is_base_digit_def digit_of_def client_commands_def numeral_3_eq_3)
qed

theorem configured_mesh_witness:
  "\<exists>w' m'. init_handler 0 ((example_ctx ''mesh'' [answer True])\<lparr>new_ctrls :=
        [(open_env0, map Datagram ((''1'' @ [LF]) # map answer [True, True, True, True, False, True]))]\<rparr>) = Ret (IF_INIT_STAGE_1, w')
    \<and> mesh_ctl 0 w' = Some m'
    \<and> requests m' = [''ADD_NETWORK'', ''SET_NETWORK 1 mode 5'', ''SET_NETWORK 1 ssid '' @ quoted ''net1'',
        ''SET_NETWORK 1 frequency 2412'', ''SET_NETWORK 1 key_mgmt SAE'', ''SET_NETWORK 1 psk '' @ quoted ''pass-word'']"
proof -
  let ?n = "[(open_env0, map Datagram ((''1'' @ [LF]) # map answer [True, True, True, True, False, True]))]"
  let ?w = "(example_ctx ''mesh'' [answer True])\<lparr>new_ctrls := ?n\<rparr>"
  have m: "''mesh'' \<in> {''ap'', ''sta'', ''mesh''}" by simp
  have f: "mesh_file (example_file ''mesh'') ''net1'' ''2412'' ''SAE'' ''pass-word''" using example_files [OF m] by (simp add: mesh_file_def)
  note r = example_ready(1,2) [OF m] example_ready(3-6) [OF m, of "[answer True]"]
  have w: "loads (example_fs ''mesh'') ''a.yaml'' (wifi_configs ?w)" "cmd_ctl 0 ?w = Some (idle_ctrl (map Datagram [answer True]))"
    "live (idle_ctrl (map Datagram [answer True])) ?w" "card_ready 0 (wifi_configs ?w ! 0) ?w"
    using r by (simp_all only: new_ctrls_frame) simp_all
  obtain x n l where o: "wpa_ctrl_open2 (Some (sock_path 0 ?w)) None (ctrl_counter ?w) open_env0 = (Some x, n, l)"
    by (simp add: wpa_ctrl_open2_def open_env0_def client_path_def sock_path_def example_ctx_def ap_ctx_def wifi_ctx0_def show_int_def show_nat.simps
        SUN_PATH_SIZE_def CONFIG_CTRL_IFACE_CLIENT_PREFIX_def CONFIG_CTRL_IFACE_CLIENT_DIR_def starts_with_def
        WIFI_HAL_WPA_SOCK_PATH_def Let_def)
  have n: "new_ctrls ?w = (open_env0, map Datagram [''1'' @ [LF]] @ map (\<lambda>b. Datagram (answer b)) [True, True, True, True, False, True]) # []"
    and s: "sock_in (idle_ctrl (map Datagram [answer True])) = [Datagram (answer True)]" and d: "ctrl_local x \<notin> set (freed ?w)"
    by (simp_all add: idle_ctrl_def example_ctx_def ap_ctx_def wifi_ctx0_def)
  have i: "length [True, True, True, True, False, True] = 6" "''1'' \<noteq> []" "length ''1'' \<le> 3" "list_all (is_base_digit 10) ''1''"
    by (simp_all add: is_base_digit_def digit_of_def)
  have c: "take (1 + asked [True, True, True, True, False, True]) (mesh_commands ''1'' ''net1'' ''2412'' ''SAE'' ''pass-word'')
    = [''ADD_NETWORK'', ''SET_NETWORK 1 mode 5'', ''SET_NETWORK 1 ssid '' @ quoted ''net1'',
        ''SET_NETWORK 1 frequency 2412'', ''SET_NETWORK 1 key_mgmt SAE'', ''SET_NETWORK 1 psk '' @ quoted ''pass-word'']"
    by (simp add: mesh_commands_def)
  from configured_mesh [OF r(1,2) f w s n o d i] show ?thesis unfolding c by blast
qed

end
