(* ===== verification/WifiUp.thy ===== *)
theory WifiUp
  imports WifiEvents WifiOpen ConfiguredWifi
begin

text \<open>
  Two radios that come up, src/src/wifi/wifi_hal_main.cpp: opening the HAL with what it finds, starts and
  connects to, and the initial handlers of the event loop, one after the other.
\<close>

section \<open>Control connections\<close>

text \<open>The system lets the process \<open>p\<close> open a connection.\<close>

definition usable :: "int \<Rightarrow> open_env \<Rightarrow> bool" where
  "usable p e = (gets_socket e \<and> binds e = [] \<and> connects e \<and> pid e = p)"

definition ctrl_at :: "int \<Rightarrow> int \<Rightarrow> string \<Rightarrow> sock_ev list \<Rightarrow> wpa_ctrl" where
  "ctrl_at p k path evs = \<lparr>ctrl_local = client_path None p k, ctrl_dest = path, sends = [], sock_in = evs, requests = []\<rparr>"

lemma ctrl_at_fields [simp]:
  "ctrl_local (ctrl_at p k path evs) = client_path None p k" "ctrl_dest (ctrl_at p k path evs) = path"
  "sock_in (ctrl_at p k path evs) = evs" "requests (ctrl_at p k path evs) = []" "sends (ctrl_at p k path evs) = []"
  "ctrl_at p k path evs\<lparr>sock_in := evs'\<rparr> = ctrl_at p k path evs'"
  by (simp_all add: ctrl_at_def)

lemma client_path_inj: "0 \<le> a \<Longrightarrow> 0 \<le> b \<Longrightarrow> client_path None p a = client_path None p b \<longleftrightarrow> a = b"
proof
  assume ab: "0 \<le> a" "0 \<le> b" and "client_path None p a = client_path None p b"
  then have "show_nat (nat a) = show_nat (nat b)" by (simp add: client_path_def Let_def show_int_def)
  then have "digits_value 10 (show_nat (nat a)) = digits_value 10 (show_nat (nat b))" by (rule arg_cong)
  then show "a = b" using ab by (simp only: digits_value_show_nat)
qed simp

lemma client_path_fits:
  assumes "0 \<le> p" "p < 10 ^ 7" "0 \<le> k" "k < 10 ^ 7"
  shows "length (client_path None p k) < SUN_PATH_SIZE"
proof -
  have "length (show_nat (nat p)) \<le> 7" "length (show_nat (nat k)) \<le> 7"
    using length_show_nat [of "nat p" 6] length_show_nat [of "nat k" 6] assms by simp_all
  then show ?thesis using assms(1,3)
    by (simp add: client_path_def Let_def show_int_def CONFIG_CTRL_IFACE_CLIENT_PREFIX_def CONFIG_CTRL_IFACE_CLIENT_DIR_def SUN_PATH_SIZE_def)
qed

lemma open_usable:
  assumes "usable p e" "0 \<le> p" "p < 10 ^ 7" "0 \<le> k" "k < 10 ^ 6" "length (ifname w ! i) < RADIO_IFNAME_SIZE"
  shows "wpa_ctrl_open2 (Some (sock_path i w)) None k e
    = (Some (ctrl_at p (k + 1) (sock_path i w) []), k + 1, [Bound (client_path None p (k + 1))])"
proof -
  have "\<not> starts_with (sock_path i w) ''@abstract:''" "length (sock_path i w) < SUN_PATH_SIZE"
    using assms(6) by (simp_all add: sock_path_def WIFI_HAL_WPA_SOCK_PATH_def starts_with_def SUN_PATH_SIZE_def RADIO_IFNAME_SIZE_def)
  then show ?thesis using assms(1) client_path_fits [of p "k + 1"] assms(2-5)
    by (simp add: wpa_ctrl_open2_def usable_def Let_def ctrl_at_def)
qed

text \<open>A radio whose monitor is answered OK; what its command connection will hear is \<open>evs\<close>.\<close>

definition attached :: "int \<Rightarrow> int \<Rightarrow> string \<Rightarrow> sock_ev list \<Rightarrow> wpa_ctrl_ctx" where
  "attached p k path evs = \<lparr>wx_ctrl = Some (ctrl_at p (k + 1) path evs),
     wx_monitor = Some ((ctrl_at p (k + 2) path [])\<lparr>requests := [''ATTACH'']\<rparr>), wx_mesh_ctrl = None\<rparr>"

lemma radio_attached:
  assumes "i < length (wpa_ctx w)" "new_ctrls w = (e1, evs) # (e2, [Datagram (answer True)]) # rest" "usable p e1" "usable p e2"
    and "0 \<le> p" "p < 10 ^ 7" "0 \<le> ctrl_counter w" "ctrl_counter w < 10 ^ 5" "length (ifname w ! i) < RADIO_IFNAME_SIZE"
  obtains l where "wifi_hal_wpa_attach i w = Ret (0, w\<lparr>wpa_ctx := (wpa_ctx w)[i := attached p (ctrl_counter w) (sock_path i w) evs],
     new_ctrls := rest, ctrl_counter := ctrl_counter w + 2, sys_log := l\<rparr>)"
proof -
  let ?w1 = "put_wpa i (\<lambda>x. x\<lparr>wx_mesh_ctrl := None\<rparr>) w"
  let ?k = "ctrl_counter w"
  have p: "sock_path i ?w1 = sock_path i w" by (simp add: sock_path_def put_wpa_def)
  have o: "wpa_ctrl_open2 (Some (sock_path i w)) None ?k e1 = (Some (ctrl_at p (?k + 1) (sock_path i w) []), ?k + 1, [Bound (client_path None p (?k + 1))])"
    "wpa_ctrl_open2 (Some (sock_path i w)) None (?k + 1) e2 = (Some (ctrl_at p (?k + 2) (sock_path i w) []), ?k + 2, [Bound (client_path None p (?k + 2))])"
    using open_usable [OF assms(3,5,6), of ?k w i] open_usable [OF assms(4,5,6), of "?k + 1" w i] assms(7-9)
    by (simp_all add: add.commute)
  let ?w2 = "?w1\<lparr>new_ctrls := (e2, [Datagram (answer True)]) # rest, ctrl_counter := ?k + 1, sys_log := sys_log w @ [Bound (client_path None p (?k + 1))]\<rparr>"
  have o1: "open_ctrl (sock_path i w) ?w1 = Ret (Some (ctrl_at p (?k + 1) (sock_path i w) evs), ?w2)"
    using open_ctrl_next [of ?w1 e1 evs] assms(2) o(1) by (simp add: put_wpa_def)
  let ?w3 = "put_wpa i (\<lambda>x. x\<lparr>wx_ctrl := Some (ctrl_at p (?k + 1) (sock_path i w) evs)\<rparr>) ?w2"
  let ?m = "ctrl_at p (?k + 2) (sock_path i w) [Datagram (answer True)]"
  have o2: "open_ctrl (sock_path i w) ?w3 = Ret (Some ?m, ?w3\<lparr>new_ctrls := rest, ctrl_counter := ?k + 2,
      sys_log := sys_log ?w3 @ [Bound (client_path None p (?k + 2))]\<rparr>)"
    using open_ctrl_next [of ?w3 e2] o(2) by (simp add: put_wpa_def)
  have m: "wpa_ctrl_attach ?m = Ret (0, ?m\<lparr>sock_in := [], requests := [''ATTACH'']\<rparr>)"
    by (simp add: wpa_ctrl_attach_def wpa_ctrl_attach_helper_def wpa_ctrl_request_def answer_def is_unsolicited_def eval_nat_numeral
        ctrl_at_def starts_with_def)
  have whole: "x\<lparr>wx_mesh_ctrl := None, wx_ctrl := a, wx_monitor := b\<rparr> = \<lparr>wx_ctrl = a, wx_monitor = b, wx_mesh_ctrl = None\<rparr>"
    for x :: wpa_ctrl_ctx and a b by (cases x) simp
  show thesis
    by (rule that [of "sys_log w @ [Bound (client_path None p (?k + 1)), Bound (client_path None p (?k + 2))]"])
      (use assms(1) p o1 o2 m in \<open>simp add: wifi_hal_wpa_attach_def Let_def attached_def put_wpa_def whole\<close>)
qed

section \<open>Opening the HAL\<close>

text \<open>One wpa_supplicant for each radio, after the socket of an earlier one was removed.\<close>

lemma supplicants_started:
  assumes "radio_amount w = 2" "ifname w = [n0, n1]" "shell_out w = []" "can_write w WPA_SUPPLICANT_DEFAULT_CONFIG"
  obtains fw where "wifi_hal_start_wpa_dummy_config w = Ret (0, w\<lparr>files_written := fw,
     shell_cmds := shell_cmds w @ [rm_cmd n0, supplicant_cmd n0, rm_cmd n1, supplicant_cmd n1]\<rparr>)"
proof (rule that)
  have "[0..<2] = [0, Suc 0]" by (simp add: upt_rec)
  then show "wifi_hal_start_wpa_dummy_config w = Ret (0, w\<lparr>files_written := files_written w
       @ [(WPA_SUPPLICANT_DEFAULT_CONFIG, ''ctrl_interface=DIR=/var/run/wpa_supplicant'' @ [LF])],
     shell_cmds := shell_cmds w @ [rm_cmd n0, supplicant_cmd n0, rm_cmd n1, supplicant_cmd n1]\<rparr>)"
    using assms by (simp add: wifi_hal_start_wpa_dummy_config_def create_default_wpa_config_def wifi_hal_run_sys_cmd_def Let_def)
qed

text \<open>The context before it is opened; the process is new.\<close>

definition fresh_wifi :: "wifi_ctx \<Rightarrow> bool" where
  "fresh_wifi w = (ifname w = [[], []] \<and> phyname w = [[], []] \<and> ifindex w = [-1, -1] \<and> nl_results w = []
     \<and> length (wpa_ctx w) = 2 \<and> length (wifi_states w) = 2 \<and> ctrl_counter w = 0 \<and> freed w = [] \<and> shell_out w = []
     \<and> can_write w WPA_SUPPLICANT_DEFAULT_CONFIG)"

definition sock_of :: "string \<Rightarrow> string" where
  "sock_of n = WIFI_HAL_WPA_SOCK_PATH @ n"

definition radio_names :: "string \<Rightarrow> string \<Rightarrow> bool" where
  "radio_names n0 n1 = (n0 \<noteq> [] \<and> n1 \<noteq> [] \<and> length n0 < RADIO_IFNAME_SIZE \<and> length n1 < RADIO_IFNAME_SIZE \<and> \<not> starts_with n0 n1)"

lemma both_attached:
  assumes "length (wpa_ctx w) = 2" "ifname w = [n0, n1]" "ctrl_counter w = 0" "length n0 < RADIO_IFNAME_SIZE" "length n1 < RADIO_IFNAME_SIZE"
    and "new_ctrls w = [(e0, evs0), (m0, [Datagram (answer True)]), (e1, evs1), (m1, [Datagram (answer True)])]"
    and "list_all (usable p) [e0, m0, e1, m1]" "0 \<le> p" "p < 10 ^ 7"
  obtains l where "attach_each [0, 1] w = Ret (0, w\<lparr>wpa_ctx := [attached p 0 (sock_of n0) evs0, attached p 2 (sock_of n1) evs1],
    new_ctrls := [], ctrl_counter := 4, sys_log := l\<rparr>)"
proof -
  have u: "usable p e0" "usable p m0" "usable p e1" "usable p m1" using assms(7) by simp_all
  have path: "sock_path 0 w = sock_of n0" using assms(2) by (simp add: sock_path_def sock_of_def)
  have r: "0 < length (wpa_ctx w)" "new_ctrls w = (e0, evs0) # (m0, [Datagram (answer True)]) # [(e1, evs1), (m1, [Datagram (answer True)])]"
    "0 \<le> ctrl_counter w" "ctrl_counter w < 10 ^ 5" "length (ifname w ! 0) < RADIO_IFNAME_SIZE"
    using assms(1-4,6) by simp_all
  obtain l1 where 1: "wifi_hal_wpa_attach 0 w = Ret (0, w\<lparr>wpa_ctx := (wpa_ctx w)[0 := attached p (ctrl_counter w) (sock_path 0 w) evs0],
     new_ctrls := [(e1, evs1), (m1, [Datagram (answer True)])], ctrl_counter := ctrl_counter w + 2, sys_log := l1\<rparr>)"
    by (rule radio_attached [OF r(1,2) u(1,2) assms(8,9) r(3-5)])
  define w1 where "w1 = w\<lparr>wpa_ctx := (wpa_ctx w)[0 := attached p 0 (sock_of n0) evs0],
     new_ctrls := [(e1, evs1), (m1, [Datagram (answer True)])], ctrl_counter := 2, sys_log := l1\<rparr>"
  have 1: "wifi_hal_wpa_attach 0 w = Ret (0, w1)" using 1 unfolding path assms(3) w1_def by simp
  have path1: "sock_path 1 w1 = sock_of n1" "ctrl_counter w1 = 2" using assms(2) by (simp_all add: w1_def sock_path_def sock_of_def)
  have r1: "1 < length (wpa_ctx w1)" "new_ctrls w1 = (e1, evs1) # (m1, [Datagram (answer True)]) # []"
    "0 \<le> ctrl_counter w1" "ctrl_counter w1 < 10 ^ 5" "length (ifname w1 ! 1) < RADIO_IFNAME_SIZE"
    using assms(1,2,5) by (simp_all add: w1_def)
  obtain l2 where 2: "wifi_hal_wpa_attach 1 w1 = Ret (0, w1\<lparr>wpa_ctx := (wpa_ctx w1)[1 := attached p (ctrl_counter w1) (sock_path 1 w1) evs1],
     new_ctrls := [], ctrl_counter := ctrl_counter w1 + 2, sys_log := l2\<rparr>)"
    by (rule radio_attached [OF r1(1,2) u(3,4) assms(8,9) r1(3-5)])
  have "(wpa_ctx w1)[1 := c] = [attached p 0 (sock_of n0) evs0, c]" for c
    using assms(1) by (cases "wpa_ctx w"; cases "tl (wpa_ctx w)") (auto simp: w1_def)
  with 2 have "wifi_hal_wpa_attach 1 w1 = Ret (0, w1\<lparr>wpa_ctx := [attached p 0 (sock_of n0) evs0, attached p 2 (sock_of n1) evs1],
     new_ctrls := [], ctrl_counter := 4, sys_log := l2\<rparr>)" unfolding path1 by simp
  with 1 show thesis by (intro that [of l2]) (simp add: w1_def)
qed

lemma two_radios_open:
  assumes "fresh_wifi w" "radio_names n0 n1" "nl_in w = iface n0 i0 p0 # iface n1 i1 p1 # NlFinish # rest"
    and "0 < i0" "i0 < 2 ^ 31" "0 < i1" "i1 < 2 ^ 31" "p0 < 10" "p1 < 10"
    and "new_ctrls w = [(e0, evs0), (m0, [Datagram (answer True)]), (e1, evs1), (m1, [Datagram (answer True)])]"
    and "list_all (usable p) [e0, m0, e1, m1]" "0 \<le> p" "p < 10 ^ 7"
  obtains fw l where "wifi_hal_open w = Ret (0, w\<lparr>ifname := [n0, n1], phyname := [show_nat p0, show_nat p1], ifindex := [int i0, int i1],
    radio_amount := 2, nl_in := rest, nl_out := nl_out w @ [GetInterface], files_written := fw,
    shell_cmds := shell_cmds w @ [rm_cmd n0, supplicant_cmd n0, rm_cmd n1, supplicant_cmd n1],
    wpa_ctx := [attached p 0 (sock_of n0) evs0, attached p 2 (sock_of n1) evs1], new_ctrls := [], ctrl_counter := 4, sys_log := l\<rparr>)"
proof -
  have f: "ifname w = [[], []]" "phyname w = [[], []]" "ifindex w = [-1, -1]" "nl_results w = []" "length (wpa_ctx w) = 2"
    "ctrl_counter w = 0" "shell_out w = []" "can_write w WPA_SUPPLICANT_DEFAULT_CONFIG"
    using assms(1) by (simp_all add: fresh_wifi_def)
  have n: "n0 \<noteq> []" "n1 \<noteq> []" "length n0 < RADIO_IFNAME_SIZE" "length n1 < RADIO_IFNAME_SIZE" "\<not> starts_with n0 n1"
    using assms(2) by (simp_all add: radio_names_def)
  define w1 where "w1 = w\<lparr>ifname := [n0, n1], phyname := [show_nat p0, show_nat p1], ifindex := [int i0, int i1],
    radio_amount := 2, nl_in := rest, nl_out := nl_out w @ [GetInterface]\<rparr>"
  have 1: "wifi_hal_get_interface (w\<lparr>radio_amount := 0\<rparr>) = Ret (0, w1)"
    using interfaces_found [of "w\<lparr>radio_amount := 0\<rparr>" n0 i0 p0 n1 i1 p1 rest] f assms(3-9) n by (simp add: w1_def)
  have r1: "radio_amount w1 = 2" "ifname w1 = [n0, n1]" "shell_out w1 = []" "can_write w1 WPA_SUPPLICANT_DEFAULT_CONFIG"
    using f by (simp_all add: w1_def)
  obtain fw where 2: "wifi_hal_start_wpa_dummy_config w1 = Ret (0, w1\<lparr>files_written := fw,
     shell_cmds := shell_cmds w1 @ [rm_cmd n0, supplicant_cmd n0, rm_cmd n1, supplicant_cmd n1]\<rparr>)"
    by (rule supplicants_started [of w1 n0 n1, OF r1])
  define w2 where "w2 = w1\<lparr>files_written := fw,
     shell_cmds := shell_cmds w1 @ [rm_cmd n0, supplicant_cmd n0, rm_cmd n1, supplicant_cmd n1]\<rparr>"
  have r2: "length (wpa_ctx w2) = 2" "ifname w2 = [n0, n1]" "ctrl_counter w2 = 0"
    "new_ctrls w2 = [(e0, evs0), (m0, [Datagram (answer True)]), (e1, evs1), (m1, [Datagram (answer True)])]"
    using f(5,6) assms(10) by (simp_all add: w2_def w1_def)
  obtain l where 3: "attach_each [0, 1] w2 = Ret (0, w2\<lparr>wpa_ctx := [attached p 0 (sock_of n0) evs0, attached p 2 (sock_of n1) evs1],
    new_ctrls := [], ctrl_counter := 4, sys_log := l\<rparr>)"
    by (rule both_attached [OF r2(1-3) n(3,4) r2(4) assms(11-13)])
  have am: "radio_amount w2 = 2" "[0..<2] = [0, 1]" by (simp_all add: w2_def w1_def upt_rec)
  have "wifi_hal_open w = Ret (0, w2\<lparr>wpa_ctx := [attached p 0 (sock_of n0) evs0, attached p 2 (sock_of n1) evs1],
    new_ctrls := [], ctrl_counter := 4, sys_log := l\<rparr>)"
    unfolding wifi_hal_open_def 1 obind.simps split 2 w2_def [symmetric] am 3 by simp
  then show thesis by (intro that [where fw = fw and l = l]) (simp add: w2_def w1_def)
qed

section \<open>The initial handlers\<close>

text \<open>What wpa_supplicant answers to a bring-up whose network is \<open>ds\<close>.\<close>

definition ap_answers :: "string \<Rightarrow> bool list \<Rightarrow> sock_ev list" where
  "ap_answers ds bs = map Datagram [answer True, ds @ [LF]] @ map (\<lambda>b. Datagram (answer b)) bs"

definition ap_script :: "string \<Rightarrow> bool list \<Rightarrow> bool" where
  "ap_script ds bs = (length bs = 6 \<and> ds \<noteq> [] \<and> length ds \<le> 3 \<and> list_all (is_base_digit 10) ds)"

text \<open>The parts of the context that the handler of another radio reads.\<close>

definition shared_part :: "wifi_ctx \<Rightarrow> wifi_config list \<times> string list \<times> string list \<times> nl_res list \<times> (string \<Rightarrow> int) \<times> string list \<times> nat" where
  "shared_part w = (wifi_configs w, ifname w, phyname w, nl_results w, nametoindex w, freed w, radio_amount w)"

lemma shared_debugfs: "shared_part (snd (wifi_debugfs_init i w)) = shared_part w"
  by (simp add: shared_part_def wifi_debugfs_init_def Let_def split: option.split)

lemma shared_step: "shared_part (cmd_upd i c (if b then set_params i cfg w else w)) = shared_part w"
  by (simp add: shared_part_def cmd_upd_def set_params_def)

lemma access_point_up:
  assumes "elem (wifi_configs w) i = Ret cfg" "mode_str cfg = ''ap''" "cmd_ctl i w = Some c" "live c w" "card_ready i cfg w"
    and "sock_in c = ap_answers ds bs" "ap_script ds bs"
  obtains w' c' where "init_handler i w = Ret (IF_INIT_STAGE_1, w')" "shared_part w' = shared_part w"
    "wpa_ctx w' = (wpa_ctx w)[i := (wpa_ctx w ! i)\<lparr>wx_ctrl := Some c'\<rparr>]" "ctrl_dest c' = ctrl_dest c"
    "requests c' = requests c @ [''REMOVE_NETWORK all'', ''ADD_NETWORK''] @ take (asked bs) (ap_setup ds cfg)"
    "nl_in w' = (if hd bs then drop 3 (nl_in w) else nl_in w)"
    "nl_out w' = nl_out w @ (if hd bs then card_requests i cfg w else [])"
proof -
  define u where "u = snd (wifi_debugfs_init i w)"
  have u: "elem (wifi_configs u) i = Ret cfg" "cmd_ctl i u = Some c" "live c u" "card_ready i cfg u"
    "card_requests i cfg u = card_requests i cfg w" "nl_out u = nl_out w" "wpa_ctx u = wpa_ctx w" "nl_in u = nl_in w"
    "shared_part u = shared_part w"
    using assms(1,3-5) by (simp_all add: u_def debugfs_init_frame debugfs_init_fields shared_debugfs)
  have s: "length bs = 6" "ds \<noteq> []" "length ds \<le> 3" "list_all (is_base_digit 10) ds" using assms(7) by (simp_all add: ap_script_def)
  define c2 where "c2 = c\<lparr>sock_in := map (\<lambda>b. Datagram (answer b)) (drop (asked bs) bs),
      requests := requests c @ [''REMOVE_NETWORK all'', ''ADD_NETWORK''] @ take (asked bs) (ap_setup ds cfg)\<rparr>"
  define v where "v = cmd_upd i c2 (if hd bs then set_params i cfg u else u)"
  note run = create_ap_commands [OF u(2,3,1,4) assms(6) [unfolded ap_answers_def] s, folded c2_def, folded v_def]
  have v: "shared_part v = shared_part u" "wpa_ctx v = (wpa_ctx u)[i := (wpa_ctx u ! i)\<lparr>wx_ctrl := Some c2\<rparr>]"
    "nl_in v = (if hd bs then drop 3 (nl_in u) else nl_in u)"
    unfolding v_def by (rule shared_step) (simp_all add: cmd_upd_def set_params_def)
  have "init_handler i w = Ret (IF_INIT_STAGE_1, v)"
    using init_handler_mode(1) [OF assms(1,2)] run(1) by (simp add: u_def)
  then show thesis by (rule that [where c' = c2]) (use u v run(3) in \<open>simp_all add: c2_def\<close>)
qed

text \<open>The settings of a card that it accepts.\<close>

definition card_range :: "wifi_config \<Rightarrow> bool" where
  "card_range cfg = (\<bar>wc_tx_power cfg\<bar> \<le> 1000 \<and> 0 \<le> wc_distance cfg \<and> wc_distance cfg \<le> 114750)"

lemma strtol_show_nat: "p < 10 \<Longrightarrow> snd (strtol 10 (show_nat p)) = False"
  using strtol_show_int [of "[]" "int p"] by (simp add: no_digit_first_def show_int_def)

lemma radio_ready:
  assumes "wpa_ctx w ! i = attached p k path evs" "i < length (wpa_ctx w)" "freed w = []" "i < length (ifname w)" "i < length (phyname w)"
    and "phyname w ! i = show_nat n" "n < 10" "nl_results w = []" "take 3 (nl_in w) = replicate 3 NlAck" "card_range cfg"
  shows "cmd_ctl i w = Some (ctrl_at p (k + 1) path evs)" "live (ctrl_at p (k + 1) path evs) w" "card_ready i cfg w"
  using assms strtol_show_nat [of n] by (simp_all add: cmd_ctl_def live_def attached_def card_ready_def card_range_def)

text \<open>What the command connection of a radio was asked, and where it leads to.\<close>

definition asked_of :: "nat \<Rightarrow> wifi_ctx \<Rightarrow> (string \<times> string list) option" where
  "asked_of i w = map_option (\<lambda>c. (ctrl_dest c, requests c)) (cmd_ctl i w)"

lemma attached_not_mon [simp]: "wx_monitor (attached p k path evs) = Some ((ctrl_at p (k + 2) path [])\<lparr>requests := [''ATTACH'']\<rparr>)"
  by (simp add: attached_def)

lemma two_access_points:
  assumes "radio_amount w = 2" "length (wifi_states w) = 2" "wifi_configs w = [cfg0, cfg1]" "length (ifname w) = 2"
    and "phyname w = [show_nat p0, show_nat p1]" "p0 < 10" "p1 < 10" "nl_results w = []" "freed w = []" "nl_in w = replicate 6 NlAck"
    and "wpa_ctx w = [attached p 0 path0 (ap_answers ds0 bs0), attached p 2 path1 (ap_answers ds1 bs1)]"
    and "mode_str cfg0 = ''ap''" "mode_str cfg1 = ''ap''" "card_range cfg0" "card_range cfg1" "ap_script ds0 bs0" "ap_script ds1 bs1"
  obtains l v where "\<not> lp_init l" "\<forall>n. wifi_events (n + 3) junk junk4 w = wifi_events_loop n junk junk4 l v"
    "wifi_states v = [IF_INIT_STAGE_1, IF_INIT_STAGE_1]" "connected v"
    "asked_of 0 v = Some (path0, [''REMOVE_NETWORK all'', ''ADD_NETWORK''] @ take (asked bs0) (ap_setup ds0 cfg0))"
    "asked_of 1 v = Some (path1, [''REMOVE_NETWORK all'', ''ADD_NETWORK''] @ take (asked bs1) (ap_setup ds1 cfg1))"
    "nl_out v = nl_out w @ (if hd bs0 then card_requests 0 cfg0 w else []) @ (if hd bs1 then card_requests 1 cfg1 w else [])"
proof -
  let ?a = "w\<lparr>wifi_states := [INIT_STATE, INIT_STATE]\<rparr>"
  have a: "elem (wifi_configs ?a) 0 = Ret cfg0" using assms(3) by simp
  have ra: "cmd_ctl 0 ?a = Some (ctrl_at p (0 + 1) path0 (ap_answers ds0 bs0))" "live (ctrl_at p (0 + 1) path0 (ap_answers ds0 bs0)) ?a"
    "card_ready 0 cfg0 ?a"
    by (rule radio_ready [of ?a 0 p 0 path0 "ap_answers ds0 bs0" p0]; use assms in \<open>simp add: numeral_3_eq_3\<close>)+
  obtain w1 c0 where h0: "init_handler 0 ?a = Ret (IF_INIT_STAGE_1, w1)" and s1: "shared_part w1 = shared_part ?a"
    and x1: "wpa_ctx w1 = (wpa_ctx ?a)[0 := (wpa_ctx ?a ! 0)\<lparr>wx_ctrl := Some c0\<rparr>]" and d0: "ctrl_dest c0 = ctrl_dest (ctrl_at p (0 + 1) path0 (ap_answers ds0 bs0))"
    and q0: "requests c0 = requests (ctrl_at p (0 + 1) path0 (ap_answers ds0 bs0)) @ [''REMOVE_NETWORK all'', ''ADD_NETWORK''] @ take (asked bs0) (ap_setup ds0 cfg0)"
    and i1: "nl_in w1 = (if hd bs0 then drop 3 (nl_in ?a) else nl_in ?a)"
    and o1: "nl_out w1 = nl_out ?a @ (if hd bs0 then card_requests 0 cfg0 ?a else [])"
    by (rule access_point_up [OF a assms(12) ra ctrl_at_fields(3) assms(16)])
  let ?b = "w1\<lparr>wifi_states := [IF_INIT_STAGE_1, INIT_STATE]\<rparr>"
  have f1: "wifi_configs w1 = [cfg0, cfg1]" "ifname w1 = ifname w" "phyname w1 = phyname w" "nl_results w1 = []" "freed w1 = []"
    "nametoindex w1 = nametoindex w" "radio_amount w1 = 2"
    using s1 assms(1,3,8,9) by (simp_all add: shared_part_def)
  have b: "elem (wifi_configs ?b) 1 = Ret cfg1" using f1(1) by simp
  have rb: "cmd_ctl 1 ?b = Some (ctrl_at p (2 + 1) path1 (ap_answers ds1 bs1))" "live (ctrl_at p (2 + 1) path1 (ap_answers ds1 bs1)) ?b"
    "card_ready 1 cfg1 ?b"
    by (rule radio_ready [of ?b 1 p 2 path1 "ap_answers ds1 bs1" p1]; use assms f1 x1 i1 in \<open>simp add: eval_nat_numeral\<close>)+
  obtain w2 c1 where h1: "init_handler 1 ?b = Ret (IF_INIT_STAGE_1, w2)" and s2: "shared_part w2 = shared_part ?b"
    and x2: "wpa_ctx w2 = (wpa_ctx ?b)[1 := (wpa_ctx ?b ! 1)\<lparr>wx_ctrl := Some c1\<rparr>]" and d1: "ctrl_dest c1 = ctrl_dest (ctrl_at p (2 + 1) path1 (ap_answers ds1 bs1))"
    and q1: "requests c1 = requests (ctrl_at p (2 + 1) path1 (ap_answers ds1 bs1)) @ [''REMOVE_NETWORK all'', ''ADD_NETWORK''] @ take (asked bs1) (ap_setup ds1 cfg1)"
    and o2: "nl_out w2 = nl_out ?b @ (if hd bs1 then card_requests 1 cfg1 ?b else [])"
    by (rule access_point_up [OF b assms(13) rb ctrl_at_fields(3) assms(17)])
  let ?v = "w2\<lparr>wifi_states := [IF_INIT_STAGE_1, IF_INIT_STAGE_1]\<rparr>"
  obtain l where l: "\<not> lp_init l" "\<forall>n. wifi_events (n + 3) junk junk4 w = wifi_events_loop n junk junk4 l ?v"
    using radios_start_in_order [OF assms(1,2) h0 h1, of junk junk4] by blast
  have x: "wpa_ctx w2 = [(attached p 0 path0 (ap_answers ds0 bs0))\<lparr>wx_ctrl := Some c0\<rparr>, (attached p 2 path1 (ap_answers ds1 bs1))\<lparr>wx_ctrl := Some c1\<rparr>]"
    using x1 x2 assms(11) by simp
  have f2: "freed w2 = []" "radio_amount w2 = 2" using s2 f1 by (simp_all add: shared_part_def)
  have "card_requests 0 cfg0 ?a = card_requests 0 cfg0 w" "card_requests 1 cfg1 ?b = card_requests 1 cfg1 w"
    using f1 by (simp_all add: card_requests_def)
  then have o: "nl_out ?v = nl_out w @ (if hd bs0 then card_requests 0 cfg0 w else []) @ (if hd bs1 then card_requests 1 cfg1 w else [])"
    using o1 o2 by simp
  show thesis
    by (rule that [OF l _ _ _ _ o]) (use x f2 d0 d1 q0 q1 in \<open>simp_all add: connected_def WIFI_RADIO_MAX_def asked_of_def cmd_ctl_def\<close>)
qed

end
