(* ===== verification/WifiSystem.thy ===== *)
theory WifiSystem
  imports RadioMgr WifiUp
begin

text \<open>
  WiFi from the option of the manager to two access points: the loader of the configuration files, the
  opening of the HAL, the thread of the event loop and its initial handlers, composed.
\<close>

section \<open>The manager\<close>

text \<open>The file of an access point, with settings of the card that it accepts.\<close>

definition ap_radio :: "mgr_env \<Rightarrow> string \<Rightarrow> (string \<times> string) list \<Rightarrow> string \<Rightarrow> string \<Rightarrow> string \<Rightarrow> bool" where
  "ap_radio env f kvs s fr k = (e_files env f = Some (mapping_tokens kvs) \<and> file_name_ok f \<and> ap_file kvs s fr k
     \<and> card_range (load_wifi kvs wifi_config_zero))"

lemma ap_radio_config:
  assumes "ap_radio env f kvs s fr k"
  defines "cfg \<equiv> load_wifi kvs wifi_config_zero"
  shows "mode_str cfg = ''ap''" "card_range cfg" "[''REMOVE_NETWORK all'', ''ADD_NETWORK''] @ take n (ap_setup ds cfg) = take (2 + n) (ap_commands ds s fr k)"
    "e_files env f = Some (mapping_tokens kvs)" "file_name_ok f" "all_safe kvs"
proof -
  have a: "ap_file kvs s fr k" using assms(1) by (simp add: ap_radio_def)
  then have f: "wifi_file_ok kvs" by (simp add: ap_file_def)
  have fields: "mode_str cfg = ''ap''" "ssid_str cfg = s" "freq_str cfg = fr" "key_str cfg = k"
    using file_fields [OF f] a by (simp_all add: ap_file_def cfg_def)
  show "mode_str cfg = ''ap''" by (rule fields(1))
  show "[''REMOVE_NETWORK all'', ''ADD_NETWORK''] @ take n (ap_setup ds cfg) = take (2 + n) (ap_commands ds s fr k)"
    by (simp add: ap_setup_def ap_commands_def Let_def fields)
  show "card_range cfg" "e_files env f = Some (mapping_tokens kvs)" "file_name_ok f" "all_safe kvs"
    using assms(1) f by (simp_all add: ap_radio_def cfg_def wifi_file_ok_def)
qed

lemma two_radios_started:
  assumes "attach_works (e_attach env)" "e_thread_ok env" "3 \<le> argc" "ap_radio env f0 (kvs f0) s0 fr0 k0" "ap_radio env f1 (kvs f1) s1 fr1 k1"
  defines "cfgs \<equiv> [load_wifi (kvs f0) wifi_config_zero, load_wifi (kvs f1) wifi_config_zero]"
  assumes "wifi_hal_open ((e_wifi env)\<lparr>wifi_configs := cfgs\<rparr>) = Ret (0, w)"
  shows "radio_mgmr_main env argc [OptWifi (file_args [f0, f1])] = Ret (0, [Some (WifiThread w)])"
proof -
  have "wifi_loaded env kvs [f0, f1] = (e_wifi env)\<lparr>wifi_configs := cfgs\<rparr>"
    by (simp add: wifi_loaded_def cfgs_def WIFI_RADIO_MAX_def upt_rec)
  moreover have "wifi_files env kvs [f0, f1]"
    using ap_radio_config [OF assms(4)] ap_radio_config [OF assms(5)] by (simp add: wifi_files_def)
  ultimately show ?thesis
    using wifi_thread_started [OF assms(1), of kvs "[f0, f1]" 0 w argc "[]"] assms(2,3,7) by simp
qed

section \<open>Two access points\<close>

text \<open>
  C28: from the option of the manager to two access points: for two files that give an access point
  each, two interfaces of which the second is not named by a prefix of the first, and a system that lets
  the process connect, the manager starts one wpa_supplicant for each interface and its thread; the
  event loop of the thread then asks each wpa_supplicant over the socket of its own interface exactly
  for the network of its own file, in the order of the bring-up and up to the first refusal, sends
  the card the settings of that radio once the mode was accepted, and waits for messages with
  both radios in their first stage, whatever was refused.
\<close>

theorem wifi_from_files_to_access_points:
  assumes "attach_works (e_attach env)" "e_thread_ok env" "3 \<le> argc" "ap_radio env f0 (kvs f0) s0 fr0 k0" "ap_radio env f1 (kvs f1) s1 fr1 k1"
    and "fresh_wifi (e_wifi env)" "radio_names n0 n1"
    and "nl_in (e_wifi env) = iface n0 i0 p0 # iface n1 i1 p1 # NlFinish # replicate 6 NlAck"
    and "0 < i0" "i0 < 2 ^ 31" "0 < i1" "i1 < 2 ^ 31" "p0 < 10" "p1 < 10"
    and "new_ctrls (e_wifi env) = [(e0, ap_answers ds0 bs0), (m0, [Datagram (answer True)]),
      (e1, ap_answers ds1 bs1), (m1, [Datagram (answer True)])]"
    and "list_all (usable p) [e0, m0, e1, m1]" "0 \<le> p" "p < 10 ^ 7" "ap_script ds0 bs0" "ap_script ds1 bs1"
  shows "\<exists>w l v. radio_mgmr_main env argc [OptWifi (file_args [f0, f1])] = Ret (0, [Some (WifiThread w)])
    \<and> shell_cmds w = shell_cmds (e_wifi env) @ [rm_cmd n0, supplicant_cmd n0, rm_cmd n1, supplicant_cmd n1]
    \<and> (\<forall>n. wifi_events (n + 3) junk junk4 w = wifi_events_loop n junk junk4 l v)
    \<and> \<not> lp_init l \<and> connected v \<and> wifi_states v = [IF_INIT_STAGE_1, IF_INIT_STAGE_1]
    \<and> asked_of 0 v = Some (sock_of n0, take (2 + asked bs0) (ap_commands ds0 s0 fr0 k0))
    \<and> asked_of 1 v = Some (sock_of n1, take (2 + asked bs1) (ap_commands ds1 s1 fr1 k1))
    \<and> nl_out v = nl_out w @ (if hd bs0 then card_requests 0 (load_wifi (kvs f0) wifi_config_zero) w else [])
        @ (if hd bs1 then card_requests 1 (load_wifi (kvs f1) wifi_config_zero) w else [])"
proof -
  define cfgs where "cfgs = [load_wifi (kvs f0) wifi_config_zero, load_wifi (kvs f1) wifi_config_zero]"
  let ?w0 = "(e_wifi env)\<lparr>wifi_configs := cfgs\<rparr>"
  have w0: "fresh_wifi ?w0" "nl_in ?w0 = iface n0 i0 p0 # iface n1 i1 p1 # NlFinish # replicate 6 NlAck"
    "new_ctrls ?w0 = [(e0, ap_answers ds0 bs0), (m0, [Datagram (answer True)]), (e1, ap_answers ds1 bs1), (m1, [Datagram (answer True)])]"
    using assms(6,8,15) by (simp_all add: fresh_wifi_def)
  obtain fw sl where "wifi_hal_open ?w0 = Ret (0, ?w0\<lparr>ifname := [n0, n1], phyname := [show_nat p0, show_nat p1], ifindex := [int i0, int i1],
    radio_amount := 2, nl_in := replicate 6 NlAck, nl_out := nl_out ?w0 @ [GetInterface], files_written := fw,
    shell_cmds := shell_cmds ?w0 @ [rm_cmd n0, supplicant_cmd n0, rm_cmd n1, supplicant_cmd n1],
    wpa_ctx := [attached p 0 (sock_of n0) (ap_answers ds0 bs0), attached p 2 (sock_of n1) (ap_answers ds1 bs1)],
    new_ctrls := [], ctrl_counter := 4, sys_log := sl\<rparr>)"
    by (rule two_radios_open [OF w0(1) assms(7) w0(2) assms(9-14) w0(3) assms(16-18)])
  then obtain w where op: "wifi_hal_open ?w0 = Ret (0, w)" and shell: "shell_cmds w = shell_cmds (e_wifi env) @ [rm_cmd n0, supplicant_cmd n0, rm_cmd n1, supplicant_cmd n1]"
    and w: "radio_amount w = 2" "length (wifi_states w) = 2" "wifi_configs w = cfgs" "length (ifname w) = 2" "phyname w = [show_nat p0, show_nat p1]"
      "nl_results w = []" "freed w = []" "nl_in w = replicate 6 NlAck"
      "wpa_ctx w = [attached p 0 (sock_of n0) (ap_answers ds0 bs0), attached p 2 (sock_of n1) (ap_answers ds1 bs1)]"
    using assms(6) by (simp add: fresh_wifi_def)
  note main = two_radios_started [OF assms(1-5) op [unfolded cfgs_def]]
  note r0 = ap_radio_config [OF assms(4)] and r1 = ap_radio_config [OF assms(5)]
  obtain l v where "\<not> lp_init l" "\<forall>n. wifi_events (n + 3) junk junk4 w = wifi_events_loop n junk junk4 l v"
    "wifi_states v = [IF_INIT_STAGE_1, IF_INIT_STAGE_1]" "connected v"
    "asked_of 0 v = Some (sock_of n0, [''REMOVE_NETWORK all'', ''ADD_NETWORK''] @ take (asked bs0) (ap_setup ds0 (load_wifi (kvs f0) wifi_config_zero)))"
    "asked_of 1 v = Some (sock_of n1, [''REMOVE_NETWORK all'', ''ADD_NETWORK''] @ take (asked bs1) (ap_setup ds1 (load_wifi (kvs f1) wifi_config_zero)))"
    "nl_out v = nl_out w @ (if hd bs0 then card_requests 0 (load_wifi (kvs f0) wifi_config_zero) w else [])
      @ (if hd bs1 then card_requests 1 (load_wifi (kvs f1) wifi_config_zero) w else [])"
    by (rule two_access_points [where junk = junk and ?junk4.0 = junk4, OF w(1,2) w(3) [unfolded cfgs_def] w(4,5) assms(13,14) w(6-9) r0(1) r1(1) r0(2) r1(2) assms(19,20)])
  then show ?thesis using main shell unfolding r0(3) r1(3)
    by (intro exI [of _ w] exI [of _ l] exI [of _ v]) simp
qed

section \<open>Two radios of which one refuses the passphrase\<close>

definition wifi_env0 :: mgr_env where
  "wifi_env0 = env0\<lparr>e_files := (\<lambda>_. Some (mapping_tokens (example_file ''ap''))),
     e_wifi := (wifi_ctx0 (iface ''wlan0'' 3 0 # iface ''wlan1'' 4 1 # NlFinish # replicate 6 NlAck))\<lparr>new_ctrls :=
       [(open_env0, ap_answers ''0'' [True, True, True, True, True, True]), (open_env0, [Datagram (answer True)]),
        (open_env0, ap_answers ''0'' [True, True, True, True, False, True]), (open_env0, [Datagram (answer True)])]\<rparr>\<rparr>"

theorem wifi_from_files_to_access_points_witness:
  "\<exists>w l v. radio_mgmr_main wifi_env0 3 [OptWifi (file_args [''a.yaml'', ''b.yaml''])] = Ret (0, [Some (WifiThread w)])
    \<and> wifi_events (1 + 3) [] [] w = wifi_events_loop 1 [] [] l v \<and> wifi_states v = [IF_INIT_STAGE_1, IF_INIT_STAGE_1]
    \<and> asked_of 0 v = Some (sock_of ''wlan0'', ap_commands ''0'' ''net1'' ''2412'' ''pass-word'')
    \<and> asked_of 1 v = Some (sock_of ''wlan1'', butlast (ap_commands ''0'' ''net1'' ''2412'' ''pass-word''))"
proof -
  have ap: "''ap'' \<in> {''ap'', ''sta'', ''mesh''}" by simp
  have r: "ap_radio wifi_env0 f ((\<lambda>_. example_file ''ap'') f) ''net1'' ''2412'' ''pass-word''" if "file_name_ok f" for f
    using that example_files [OF ap] example_card [of "''ap''"] by (simp add: ap_radio_def ap_file_def wifi_env0_def card_range_def)
  have n: "file_name_ok ''a.yaml''" "file_name_ok ''b.yaml''" by (simp_all add: file_name_ok_def)
  have a: "attach_works (e_attach wifi_env0)" "e_thread_ok wifi_env0" "(3 :: nat) \<le> 3"
    by (simp_all add: wifi_env0_def env0_def attach_works_def reaches_cbs_def)
  have w: "fresh_wifi (e_wifi wifi_env0)" "radio_names ''wlan0'' ''wlan1''"
    "nl_in (e_wifi wifi_env0) = iface ''wlan0'' 3 0 # iface ''wlan1'' 4 1 # NlFinish # replicate 6 NlAck"
    "new_ctrls (e_wifi wifi_env0) = [(open_env0, ap_answers ''0'' [True, True, True, True, True, True]), (open_env0, [Datagram (answer True)]),
        (open_env0, ap_answers ''0'' [True, True, True, True, False, True]), (open_env0, [Datagram (answer True)])]"
    "list_all (usable 7) [open_env0, open_env0, open_env0, open_env0]"
    by (simp_all add: wifi_env0_def fresh_wifi_def wifi_ctx0_def radio_names_def RADIO_IFNAME_SIZE_def starts_with_def usable_def open_env0_def)
  have s: "ap_script ''0'' [True, True, True, True, True, True]" "ap_script ''0'' [True, True, True, True, False, True]"
    by (simp_all add: ap_script_def is_base_digit_def digit_of_def)
  have i: "(0 :: nat) < 3" "(3 :: nat) < 2 ^ 31" "(0 :: nat) < 4" "(4 :: nat) < 2 ^ 31" "(0 :: nat) < 10" "(1 :: nat) < 10" "(0 :: int) \<le> 7" "(7 :: int) < 10 ^ 7"
    by simp_all
  have c: "take (2 + asked [True, True, True, True, True, True]) (ap_commands ''0'' ''net1'' ''2412'' ''pass-word'') = ap_commands ''0'' ''net1'' ''2412'' ''pass-word''"
    "take (2 + asked [True, True, True, True, False, True]) (ap_commands ''0'' ''net1'' ''2412'' ''pass-word'') = butlast (ap_commands ''0'' ''net1'' ''2412'' ''pass-word'')"
    by (simp_all add: ap_commands_def)
  note t = wifi_from_files_to_access_points [OF a r [OF n(1)] r [OF n(2)] w(1-3) i(1-6) w(4,5) i(7,8) s, of "[]" "[]"]
  show ?thesis using t unfolding c by blast
qed

end
