(* ===== verification/ModemSystem.thy ===== *)
theory ModemSystem
  imports RadioMgr ConfigFile
begin

text \<open>
  The modem from the option of the manager to the network: the loader of the configuration file, the
  attaching of the modem over the serial port, the thread of the event loop and the connection,
  composed.
\<close>

section \<open>The manager\<close>



section \<open>The event loop\<close>






section \<open>A SIM with a PIN\<close>






end
