(* ===== verification/AtHeap.thy ===== *)
theory AtHeap
  imports AtChannel
begin

text \<open>
  The response of the AT channel as it lies in memory: the linked list of \<open>ATLine\<close> cells of
  src/src/modem/at/atchannel.h and the functions of atchannel.c that allocate it, add to it, turn it
  round in place and free it. They refine the functions of AtChannel, which work on lists.
\<close>

section \<open>Memory\<close>

text \<open>Cells: a string, an \<open>ATLine\<close> with \<open>p_next\<close> and \<open>line\<close>, an \<open>ATResponse\<close>. Allocations succeed,
  each at an address that was never used.\<close>

datatype cell = Str string | Line "nat option" nat | Resp int "nat option" "nat option"

record heap =
  cells :: "nat \<Rightarrow> cell option"
  fresh :: nat

definition hp_new :: "cell \<Rightarrow> heap \<Rightarrow> nat \<times> heap" where
  "hp_new c h = (fresh h, \<lparr>cells = (cells h)(fresh h \<mapsto> c), fresh = fresh h + 1\<rparr>)"

definition hp_set :: "nat \<Rightarrow> cell \<Rightarrow> heap \<Rightarrow> heap" where
  "hp_set a c h = h\<lparr>cells := (cells h)(a \<mapsto> c)\<rparr>"

definition hp_free :: "nat option \<Rightarrow> heap \<Rightarrow> heap outcome" where
  "hp_free p h = (case p of
       None \<Rightarrow> Ret h
     | Some a \<Rightarrow> if cells h a = None then Fault UseAfterFree else Ret (h\<lparr>cells := (cells h)(a := None)\<rparr>))"

definition rd_resp :: "nat option \<Rightarrow> heap \<Rightarrow> (nat \<times> int \<times> nat option \<times> nat option) outcome" where
  "rd_resp p h = (case p of
       None \<Rightarrow> Fault NullDeref
     | Some a \<Rightarrow> (case cells h a of Some (Resp s f l) \<Rightarrow> Ret (a, s, f, l) | _ \<Rightarrow> Fault UseAfterFree))"

section \<open>The functions\<close>

definition at_response_new_mem :: "heap \<Rightarrow> nat \<times> heap" where
  "at_response_new_mem h = hp_new (Resp 0 None None) h"

definition addIntermediate_mem :: "nat option \<Rightarrow> string \<Rightarrow> heap \<Rightarrow> heap outcome" where
  "addIntermediate_mem sp line h =
     (case hp_new (Str line) h of (l, h1) \<Rightarrow>
        obind (rd_resp sp h1) (\<lambda>(r, s, f, ls).
          case hp_new (Line ls l) h1 of (p_new, h2) \<Rightarrow> Ret (hp_set r (Resp s f (Some p_new)) h2)))"

definition handleFinalResponse_mem :: "nat option \<Rightarrow> string \<Rightarrow> heap \<Rightarrow> heap outcome" where
  "handleFinalResponse_mem sp line h =
     (case hp_new (Str line) h of (l, h1) \<Rightarrow>
        obind (rd_resp sp h1) (\<lambda>(r, s, f, ls). Ret (hp_set r (Resp s (Some l) ls) h1)))"

text \<open>The two loops follow the pointers of the list, which may lead round in a circle: None is not returning.\<close>

partial_function (option) reverse_loop :: "nat option \<Rightarrow> nat option \<Rightarrow> heap \<Rightarrow> (nat option \<times> heap) outcome option" where
  "reverse_loop pcur done_lines h = (case pcur of
       None \<Rightarrow> Some (Ret (done_lines, h))
     | Some a \<Rightarrow> (case cells h a of
         Some (Line pnext l) \<Rightarrow> reverse_loop pnext (Some a) (hp_set a (Line done_lines l) h)
       | _ \<Rightarrow> Some (Fault UseAfterFree)))"

definition reverseIntermediates_mem :: "nat option \<Rightarrow> heap \<Rightarrow> heap outcome option" where
  "reverseIntermediates_mem p_response h = (case rd_resp p_response h of
       Ret (r, s, f, ls) \<Rightarrow> map_option (\<lambda>x. obind x (\<lambda>(ls', h'). Ret (hp_set r (Resp s f ls') h')))
         (reverse_loop ls None h)
     | Fault e \<Rightarrow> Some (Fault e)
     | Blocked \<Rightarrow> Some Blocked)"

partial_function (option) free_loop :: "nat option \<Rightarrow> heap \<Rightarrow> heap outcome option" where
  "free_loop p_line h = (case p_line of
       None \<Rightarrow> Some (Ret h)
     | Some a \<Rightarrow> (case cells h a of
         Some (Line pnext l) \<Rightarrow> (case obind (hp_free (Some l) h) (hp_free (Some a)) of
             Ret h' \<Rightarrow> free_loop pnext h' | Fault e \<Rightarrow> Some (Fault e) | Blocked \<Rightarrow> Some Blocked)
       | _ \<Rightarrow> Some (Fault UseAfterFree)))"

definition at_response_free :: "nat option \<Rightarrow> heap \<Rightarrow> heap outcome option" where
  "at_response_free p_response h = (case p_response of
       None \<Rightarrow> Some (Ret h)
     | Some _ \<Rightarrow> (case rd_resp p_response h of
         Ret (r, s, f, ls) \<Rightarrow> map_option (\<lambda>x. obind x (\<lambda>h'. obind (hp_free f h') (hp_free (Some r)))) (free_loop ls h)
       | Fault e \<Rightarrow> Some (Fault e)
       | Blocked \<Rightarrow> Some Blocked))"

section \<open>A response in memory\<close>

text \<open>The list from a pointer on: for each line the address of its cell, of its string, and the string.\<close>

fun chain :: "heap \<Rightarrow> nat option \<Rightarrow> (nat \<times> nat \<times> string) list \<Rightarrow> bool" where
  "chain h p [] = (p = None)"
| "chain h p ((a, l, x) # ns) = (p = Some a \<and> cells h l = Some (Str x) \<and>
     (\<exists>nxt. cells h a = Some (Line nxt l) \<and> chain h nxt ns))"

definition addrs :: "(nat \<times> nat \<times> string) list \<Rightarrow> nat list" where
  "addrs ns = concat (map (\<lambda>(a, l, _). [a, l]) ns)"

lemma addrs_simps [simp]: "addrs [] = []" "addrs ((a, l, x) # ns) = a # l # addrs ns"
  "addrs (ms @ ns) = addrs ms @ addrs ns"
  by (simp_all add: addrs_def)

lemma addrs_Cons: "addrs (n # ns) = fst n # fst (snd n) # addrs ns"
  by (cases n) simp

lemma addrs_rev: "set (addrs (rev ns)) = set (addrs ns)" "distinct (addrs (rev ns)) = distinct (addrs ns)"
proof -
  show s: "set (addrs (rev ns)) = set (addrs ns)" for ns
    by (induction ns) (auto simp: addrs_Cons)
  show "distinct (addrs (rev ns)) = distinct (addrs ns)"
    by (induction ns) (auto simp: addrs_Cons s)
qed

definition texts :: "(nat \<times> nat \<times> string) list \<Rightarrow> string list" where
  "texts ns = map (\<lambda>(_, _, x). x) ns"

lemma texts_simps [simp]: "texts [] = []" "texts ((a, l, x) # ns) = x # texts ns"
  "texts (ms @ ns) = texts ms @ texts ns" "texts (rev ns) = rev (texts ns)"
  by (simp_all add: texts_def rev_map)

text \<open>The addresses of a response, none used twice and none still to be given out.\<close>

definition holds_resp :: "heap \<Rightarrow> nat \<Rightarrow> at_response \<Rightarrow> nat list \<Rightarrow> bool" where
  "holds_resp h r resp as = (\<exists>f ls ns. cells h r = Some (Resp (success resp) f ls) \<and>
     (case finalResponse resp of None \<Rightarrow> f = None | Some t \<Rightarrow> \<exists>b. f = Some b \<and> cells h b = Some (Str t)) \<and>
     chain h ls ns \<and> texts ns = p_intermediates resp \<and>
     as = r # (case f of None \<Rightarrow> [] | Some b \<Rightarrow> [b]) @ addrs ns \<and> distinct as \<and> (\<forall>a \<in> set as. a < fresh h))"

lemma chain_frame: "chain h p ns \<Longrightarrow> (\<And>a. a \<in> set (addrs ns) \<Longrightarrow> cells h' a = cells h a) \<Longrightarrow> chain h' p ns"
  by (induction ns arbitrary: p) auto

lemma chain_set [simp]: "a \<notin> set (addrs ns) \<Longrightarrow> chain h p ns \<Longrightarrow> chain (hp_set a c h) p ns"
  by (erule chain_frame) (auto simp: hp_set_def)

text \<open>Turning round: the cells are the same, the pointers between them are new.\<close>

lemma reverse_loop_chain:
  assumes "chain h p ns" "chain h q ms" "distinct (addrs (ns @ ms))"
  shows "\<exists>q' h'. reverse_loop p q h = Some (Ret (q', h')) \<and> chain h' q' (rev ns @ ms) \<and>
    (\<forall>a. a \<notin> set (addrs ns) \<longrightarrow> cells h' a = cells h a) \<and> fresh h' = fresh h"
  using assms
proof (induction ns arbitrary: p q h ms)
  case Nil
  then show ?case by (subst reverse_loop.simps) auto
next
  case (Cons n ns)
  obtain a l x where n: "n = (a, l, x)" by (cases n)
  from Cons.prems n obtain nxt where c: "p = Some a" "cells h l = Some (Str x)" "cells h a = Some (Line nxt l)" "chain h nxt ns"
    by auto
  let ?h = "hp_set a (Line q l) h"
  have d: "a \<notin> set (addrs ns)" "a \<notin> set (addrs ms)" "a \<noteq> l" "l \<notin> set (addrs ns)" "l \<notin> set (addrs ms)"
    using Cons.prems(3) n by auto
  have "chain ?h nxt ns" "chain ?h (Some a) ((a, l, x) # ms)"
    using c d Cons.prems(2) by (auto simp: hp_set_def intro: chain_frame)
  moreover have "distinct (addrs (ns @ (a, l, x) # ms))" using Cons.prems(3) n by auto
  ultimately obtain q' h' where "reverse_loop nxt (Some a) ?h = Some (Ret (q', h'))" "chain h' q' (rev ns @ (a, l, x) # ms)"
    "\<forall>b. b \<notin> set (addrs ns) \<longrightarrow> cells h' b = cells ?h b" "fresh h' = fresh ?h"
    using Cons.IH by blast
  with c n show ?case by (subst reverse_loop.simps) (auto simp: hp_set_def)
qed

text \<open>Freeing: exactly the cells of the list are gone.\<close>

lemma free_loop_chain:
  assumes "chain h p ns" "distinct (addrs ns)"
  shows "free_loop p h = Some (Ret (h\<lparr>cells := (\<lambda>a. if a \<in> set (addrs ns) then None else cells h a)\<rparr>))"
  using assms
proof (induction ns arbitrary: p h)
  case Nil
  then show ?case by (subst free_loop.simps) simp
next
  case (Cons n ns)
  obtain a l x where n: "n = (a, l, x)" by (cases n)
  from Cons.prems n obtain nxt where c: "p = Some a" "cells h l = Some (Str x)" "cells h a = Some (Line nxt l)" "chain h nxt ns"
    by auto
  let ?h = "h\<lparr>cells := (cells h)(l := None, a := None)\<rparr>"
  have "a \<noteq> l" using Cons.prems(2) n by simp
  then have f: "obind (hp_free (Some l) h) (hp_free (Some a)) = Ret ?h" using c by (simp add: hp_free_def)
  have "chain ?h nxt ns" using c(4) Cons.prems(2) n by (auto intro: chain_frame)
  from Cons.IH [OF this] Cons.prems(2) n c f show ?case
    by (subst free_loop.simps) (auto simp: fun_eq_iff)
qed

section \<open>Refinement\<close>

lemma holds_respD:
  assumes "holds_resp h r resp as"
  obtains f ls ns where "cells h r = Some (Resp (success resp) f ls)"
    "case finalResponse resp of None \<Rightarrow> f = None | Some t \<Rightarrow> \<exists>b. f = Some b \<and> cells h b = Some (Str t)"
    "chain h ls ns" "texts ns = p_intermediates resp" "as = r # (case f of None \<Rightarrow> [] | Some b \<Rightarrow> [b]) @ addrs ns"
    "distinct as" "\<forall>a \<in> set as. a < fresh h" "\<forall>b. f = Some b \<longrightarrow> b \<noteq> r \<and> b \<notin> set (addrs ns) \<and> b < fresh h"
    "r \<notin> set (addrs ns)" "r < fresh h" "\<forall>a \<in> set (addrs ns). a < fresh h" "distinct (addrs ns)"
proof -
  from assms obtain f ls ns where h: "cells h r = Some (Resp (success resp) f ls)"
    "case finalResponse resp of None \<Rightarrow> f = None | Some t \<Rightarrow> \<exists>b. f = Some b \<and> cells h b = Some (Str t)"
    "chain h ls ns" "texts ns = p_intermediates resp" "as = r # (case f of None \<Rightarrow> [] | Some b \<Rightarrow> [b]) @ addrs ns"
    "distinct as" "\<forall>a \<in> set as. a < fresh h" unfolding holds_resp_def by blast
  moreover have "\<forall>b. f = Some b \<longrightarrow> b \<noteq> r \<and> b \<notin> set (addrs ns) \<and> b < fresh h" "r \<notin> set (addrs ns)" "r < fresh h"
    "\<forall>a \<in> set (addrs ns). a < fresh h" "distinct (addrs ns)"
    using h(5-7) by (auto split: option.splits)
  ultimately show thesis by (rule that)
qed

lemma new_holds: "at_response_new_mem h = (r, h') \<Longrightarrow> holds_resp h' r at_response_new [r] \<and> r = fresh h \<and>
    cells h' = (cells h)(r \<mapsto> Resp 0 None None)"
  by (auto simp: at_response_new_mem_def hp_new_def holds_resp_def at_response_new_def intro!: exI [of _ "[]"])

lemma add_holds:
  assumes "holds_resp h r resp as"
  shows "\<exists>h' as'. addIntermediate_mem (Some r) x h = Ret h' \<and>
    holds_resp h' r (resp\<lparr>p_intermediates := x # p_intermediates resp\<rparr>) as' \<and>
    set as' = set as \<union> {fresh h, fresh h + 1} \<and> (\<forall>a. a \<notin> set as' \<longrightarrow> cells h' a = cells h a)"
proof -
  obtain f ls ns where h: "cells h r = Some (Resp (success resp) f ls)"
    "case finalResponse resp of None \<Rightarrow> f = None | Some t \<Rightarrow> \<exists>b. f = Some b \<and> cells h b = Some (Str t)"
    "chain h ls ns" "texts ns = p_intermediates resp" "as = r # (case f of None \<Rightarrow> [] | Some b \<Rightarrow> [b]) @ addrs ns"
    "distinct as" "\<forall>a \<in> set as. a < fresh h" "\<forall>b. f = Some b \<longrightarrow> b \<noteq> r \<and> b \<notin> set (addrs ns) \<and> b < fresh h"
    "r \<notin> set (addrs ns)" "r < fresh h" "\<forall>a \<in> set (addrs ns). a < fresh h" "distinct (addrs ns)"
    by (rule holds_respD [OF assms])
  let ?l = "fresh h" let ?a = "fresh h + 1"
  let ?h' = "\<lparr>cells = (cells h)(?l \<mapsto> Str x, ?a \<mapsto> Line ls ?l, r \<mapsto> Resp (success resp) f (Some ?a)), fresh = fresh h + 2\<rparr>"
  let ?ns = "(?a, ?l, x) # ns"
  let ?as = "r # (case f of None \<Rightarrow> [] | Some b \<Rightarrow> [b]) @ addrs ?ns"
  have m: "addIntermediate_mem (Some r) x h = Ret ?h'"
    using h(1,10) by (simp add: addIntermediate_mem_def hp_new_def rd_resp_def hp_set_def)
  have "chain ?h' ls ns" using h(3) by (rule chain_frame) (use h(9,11) in auto)
  then have "chain ?h' (Some ?a) ?ns" using h(10) by simp
  moreover have "case finalResponse resp of None \<Rightarrow> f = None | Some t \<Rightarrow> \<exists>b. f = Some b \<and> cells ?h' b = Some (Str t)"
    using h(2,8) by (auto split: option.splits)
  moreover have "distinct ?as" "\<forall>a \<in> set ?as. a < fresh ?h'"
    using h(8-12) by (auto split: option.splits)
  ultimately have "holds_resp ?h' r (resp\<lparr>p_intermediates := x # p_intermediates resp\<rparr>) ?as"
    unfolding holds_resp_def using h(4) by (intro exI [of _ f] exI [of _ "Some ?a"] exI [of _ ?ns]) simp
  moreover have "set ?as = set as \<union> {?l, ?a}" by (auto simp: h(5))
  ultimately show ?thesis using m by (intro exI [of _ ?h'] exI [of _ ?as]) auto
qed

lemma final_holds:
  assumes "holds_resp h r resp as" "finalResponse resp = None"
  shows "\<exists>h' as'. handleFinalResponse_mem (Some r) x h = Ret h' \<and> holds_resp h' r (resp\<lparr>finalResponse := Some x\<rparr>) as' \<and>
    set as' = set as \<union> {fresh h} \<and> (\<forall>a. a \<notin> set as' \<longrightarrow> cells h' a = cells h a)"
proof -
  obtain f ls ns where h: "cells h r = Some (Resp (success resp) f ls)"
    "case finalResponse resp of None \<Rightarrow> f = None | Some t \<Rightarrow> \<exists>b. f = Some b \<and> cells h b = Some (Str t)"
    "chain h ls ns" "texts ns = p_intermediates resp" "as = r # (case f of None \<Rightarrow> [] | Some b \<Rightarrow> [b]) @ addrs ns"
    "distinct as" "\<forall>a \<in> set as. a < fresh h" "\<forall>b. f = Some b \<longrightarrow> b \<noteq> r \<and> b \<notin> set (addrs ns) \<and> b < fresh h"
    "r \<notin> set (addrs ns)" "r < fresh h" "\<forall>a \<in> set (addrs ns). a < fresh h" "distinct (addrs ns)"
    by (rule holds_respD [OF assms(1)])
  have f: "f = None" using h(2) assms(2) by simp
  let ?l = "fresh h"
  let ?h' = "\<lparr>cells = (cells h)(?l \<mapsto> Str x, r \<mapsto> Resp (success resp) (Some ?l) ls), fresh = fresh h + 1\<rparr>"
  let ?as = "r # ?l # addrs ns"
  have m: "handleFinalResponse_mem (Some r) x h = Ret ?h'"
    using h(1,10) by (simp add: handleFinalResponse_mem_def hp_new_def rd_resp_def hp_set_def)
  have "chain ?h' ls ns" using h(3) by (rule chain_frame) (use h(9,11) in auto)
  moreover have "distinct ?as" "\<forall>a \<in> set ?as. a < fresh ?h'" using h(9-12) by auto
  ultimately have "holds_resp ?h' r (resp\<lparr>finalResponse := Some x\<rparr>) ?as"
    unfolding holds_resp_def using h(4,10) by (intro exI [of _ "Some ?l"] exI [of _ ls] exI [of _ ns]) simp
  moreover have "set ?as = set as \<union> {?l}" by (auto simp: h(5) f)
  ultimately show ?thesis using m by (intro exI [of _ ?h'] exI [of _ ?as]) auto
qed

lemma reverse_holds:
  assumes "holds_resp h r resp as"
  shows "\<exists>h' as'. reverseIntermediates_mem (Some r) h = Some (Ret h') \<and> holds_resp h' r (reverseIntermediates resp) as' \<and>
    set as' = set as \<and> (\<forall>a. a \<notin> set as \<longrightarrow> cells h' a = cells h a)"
proof -
  obtain f ls ns where h: "cells h r = Some (Resp (success resp) f ls)"
    "case finalResponse resp of None \<Rightarrow> f = None | Some t \<Rightarrow> \<exists>b. f = Some b \<and> cells h b = Some (Str t)"
    "chain h ls ns" "texts ns = p_intermediates resp" "as = r # (case f of None \<Rightarrow> [] | Some b \<Rightarrow> [b]) @ addrs ns"
    "distinct as" "\<forall>a \<in> set as. a < fresh h" "\<forall>b. f = Some b \<longrightarrow> b \<noteq> r \<and> b \<notin> set (addrs ns) \<and> b < fresh h"
    "r \<notin> set (addrs ns)" "r < fresh h" "\<forall>a \<in> set (addrs ns). a < fresh h" "distinct (addrs ns)"
    by (rule holds_respD [OF assms])
  obtain q h1 where l: "reverse_loop ls None h = Some (Ret (q, h1))" "chain h1 q (rev ns)"
    "\<forall>a. a \<notin> set (addrs ns) \<longrightarrow> cells h1 a = cells h a" "fresh h1 = fresh h"
    using reverse_loop_chain [OF h(3), of None "[]"] h(12) by auto
  let ?h' = "hp_set r (Resp (success resp) f q) h1"
  let ?as = "r # (case f of None \<Rightarrow> [] | Some b \<Rightarrow> [b]) @ addrs (rev ns)"
  note s = addrs_rev(1) [of ns]
  have m: "reverseIntermediates_mem (Some r) h = Some (Ret ?h')"
    using h(1) l(1) by (simp add: reverseIntermediates_mem_def rd_resp_def)
  have "chain ?h' q (rev ns)" using l(2) h(9) s by simp
  moreover have "case finalResponse resp of None \<Rightarrow> f = None | Some t \<Rightarrow> \<exists>b. f = Some b \<and> cells ?h' b = Some (Str t)"
    using h(2,8) l(3) by (auto simp: hp_set_def split: option.splits)
  moreover have "distinct ?as" "\<forall>a \<in> set ?as. a < fresh ?h'"
    using h(8-12) s l(4) by (auto simp: addrs_rev(2) hp_set_def split: option.splits)
  ultimately have "holds_resp ?h' r (reverseIntermediates resp) ?as"
    unfolding holds_resp_def using h(4)
    by (intro exI [of _ f] exI [of _ q] exI [of _ "rev ns"]) (simp add: reverseIntermediates_def flip_lines_rev hp_set_def)
  moreover have "set ?as = set as" by (auto simp: h(5) s)
  moreover have "\<forall>a. a \<notin> set as \<longrightarrow> cells ?h' a = cells h a" using l(3) h(5) by (auto simp: hp_set_def)
  ultimately show ?thesis using m by blast
qed

lemma free_holds:
  assumes "holds_resp h r resp as"
  shows "at_response_free (Some r) h = Some (Ret (h\<lparr>cells := (\<lambda>a. if a \<in> set as then None else cells h a)\<rparr>))"
proof -
  obtain f ls ns where h: "cells h r = Some (Resp (success resp) f ls)"
    "case finalResponse resp of None \<Rightarrow> f = None | Some t \<Rightarrow> \<exists>b. f = Some b \<and> cells h b = Some (Str t)"
    "chain h ls ns" "texts ns = p_intermediates resp" "as = r # (case f of None \<Rightarrow> [] | Some b \<Rightarrow> [b]) @ addrs ns"
    "distinct as" "\<forall>a \<in> set as. a < fresh h" "\<forall>b. f = Some b \<longrightarrow> b \<noteq> r \<and> b \<notin> set (addrs ns) \<and> b < fresh h"
    "r \<notin> set (addrs ns)" "r < fresh h" "\<forall>a \<in> set (addrs ns). a < fresh h" "distinct (addrs ns)"
    by (rule holds_respD [OF assms])
  have "\<exists>t. cells h b = Some (Str t)" if "f = Some b" for b using h(2) that by (auto split: option.splits)
  then show ?thesis using h(1,5,8,9) free_loop_chain [OF h(3,12)]
    by (cases f) (auto simp: at_response_free_def rd_resp_def hp_free_def fun_eq_iff)
qed

section \<open>The life of a response\<close>

fun add_lines :: "nat option \<Rightarrow> string list \<Rightarrow> heap \<Rightarrow> heap outcome" where
  "add_lines sp [] h = Ret h"
| "add_lines sp (x # xs) h = obind (addIntermediate_mem sp x h) (add_lines sp xs)"

text \<open>Addresses that were not given out hold nothing.\<close>

definition heap_ok :: "heap \<Rightarrow> bool" where
  "heap_ok h = (\<forall>a. fresh h \<le> a \<longrightarrow> cells h a = None)"

lemma add_lines_holds:
  "holds_resp h r resp as \<Longrightarrow> n \<le> fresh h \<Longrightarrow>
    \<exists>h' as'. add_lines (Some r) xs h = Ret h' \<and> holds_resp h' r (resp\<lparr>p_intermediates := rev xs @ p_intermediates resp\<rparr>) as' \<and>
      set as \<subseteq> set as' \<and> (\<forall>a \<in> set as'. a \<in> set as \<or> n \<le> a) \<and> (\<forall>a. a \<notin> set as' \<longrightarrow> cells h' a = cells h a) \<and> n \<le> fresh h'"
proof (induction xs arbitrary: h resp as)
  case Nil
  then show ?case by auto
next
  case (Cons x xs)
  from add_holds [OF Cons.prems(1), of x] obtain h1 as1 where
    h1: "addIntermediate_mem (Some r) x h = Ret h1" "holds_resp h1 r (resp\<lparr>p_intermediates := x # p_intermediates resp\<rparr>) as1"
    "set as1 = set as \<union> {fresh h, fresh h + 1}" "\<forall>a. a \<notin> set as1 \<longrightarrow> cells h1 a = cells h a" by blast
  have "fresh h < fresh h1" using h1(2,3) by (auto simp: holds_resp_def)
  then have "n \<le> fresh h1" using Cons.prems(2) by simp
  from Cons.IH [OF h1(2) this] obtain h' as' where
    "add_lines (Some r) xs h1 = Ret h'" "holds_resp h' r (resp\<lparr>p_intermediates := rev (x # xs) @ p_intermediates resp\<rparr>) as'"
    "set as1 \<subseteq> set as'" "\<forall>a \<in> set as'. a \<in> set as1 \<or> n \<le> a" "\<forall>a. a \<notin> set as' \<longrightarrow> cells h' a = cells h1 a" "n \<le> fresh h'"
    by auto
  moreover from this(3,5) h1(4) have "\<forall>a. a \<notin> set as' \<longrightarrow> cells h' a = cells h a" by (metis subsetD)
  ultimately show ?case using h1(1,3) Cons.prems(2) by (intro exI [of _ h'] exI [of _ as']) auto
qed

text \<open>
  C4: The response of a command in memory, from \<open>calloc\<close> to \<open>free\<close>: the lines that the reader adds
  at the head of the list, turned round in place, stand in the order in which they came, in cells of
  their own; freeing takes back every cell and nothing else, and a second free is a use after free.
\<close>

theorem response_life:
  assumes "heap_ok h" "at_response_new_mem h = (r, h0)"
  shows "\<exists>h1 h2 h3 h4 as. add_lines (Some r) xs h0 = Ret h1 \<and> handleFinalResponse_mem (Some r) t h1 = Ret h2 \<and>
    reverseIntermediates_mem (Some r) h2 = Some (Ret h3) \<and>
    holds_resp h3 r \<lparr>success = 0, finalResponse = Some t, p_intermediates = xs\<rparr> as \<and>
    at_response_free (Some r) h3 = Some (Ret h4) \<and> cells h4 = cells h \<and>
    at_response_free (Some r) h4 = Some (Fault UseAfterFree)"
proof -
  let ?resp = "at_response_new\<lparr>p_intermediates := rev xs\<rparr>"
  from new_holds [OF assms(2)] have h0: "holds_resp h0 r at_response_new [r]" "r = fresh h"
    "cells h0 = (cells h)(r \<mapsto> Resp 0 None None)" by auto
  have "fresh h \<le> fresh h0" using h0(1,2) by (auto simp: holds_resp_def)
  from add_lines_holds [OF h0(1) this, of xs] obtain h1 as1 where
    a1: "add_lines (Some r) xs h0 = Ret h1" "holds_resp h1 r (at_response_new\<lparr>p_intermediates := rev xs @ p_intermediates at_response_new\<rparr>) as1"
    "set [r] \<subseteq> set as1" "\<forall>a \<in> set as1. a \<in> set [r] \<or> fresh h \<le> a"
    "\<forall>a. a \<notin> set as1 \<longrightarrow> cells h1 a = cells h0 a" "fresh h \<le> fresh h1" by blast
  then have h1: "add_lines (Some r) xs h0 = Ret h1" "holds_resp h1 r ?resp as1" "r \<in> set as1" "\<forall>a \<in> set as1. fresh h \<le> a"
    "\<forall>a. a \<notin> set as1 \<longrightarrow> cells h1 a = cells h0 a" "fresh h \<le> fresh h1"
    using h0(2) by (simp_all add: at_response_new_def) auto
  have "finalResponse ?resp = None" by (simp add: at_response_new_def)
  from final_holds [OF h1(2) this, of t] obtain h2 as2 where
    h2: "handleFinalResponse_mem (Some r) t h1 = Ret h2" "holds_resp h2 r (?resp\<lparr>finalResponse := Some t\<rparr>) as2"
    "set as2 = set as1 \<union> {fresh h1}" "\<forall>a. a \<notin> set as2 \<longrightarrow> cells h2 a = cells h1 a" by blast
  from reverse_holds [OF h2(2)] obtain h3 as3 where
    h3: "reverseIntermediates_mem (Some r) h2 = Some (Ret h3)"
    "holds_resp h3 r (reverseIntermediates (?resp\<lparr>finalResponse := Some t\<rparr>)) as3"
    "set as3 = set as2" "\<forall>a. a \<notin> set as2 \<longrightarrow> cells h3 a = cells h2 a" by blast
  have resp: "reverseIntermediates (?resp\<lparr>finalResponse := Some t\<rparr>) = \<lparr>success = 0, finalResponse = Some t, p_intermediates = xs\<rparr>"
    by (simp add: reverseIntermediates_def flip_lines_rev at_response_new_def)
  let ?h4 = "h3\<lparr>cells := (\<lambda>a. if a \<in> set as3 then None else cells h3 a)\<rparr>"
  have "cells ?h4 a = cells h a" for a
  proof (cases "a \<in> set as3")
    case True
    then have "fresh h \<le> a" using h3(3) h2(3) h1(4,6) by auto
    with True assms(1) show ?thesis by (simp add: heap_ok_def)
  next
    case False
    then have "cells h3 a = cells h0 a" "a \<noteq> r" using h3(3,4) h2(3,4) h1(3,5) by auto
    with False h0(3) show ?thesis by simp
  qed
  then have "cells ?h4 = cells h" by (rule ext)
  moreover from this have "at_response_free (Some r) ?h4 = Some (Fault UseAfterFree)"
    using assms(1) h0(2) by (simp add: at_response_free_def rd_resp_def heap_ok_def)
  ultimately show ?thesis using h1(1) h2(1) h3(1,2) free_holds [OF h3(2)] resp by metis
qed

definition empty_heap :: heap where "empty_heap = \<lparr>cells = (\<lambda>_. None), fresh = 1\<rparr>"

theorem response_life_witness:
  "\<exists>h1 h2 h3 h4 as. add_lines (Some 1) [''+CSQ: 17,99'', ''x''] (snd (at_response_new_mem empty_heap)) = Ret h1 \<and>
    handleFinalResponse_mem (Some 1) ''OK'' h1 = Ret h2 \<and> reverseIntermediates_mem (Some 1) h2 = Some (Ret h3) \<and>
    holds_resp h3 1 \<lparr>success = 0, finalResponse = Some ''OK'', p_intermediates = [''+CSQ: 17,99'', ''x'']\<rparr> as \<and>
    at_response_free (Some 1) h3 = Some (Ret h4) \<and> cells h4 = cells empty_heap \<and>
    at_response_free (Some 1) h4 = Some (Fault UseAfterFree)"
  by (rule response_life) (simp_all add: heap_ok_def empty_heap_def at_response_new_mem_def hp_new_def)

end
