(* ===== verification/AtSystem.thy ===== *)
theory AtSystem
  imports AtProtocol
begin

text \<open>
  The channel with its threads, src/src/modem/at/atchannel.c: one reader thread and any number of
  writer threads inside \<open>at_send_command_full\<close>. All of them hold \<open>s_commandmutex\<close> except inside
  \<open>pthread_cond_wait\<close>, so one step is what a thread does between two such points. The comment at
  the head of the file says that \<open>s_writeMutex\<close> keeps a second writer out; no code locks it. The
  step relation has both: with \<open>lock\<close> the mutex of the comment, without it the code.
\<close>

section \<open>Threads and steps\<close>

text \<open>Where a writer is: outside, inside \<open>pthread_cond_wait\<close> (with or without a timeout, wanting the
  response or not), or back with a return code and a response.\<close>

datatype writer = WOutside | WWaiting bool bool | WBack int "at_response option"

record at_system =
  chan :: at_chan
  writer_at :: "nat \<Rightarrow> writer"
  crashed :: "fault option"

definition is_waiting :: "writer \<Rightarrow> bool" where
  "is_waiting w = (case w of WWaiting _ _ \<Rightarrow> True | _ \<Rightarrow> False)"

definition may_enter :: "bool \<Rightarrow> nat \<Rightarrow> at_system \<Rightarrow> bool" where
  "may_enter lock i s = (crashed s = None \<and> \<not> is_waiting (writer_at s i)
     \<and> (lock \<longrightarrow> (\<forall>j. \<not> is_waiting (writer_at s j))))"

definition put_writer :: "nat \<Rightarrow> writer \<Rightarrow> at_chan \<Rightarrow> at_system \<Rightarrow> at_system" where
  "put_writer i w st s = s\<lparr>chan := st, writer_at := (writer_at s)(i := w)\<rparr>"

definition finish :: "nat \<Rightarrow> bool \<Rightarrow> at_chan \<Rightarrow> at_system \<Rightarrow> at_system" where
  "finish i want st s = (case send_end want st of (e, r, st') \<Rightarrow> put_writer i (WBack e r) st' s)"

inductive sys_step :: "bool \<Rightarrow> at_system \<Rightarrow> at_system \<Rightarrow> bool" for lock :: bool where
  enter_error: "may_enter lock i s \<Longrightarrow> type_ok ty pre \<Longrightarrow> send_begin c ty pre pdu (chan s) = Ret (Some e, st)
    \<Longrightarrow> sys_step lock s (put_writer i (WBack e None) (clearPendingCommand st) s)"
| enter_wait: "may_enter lock i s \<Longrightarrow> type_ok ty pre \<Longrightarrow> send_begin c ty pre pdu (chan s) = Ret (None, st)
    \<Longrightarrow> still_waiting st = Ret True \<Longrightarrow> sys_step lock s (put_writer i (WWaiting timed want) st s)"
| enter_end: "may_enter lock i s \<Longrightarrow> type_ok ty pre \<Longrightarrow> send_begin c ty pre pdu (chan s) = Ret (None, st)
    \<Longrightarrow> still_waiting st = Ret False \<Longrightarrow> sys_step lock s (finish i want st s)"
| reader: "crashed s = None \<Longrightarrow> reader_step ev (chan s) = Ret st \<Longrightarrow> sys_step lock s (s\<lparr>chan := st\<rparr>)"
| reader_fault: "crashed s = None \<Longrightarrow> reader_step ev (chan s) = Fault f \<Longrightarrow> sys_step lock s (s\<lparr>crashed := Some f\<rparr>)"
| wake_on: "crashed s = None \<Longrightarrow> writer_at s i = WWaiting timed want \<Longrightarrow> still_waiting (chan s) = Ret True
    \<Longrightarrow> sys_step lock s s"
| wake_end: "crashed s = None \<Longrightarrow> writer_at s i = WWaiting timed want \<Longrightarrow> still_waiting (chan s) = Ret False
    \<Longrightarrow> sys_step lock s (finish i want (chan s) s)"
| wake_fault: "crashed s = None \<Longrightarrow> writer_at s i = WWaiting timed want \<Longrightarrow> still_waiting (chan s) = Fault f
    \<Longrightarrow> sys_step lock s (s\<lparr>crashed := Some f\<rparr>)"
| time_out: "crashed s = None \<Longrightarrow> writer_at s i = WWaiting True want
    \<Longrightarrow> sys_step lock s (put_writer i (WBack AT_ERROR_TIMEOUT None) (clearPendingCommand (chan s)) s)"

definition sys_start :: "at_chan \<Rightarrow> at_system" where
  "sys_start st = \<lparr>chan = st, writer_at = (\<lambda>_. WOutside), crashed = None\<rparr>"

abbreviation sys_run :: "bool \<Rightarrow> at_system \<Rightarrow> at_system \<Rightarrow> bool" where
  "sys_run lock \<equiv> (sys_step lock)\<^sup>*\<^sup>*"

section \<open>Invariant under the documented lock\<close>

text \<open>At most one writer waits, a command is pending exactly then, and nothing crashed.\<close>

definition sys_inv :: "at_system \<Rightarrow> bool" where
  "sys_inv s = (crashed s = None \<and> chan_inv (chan s) \<and> 0 \<le> s_readerClosed (chan s)
     \<and> (\<forall>i j. is_waiting (writer_at s i) \<and> is_waiting (writer_at s j) \<longrightarrow> i = j)
     \<and> (sp_response (chan s) \<noteq> None \<longleftrightarrow> (\<exists>i. is_waiting (writer_at s i))))"

lemma is_waiting_simps [simp]:
  "is_waiting (WWaiting a b)" "\<not> is_waiting WOutside" "\<not> is_waiting (WBack e r)"
  by (simp_all add: is_waiting_def)

lemma sys_inv_start: "ready st \<Longrightarrow> sys_inv (sys_start st)"
  by (simp add: sys_inv_def sys_start_def ready_def chan_idle_def)

text \<open>A writer that leaves clears the pending command.\<close>

lemma sys_inv_leave:
  assumes "crashed s = None" "\<forall>j. j \<noteq> i \<longrightarrow> \<not> is_waiting (writer_at s j)" "chan_idle st" "0 \<le> s_readerClosed st"
  shows "sys_inv (put_writer i (WBack e r) st s)"
  using assms by (auto simp: sys_inv_def put_writer_def chan_idle_def)

lemma closed_clear [simp]: "s_readerClosed (clearPendingCommand st) = s_readerClosed st"
  by (simp add: clearPendingCommand_def)

lemma finish_inv:
  assumes "crashed s = None" "\<forall>j. j \<noteq> i \<longrightarrow> \<not> is_waiting (writer_at s j)" "0 \<le> s_readerClosed st"
  shows "sys_inv (finish i want st s)"
proof -
  have "chan_idle (clearPendingCommand (st\<lparr>sp_response := None\<rparr>))"
    "0 \<le> s_readerClosed (clearPendingCommand (st\<lparr>sp_response := None\<rparr>))"
    using assms(3) by simp_all
  from sys_inv_leave [OF assms(1,2) this] show ?thesis by (simp add: finish_def send_end_def)
qed

lemma only_waiting:
  assumes "sys_inv s" "is_waiting (writer_at s i)"
  shows "\<forall>j. j \<noteq> i \<longrightarrow> \<not> is_waiting (writer_at s j)" "sp_response (chan s) \<noteq> None" "0 \<le> s_readerClosed (chan s)"
  using assms unfolding sys_inv_def by blast+

lemma none_waiting:
  assumes "sys_inv s" "may_enter True i s"
  shows "\<forall>j. \<not> is_waiting (writer_at s j)" "chan_idle (chan s)" "0 \<le> s_readerClosed (chan s)"
  using assms by (auto simp: sys_inv_def may_enter_def chan_idle_def)

lemma sys_step_inv:
  assumes "sys_step True s s'" "sys_inv s"
  shows "sys_inv s'"
  using assms
proof (induction rule: sys_step.induct)
  case (enter_error i s ty pre c pdu e st)
  note n = none_waiting [OF enter_error.prems enter_error.hyps(1)]
  have "0 \<le> s_readerClosed st" using n(3) send_begin_closed [OF enter_error.hyps(3)] by simp
  then show ?case using n enter_error.hyps(1) by (intro sys_inv_leave) (auto simp: may_enter_def)
next
  case (enter_wait i s ty pre c pdu st timed want)
  note n = none_waiting [OF enter_wait.prems enter_wait.hyps(1)]
  note b = send_begin_Ret(1) [OF enter_wait.hyps(3) n(2) enter_wait.hyps(2) refl]
    send_begin_closed [OF enter_wait.hyps(3)]
  then show ?case using n enter_wait.hyps(1) by (auto simp: sys_inv_def put_writer_def may_enter_def)
next
  case (enter_end i s ty pre c pdu st want)
  note n = none_waiting [OF enter_end.prems enter_end.hyps(1)]
  have "0 \<le> s_readerClosed st" using n(3) send_begin_closed [OF enter_end.hyps(3)] by simp
  then show ?case using n enter_end.hyps(1) by (intro finish_inv) (auto simp: may_enter_def)
next
  case (reader s ev st)
  have "chan_inv (chan s)" using reader.prems by (simp add: sys_inv_def)
  from reader_step_step(2) [OF this reader.hyps(2)] reader.prems reader.hyps(1) show ?case
    by (auto simp: sys_inv_def same_command_def)
next
  case (reader_fault s ev f)
  then show ?case using reader_step_step(1) by (auto simp: sys_inv_def)
next
  case (wake_end s i timed want)
  then have "is_waiting (writer_at s i)" by simp
  with wake_end show ?case using only_waiting [of s i] by (intro finish_inv) auto
next
  case (wake_fault s i timed want f)
  then have "is_waiting (writer_at s i)" by simp
  then have "sp_response (chan s) \<noteq> None" using only_waiting(2) [OF wake_fault.prems] by blast
  with wake_fault show ?case by (auto simp: still_waiting_def)
next
  case (time_out s i want)
  then have w: "is_waiting (writer_at s i)" by simp
  show ?case
    using only_waiting [OF time_out.prems w] time_out.hyps(1) by (intro sys_inv_leave) auto
qed

section \<open>Properties\<close>

text \<open>
  C12: with the mutex that the comment describes, no interleaving of any number of writers, the
  reader, wake-ups and timeouts crashes; at most one writer waits at any time and a command is
  pending exactly while one does.
\<close>

theorem locked_writers_safe:
  assumes "sys_run True (sys_start st) s" "ready st"
  shows "crashed s = None
    \<and> (\<forall>i j. is_waiting (writer_at s i) \<and> is_waiting (writer_at s j) \<longrightarrow> i = j)
    \<and> (sp_response (chan s) \<noteq> None \<longleftrightarrow> (\<exists>i. is_waiting (writer_at s i)))"
proof -
  have "sys_inv s" using assms(1)
    by (induction rule: rtranclp_induct) (auto intro: sys_inv_start [OF assms(2)] sys_step_inv)
  then show ?thesis by (simp add: sys_inv_def)
qed

lemma enter_first:
  assumes "ready st" "can_write st" "c \<noteq> []" "writes st = one_piece c @ ws" "type_ok ty pre"
  shows "\<exists>st'. send_begin c ty pre pdu st = Ret (None, st') \<and> sp_response st' = Some at_response_new
    \<and> still_waiting st' = Ret True"
  using send_begin_one_piece [OF assms(1-4), of ty pre pdu] assms(2)
  by (simp add: still_waiting_def at_response_new_def can_write_def)

theorem locked_writers_safe_witness:
  "\<exists>s. sys_run True (sys_start (chan0\<lparr>writes := one_piece ''AT'' @ [], sched := []\<rparr>)) s
    \<and> (\<exists>i. is_waiting (writer_at s i)) \<and> crashed s = None
    \<and> (sp_response (chan s) \<noteq> None \<longleftrightarrow> (\<exists>i. is_waiting (writer_at s i)))"
proof -
  let ?st = "chan0\<lparr>writes := one_piece ''AT'' @ [], sched := []\<rparr>"
  obtain st' where st': "send_begin ''AT'' NO_RESULT None None ?st = Ret (None, st')" "still_waiting st' = Ret True"
    using enter_first [of ?st "''AT''" "[]" NO_RESULT None None] by (auto simp: type_ok_def)
  let ?s = "put_writer 0 (WWaiting True True) st' (sys_start ?st)"
  have "sys_step True (sys_start ?st) ?s"
    by (rule enter_wait [OF _ _ _ st'(2)]) (use st'(1) in \<open>auto simp: may_enter_def sys_start_def type_ok_def\<close>)
  then have "sys_run True (sys_start ?st) ?s" by blast
  with locked_writers_safe [OF this ready_chan0] have "sys_run True (sys_start ?st) ?s \<and> crashed ?s = None
    \<and> (sp_response (chan ?s) \<noteq> None \<longleftrightarrow> (\<exists>i. is_waiting (writer_at ?s i)))" by blast
  moreover have "\<exists>i. is_waiting (writer_at ?s i)" by (auto simp: put_writer_def intro: exI [of _ 0])
  ultimately show ?thesis by (intro exI [of _ ?s]) blast
qed

text \<open>
  C13: in the code, where no writer takes that mutex, a second command that starts while the first
  one waits is refused with the pending error, and its error path clears the response of the
  first; when the first writer is woken, it reads through the NULL pointer.
\<close>

theorem second_writer_crash:
  assumes "ready st" "can_write st" "c1 \<noteq> []" "writes st = one_piece c1 @ ws" "type_ok ty pre"
  shows "\<exists>s1 s2 s3. sys_step False (sys_start st) s1 \<and> writer_at s1 0 = WWaiting timed want
    \<and> sys_step False s1 s2 \<and> writer_at s2 1 = WBack AT_ERROR_COMMAND_PENDING None \<and> sp_response (chan s2) = None
    \<and> writer_at s2 0 = WWaiting timed want \<and> sys_step False s2 s3 \<and> crashed s3 = Some NullDeref"
proof -
  obtain st' where st': "send_begin c1 ty pre None st = Ret (None, st')" "sp_response st' = Some at_response_new"
    "still_waiting st' = Ret True" using enter_first [OF assms] by blast
  let ?s1 = "put_writer 0 (WWaiting timed want) st' (sys_start st)"
  let ?s2 = "put_writer 1 (WBack AT_ERROR_COMMAND_PENDING None) (clearPendingCommand st') ?s1"
  have 1: "sys_step False (sys_start st) ?s1"
    by (rule enter_wait [OF _ assms(5) _ st'(3)]) (use st'(1) in \<open>auto simp: may_enter_def sys_start_def\<close>)
  have "send_begin c2 NO_RESULT None None (chan ?s1) = Ret (Some AT_ERROR_COMMAND_PENDING, st')" for c2
    using st'(2) by (simp add: send_begin_def put_writer_def)
  then have 2: "sys_step False ?s1 ?s2"
    by (intro enter_error [of _ _ _ NO_RESULT None])
       (auto simp: may_enter_def put_writer_def sys_start_def type_ok_def)
  have 3: "sys_step False ?s2 (?s2\<lparr>crashed := Some NullDeref\<rparr>)"
    by (rule wake_fault [of _ 0 timed want])
       (simp_all add: put_writer_def sys_start_def still_waiting_def clearPendingCommand_def)
  show ?thesis
    by (rule exI [of _ ?s1], rule exI [of _ ?s2], rule exI, intro conjI, rule 1, simp add: put_writer_def,
        rule 2, simp add: put_writer_def, simp add: put_writer_def clearPendingCommand_def,
        simp add: put_writer_def, rule 3, simp)
qed

theorem second_writer_crash_witness:
  "\<exists>s1 s2 s3. sys_step False (sys_start (chan0\<lparr>writes := one_piece ''AT+CSQ'' @ [], sched := []\<rparr>)) s1
    \<and> writer_at s1 0 = WWaiting False True
    \<and> sys_step False s1 s2 \<and> writer_at s2 1 = WBack AT_ERROR_COMMAND_PENDING None \<and> sp_response (chan s2) = None
    \<and> writer_at s2 0 = WWaiting False True \<and> sys_step False s2 s3 \<and> crashed s3 = Some NullDeref"
  by (rule second_writer_crash [of _ "''AT+CSQ''" "[]" NO_RESULT None]) (simp_all add: type_ok_def)

end
