(* ===== verification/RadioTest.thy ===== *)
theory RadioTest
  imports RadioMgr
begin

text \<open>
  The table of operations of inc/radio_hal.h as the two HALs fill it, and the test program of
  src/src/common/radio_hal_main.cpp, which runs one operation through it between an open and a close.
\<close>

section \<open>The table of operations\<close>

text \<open>
  A member is None where the table holds NULL. The members that no table sets and nobody calls are
  left out: \<open>radio_initialize\<close>, \<open>radio_wait_for_driver_ready\<close>, \<open>radio_cleanup\<close>,
  \<open>radio_create_config\<close>, \<open>radio_enable\<close>, and the queries for bands, status, features and channels.
\<close>

record 'c radio_generic_func =
  op_open :: "('c \<Rightarrow> radio_type \<Rightarrow> (int \<times> 'c) outcome) option"
  op_close :: "('c \<Rightarrow> radio_type \<Rightarrow> (int \<times> 'c) outcome) option"
  op_get_hal_version :: "(int \<times> string) option"
  op_event_loop :: "('c \<Rightarrow> 'c option outcome) option"
  op_get_no_of_radio :: "('c \<Rightarrow> radio_type \<Rightarrow> nat option) option"
  op_get_iface_name :: "('c \<Rightarrow> nat \<Rightarrow> string outcome) option"
  op_get_mac_address :: "('c \<Rightarrow> nat \<Rightarrow> (int \<times> string \<times> 'c) outcome) option"
  op_get_rssi :: "('c \<Rightarrow> nat \<Rightarrow> (int \<times> 'c) outcome) option"
  op_get_txrate :: "('c \<Rightarrow> nat \<Rightarrow> (int \<times> 'c) outcome) option"
  op_get_rxrate :: "('c \<Rightarrow> nat \<Rightarrow> (int \<times> 'c) outcome) option"
  op_get_scan_results :: "('c \<Rightarrow> nat \<Rightarrow> (int \<times> string \<times> 'c) outcome) option"
  op_connect_ap :: "('c \<Rightarrow> nat \<Rightarrow> (int \<times> 'c) outcome) option"
  op_create_ap :: "('c \<Rightarrow> nat \<Rightarrow> (int \<times> 'c) outcome) option"
  op_join_mesh :: "('c \<Rightarrow> nat \<Rightarrow> (int \<times> 'c) outcome) option"
  op_connect :: "('c \<Rightarrow> (int \<times> 'c) outcome) option"
  op_get_fw_stats :: "('c \<Rightarrow> nat \<Rightarrow> nat \<Rightarrow> int \<times> string) option"
  op_capture_spectral_data :: "('c \<Rightarrow> nat \<Rightarrow> (int \<times> 'c) outcome) option"

text \<open>\<open>n\<close> turns of the event loop, \<open>junk\<close> and \<open>junk4\<close> in the buffers of the scans, \<open>filename\<close> for the
  spectral scan.\<close>

definition wifi_hal_ops :: "nat \<Rightarrow> mem \<Rightarrow> mem \<Rightarrow> string \<Rightarrow> wifi_ctx radio_generic_func" where
  "wifi_hal_ops n junk junk4 filename = \<lparr>
     op_open = Some (\<lambda>w _. wifi_hal_open w), op_close = Some (\<lambda>w _. wifi_hal_close w),
     op_get_hal_version = Some (0, wifi_hal_get_hal_version), op_event_loop = Some (wifi_events n junk junk4),
     op_get_no_of_radio = Some (\<lambda>w t. wifi_hal_get_no_of_radio t w),
     op_get_iface_name = Some (\<lambda>w i. wifi_hal_get_iface_name i w),
     op_get_mac_address = Some (\<lambda>w i. wifi_hal_get_mac_addr i w),
     op_get_rssi = Some (\<lambda>w i. wifi_hal_get_rssi i w), op_get_txrate = Some (\<lambda>w i. wifi_hal_get_txrate i w),
     op_get_rxrate = Some (\<lambda>w i. wifi_hal_get_rxrate i w),
     op_get_scan_results = Some (\<lambda>w i. wifi_hal_get_scan_results junk junk4 i w),
     op_connect_ap = Some (\<lambda>w i. wifi_hal_connect_ap i w), op_create_ap = Some (\<lambda>w i. wifi_hal_create_ap i w),
     op_join_mesh = Some (\<lambda>w i. wifi_hal_join_mesh i w), op_connect = None,
     op_get_fw_stats = Some (\<lambda>w size i. wifi_hal_get_fw_stats size i w),
     op_capture_spectral_data = Some (\<lambda>w i. wifi_hal_capture_spectral_scan filename junk i w)\<rparr>"

text \<open>\<open>fd\<close> and \<open>rc\<close>: what opening the serial device and starting the reader give. The loop of the modem
  has no exit (theory ModemEvents), whatever the number of turns.\<close>

definition modem_hal_ops :: "int \<Rightarrow> int \<Rightarrow> modem_ctx radio_generic_func" where
  "modem_hal_ops fd rc = \<lparr>
     op_open = Some (\<lambda>m _. modem_hal_open fd rc m), op_close = Some (\<lambda>m _. modem_hal_close m),
     op_get_hal_version = Some (0, modem_hal_get_hal_version), op_event_loop = Some (\<lambda>_. Ret None),
     op_get_no_of_radio = None, op_get_iface_name = None, op_get_mac_address = None,
     op_get_rssi = Some (\<lambda>m _. on_at modem_hal_get_rssi m), op_get_txrate = None, op_get_rxrate = None,
     op_get_scan_results = None, op_connect_ap = None, op_create_ap = None, op_join_mesh = None,
     op_connect = Some modem_hal_connect, op_get_fw_stats = None, op_capture_spectral_data = None\<rparr>"

definition via :: "'f option \<Rightarrow> ('f \<Rightarrow> 'a outcome) \<Rightarrow> 'a outcome" where
  "via f k = (case f of None \<Rightarrow> Fault NullDeref | Some g \<Rightarrow> k g)"

lemma via_simps [simp]: "via None k = Fault NullDeref" "via (Some g) k = k g"
  by (simp_all add: via_def)

text \<open>An operation on one radio whose result is only printed. The index is that of the command line.\<close>

definition at_index :: "int \<Rightarrow> nat outcome" where
  "at_index i = (if 0 \<le> i then Ret (nat i) else Fault OutOfBounds)"

definition on_radio :: "('c \<Rightarrow> nat \<Rightarrow> (int \<times> 'c) outcome) option \<Rightarrow> int \<Rightarrow> 'c \<Rightarrow> 'c outcome" where
  "on_radio f i w = via f (\<lambda>g. obind (at_index i) (\<lambda>k. obind (g w k) (\<lambda>(_, w'). Ret w')))"

definition with_text :: "('c \<Rightarrow> nat \<Rightarrow> (int \<times> string \<times> 'c) outcome) option \<Rightarrow> int \<Rightarrow> 'c \<Rightarrow> 'c outcome" where
  "with_text f i w = via f (\<lambda>g. obind (at_index i) (\<lambda>k. obind (g w k) (\<lambda>(_, _, w'). Ret w')))"

definition with_name :: "'c radio_generic_func \<Rightarrow> int \<Rightarrow> 'c \<Rightarrow> 'c outcome" where
  "with_name ops i w = via (op_get_iface_name ops) (\<lambda>g. obind (at_index i) (\<lambda>k. obind (g w k) (\<lambda>_. Ret w)))"

section \<open>The test program\<close>

text \<open>\<open>argv\<close> with its NULL at the end.\<close>

definition arg :: "string list \<Rightarrow> nat \<Rightarrow> string option outcome" where
  "arg argv k = (if k < length argv then Ret (Some (argv ! k)) else if k = length argv then Ret None else Fault OutOfBounds)"

definition args3 :: "string list \<Rightarrow> nat \<Rightarrow> (string \<times> string \<times> string) option outcome" where
  "args3 argv k = obind (arg argv k) (\<lambda>a. case a of None \<Rightarrow> Ret None | Some x \<Rightarrow>
     obind (arg argv (k + 1)) (\<lambda>b. case b of None \<Rightarrow> Ret None | Some y \<Rightarrow>
     obind (arg argv (k + 2)) (\<lambda>c. case c of None \<Rightarrow> Ret None | Some z \<Rightarrow> Ret (Some (x, y, z)))))"

definition test_wifi_config :: "string \<Rightarrow> string \<Rightarrow> string \<Rightarrow> wifi_config" where
  "test_wifi_config ssid key freq = wifi_config_zero\<lparr>wc_ssid := strncpy_arr 31 ssid @ [NUL],
     wc_key := strncpy_arr 63 key @ [NUL], wc_freq := strncpy_arr 5 freq @ [NUL], wc_distance := 3000,
     wc_bw := strncpy_arr 3 ''20'' @ [NUL], wc_country := strncpy_arr 3 ''FI'', wc_enc := strncpy_arr 8 ''SAE''\<rparr>"

definition wifi_test_cmd :: "'c radio_generic_func \<Rightarrow> string \<Rightarrow> int \<Rightarrow> 'c \<Rightarrow> 'c outcome" where
  "wifi_test_cmd ops cmd i w =
     (if cmd = ''radio_get_hal_version'' then via (op_get_hal_version ops) (\<lambda>_. Ret w)
      else if cmd = ''radio_hal_get_iface_name'' then with_name ops i w
      else if cmd = ''radio_hal_get_rssi'' then on_radio (op_get_rssi ops) i w
      else if cmd = ''radio_hal_get_txrate'' then on_radio (op_get_txrate ops) i w
      else if cmd = ''radio_hal_get_rxrate'' then on_radio (op_get_rxrate ops) i w
      else if cmd = ''radio_hal_get_macaddr'' then with_text (op_get_mac_address ops) i w
      else if cmd = ''radio_hal_get_scan_result'' then with_text (op_get_scan_results ops) i w
      else if cmd = ''radio_hal_connect_ap'' then
        obind (with_text (op_get_scan_results ops) i w) (on_radio (op_connect_ap ops) i)
      else if cmd = ''radio_hal_create_ap'' then on_radio (op_create_ap ops) i w
      else if cmd = ''radio_mesh_join'' then obind (with_name ops i w) (on_radio (op_join_mesh ops) i)
      else if cmd = ''radio_get_fw_stats'' then
        obind (with_name ops i w) (\<lambda>w1. via (op_get_fw_stats ops) (\<lambda>_. Ret w1))
      else if cmd = ''radio_capture_spectral_data'' then
        obind (with_name ops 1 w) (on_radio (op_capture_spectral_data ops) 1)
      else Ret w)"

definition test_wifi :: "wifi_ctx radio_generic_func \<Rightarrow> string list \<Rightarrow> int \<Rightarrow> wifi_ctx \<Rightarrow> (int \<times> wifi_ctx) outcome" where
  "test_wifi ops argv i w = obind (arg argv 3) (\<lambda>cmd. obind (args3 argv 4) (\<lambda>a.
     let cfg = (case a of None \<Rightarrow> wifi_config_zero | Some (ssid, key, freq) \<Rightarrow> test_wifi_config ssid key freq) in
     via (op_open ops) (\<lambda>f. obind (f (w\<lparr>wifi_configs := [cfg, wifi_config_zero]\<rparr>) RADIO_WIFI) (\<lambda>(_, w1).
     case cmd of None \<Rightarrow> Fault NullDeref | Some c \<Rightarrow>
       obind (wifi_test_cmd ops c i w1) (\<lambda>w2.
       via (op_close ops) (\<lambda>f. obind (f w2 RADIO_WIFI) (\<lambda>(_, w3). Ret (0, w3))))))))"

text \<open>\<open>m_config\<close> is the array \<open>ctx->config\<close> itself: the three strings are written into the context,
  from the offset of the array on.\<close>

definition ctx_write :: "nat \<Rightarrow> nat \<Rightarrow> unit outcome" where
  "ctx_write off n = (if CTX_CONFIG_OFFSET + off + n \<le> CTX_SIZE then Ret () else Fault OutOfBounds)"

definition modem_args_written :: "(string \<times> string \<times> string) option \<Rightarrow> unit outcome" where
  "modem_args_written a = (case a of None \<Rightarrow> Ret ()
     | Some _ \<Rightarrow> obind (ctx_write 0 19) (\<lambda>_. obind (ctx_write 20 4) (\<lambda>_. ctx_write 25 19)))"

definition modem_test_cmd :: "'c radio_generic_func \<Rightarrow> string \<Rightarrow> 'c \<Rightarrow> (int \<times> 'c) outcome" where
  "modem_test_cmd ops cmd m =
     (if cmd = ''radio_get_hal_version'' then via (op_get_hal_version ops) (\<lambda>_. Ret (0, m))
      else if cmd = ''radio_hal_connect'' then via (op_connect ops) (\<lambda>f. obind (f m) (\<lambda>(_, m1). Ret (0, m1)))
      else if cmd = ''radio_hal_get_rssi'' then
        via (op_connect ops) (\<lambda>f. obind (f m) (\<lambda>(err, m1).
        obind (if err = 0 then on_radio (op_get_rssi ops) 1 m1 else Ret m1) (\<lambda>m2.
        via (op_close ops) (\<lambda>f. obind (f m2 RADIO_MODEM) (\<lambda>(_, m3). Ret (err, m3))))))
      else Ret (0, m))"

text \<open>The configuration that the open finds was not written: it is what \<open>malloc\<close> returned.\<close>

definition test_modem :: "modem_ctx radio_generic_func \<Rightarrow> modem_config \<Rightarrow> string list \<Rightarrow> modem_ctx \<Rightarrow> (int \<times> modem_ctx) outcome" where
  "test_modem ops junk argv m = obind (arg argv 3) (\<lambda>cmd. obind (args3 argv 3) (\<lambda>a. obind (modem_args_written a) (\<lambda>_.
     via (op_open ops) (\<lambda>f. obind (f (with_config junk m) RADIO_MODEM) (\<lambda>(_, m1).
     case cmd of None \<Rightarrow> Fault NullDeref | Some c \<Rightarrow> modem_test_cmd ops c m1)))))"

definition test_radio_hal_api :: "wifi_ctx radio_generic_func \<Rightarrow> mgr_env \<Rightarrow> hal_ctx \<Rightarrow> string list \<Rightarrow> string \<Rightarrow> radio_type
    \<Rightarrow> (int \<times> hal_ctx) outcome" where
  "test_radio_hal_api wops env ctx argv optarg type = (let index = c_int (fst (strtol 10 optarg)) in
     case type of
       RADIO_WIFI \<Rightarrow> obind (test_wifi wops argv index (e_wifi env)) (\<lambda>(err, _). Ret (err, ctx))
     | RADIO_MODEM \<Rightarrow> (let serial = e_serial env (arr_str (mc_at_serial (e_modem_junk env))) in
         obind (test_modem (modem_hal_ops serial (e_reader_rc env)) (e_modem_junk env) argv (e_modem env)) (\<lambda>(err, _).
           Ret (err, case ctx of ModemCtx c \<Rightarrow> ModemCtx (c[0 := True]) | _ \<Rightarrow> ctx)))
     | _ \<Rightarrow> Ret (0, ctx))"

text \<open>A radio that could not be attached is reported and used. The result is what \<open>main\<close> returns, if
  it does, and \<open>err\<close>.\<close>

definition test_radio :: "wifi_ctx radio_generic_func \<Rightarrow> mgr_env \<Rightarrow> string list \<Rightarrow> string \<Rightarrow> radio_type \<Rightarrow> int \<Rightarrow> int outcome" where
  "test_radio wops env argv optarg type err = obind (radio_hal_attach type env) (\<lambda>ctx. case ctx of
       None \<Rightarrow> Fault NullDeref
     | Some c \<Rightarrow> obind (if length argv \<ge> 3 then test_radio_hal_api wops env c argv optarg type else Ret (err, c)) (\<lambda>(err', c').
         obind (radio_hal_dettach c' type) (\<lambda>_. Ret err')))"

fun test_opts :: "wifi_ctx radio_generic_func \<Rightarrow> mgr_env \<Rightarrow> string list \<Rightarrow> hal_opt list \<Rightarrow> int \<Rightarrow> int outcome" where
  "test_opts wops env argv [] err = Ret err"
| "test_opts wops env argv (opt # opts) err = (case opt of
       OptWifi a \<Rightarrow> obind (test_radio wops env argv a RADIO_WIFI err) (test_opts wops env argv opts)
     | OptModem a \<Rightarrow> obind (test_radio wops env argv a RADIO_MODEM err) (test_opts wops env argv opts)
     | OptBt _ \<Rightarrow> obind (radio_hal_attach RADIO_BT env) (\<lambda>_. test_opts wops env argv opts err)
     | OptZigbee _ \<Rightarrow> obind (radio_hal_attach RADIO_15_4 env) (\<lambda>_. test_opts wops env argv opts err)
     | OptHelp \<Rightarrow> Ret 0
     | OptOther \<Rightarrow> Ret 0)"

definition test_main :: "wifi_ctx radio_generic_func \<Rightarrow> mgr_env \<Rightarrow> string list \<Rightarrow> hal_opt list \<Rightarrow> int outcome" where
  "test_main wops env argv opts = (if length argv < 2 then Fault OutOfBounds else test_opts wops env argv opts 0)"

section \<open>Lemmas\<close>

text \<open>The event loop of the manager goes through the table, and what it finds there is the loop itself.\<close>

lemma event_loop_member:
  "wifi_event_loop n junk junk4 w = via (op_event_loop (wifi_hal_ops n junk junk4 fn)) (\<lambda>loop. obind (loop w) (\<lambda>r. case r of
       None \<Rightarrow> Ret None
     | Some w' \<Rightarrow> via (op_close (wifi_hal_ops n junk junk4 fn)) (\<lambda>f. obind (f w' RADIO_WIFI) (\<lambda>(_, w''). Ret (Some w'')))))"
  by (simp add: wifi_event_loop_def wifi_hal_ops_def)

text \<open>The test of the modem with its three strings writes behind the context, whatever they are.\<close>

lemma modem_test_overruns:
  assumes "6 \<le> length argv"
  shows "test_modem ops junk argv m = Fault OutOfBounds"
  using assms by (simp add: test_modem_def arg_def args3_def modem_args_written_def ctx_write_def CTX_CONFIG_OFFSET_def CTX_SIZE_def)

text \<open>A test of the modem never comes back to \<open>main\<close>: with or without the strings, the detach behind it
  frees a pointer that was never set.\<close>

lemma modem_test_never_returns:
  assumes "3 \<le> length argv"
  shows "test_main wops env argv (OptModem a # opts) \<noteq> Ret r"
proof
  assume "test_main wops env argv (OptModem a # opts) = Ret r"
  then obtain r' where t: "test_radio wops env argv a RADIO_MODEM 0 = Ret r'"
    using assms by (auto simp: test_main_def obind_eq_Ret)
  then have "radio_hal_attach RADIO_MODEM env = Ret (Some (ModemCtx [False, False]))"
    by (auto simp: test_radio_def radio_hal_attach_def modem_hal_attach_def RADIO_MAX_AMOUNT_def numeral_2_eq_2
        split: if_splits prod.splits)
  with t assms show False
    by (auto simp: test_radio_def test_radio_hal_api_def radio_hal_dettach_def modem_hal_detach_def obind_eq_Ret Let_def
        split: prod.splits)
qed

text \<open>The test of a WiFi radio without a command reads behind \<open>argv\<close>; with a command it opens the HAL,
  and closes it at the end.\<close>

lemma wifi_test_without_command:
  assumes "wifi_hal_open (w\<lparr>wifi_configs := [wifi_config_zero, wifi_config_zero]\<rparr>) = Ret (ret, w1)" "length argv = 4"
  shows "test_wifi (wifi_hal_ops n junk junk4 fn) (take 3 argv) i w = Fault OutOfBounds"
    and "argv ! 3 = ''radio_get_hal_version'' \<Longrightarrow> wifi_hal_close w1 = Ret (0, w2) \<Longrightarrow>
      test_wifi (wifi_hal_ops n junk junk4 fn) argv i w = Ret (0, w2)"
  using assms by (simp_all add: test_wifi_def arg_def args3_def wifi_hal_ops_def wifi_test_cmd_def)

end
