(* ===== verification/OsTime.thy ===== *)
theory OsTime
  imports OsUnix
begin

text \<open>
  Calendar time in the OS wrapper of the control library: \<open>os_mktime\<close> and \<open>os_gmtime\<close> of
  src/src/wifi/wpa_socket/os_unix.c. The C library's \<open>mktime\<close>, \<open>localtime\<close> and \<open>gmtime\<close> are
  arguments, and what is relied on of them is the locale \<open>c_calendar\<close>. It is interpreted on the
  Gregorian calendar and on time zones with summer time and changes of the standard offset, written
  out and executable. Where such a change is near the date the result can be wrong: \<open>moscow_2014\<close>.
\<close>

section \<open>The code\<close>

record tm =
  tm_sec :: int
  tm_min :: int
  tm_hour :: int
  tm_mday :: int
  tm_mon :: int
  tm_year :: int
  tm_isdst :: int

record os_tm =
  ot_sec :: int
  ot_min :: int
  ot_hour :: int
  ot_day :: int
  ot_month :: int
  ot_year :: int

definition mktime_rejects :: "int \<Rightarrow> int \<Rightarrow> int \<Rightarrow> int \<Rightarrow> int \<Rightarrow> int \<Rightarrow> bool" where
  "mktime_rejects year month day hour minute sec =
     (year < 1970 \<or> month < 1 \<or> month > 12 \<or> day < 1 \<or> day > 31 \<or> hour < 0 \<or> hour > 23 \<or>
      minute < 0 \<or> minute > 59 \<or> sec < 0 \<or> sec > 60)"

definition filled_tm :: "int \<Rightarrow> int \<Rightarrow> int \<Rightarrow> int \<Rightarrow> int \<Rightarrow> int \<Rightarrow> tm" where
  "filled_tm year month day hour minute sec =
     \<lparr>tm_sec = sec, tm_min = minute, tm_hour = hour, tm_mday = day, tm_mon = month - 1,
      tm_year = year - 1900, tm_isdst = 0\<rparr>"

text \<open>None is the return value -1; \<open>t\<close> is written only with 0.\<close>

definition os_mktime :: "(tm \<Rightarrow> int) \<Rightarrow> (int \<Rightarrow> tm option) \<Rightarrow> (int \<Rightarrow> tm option) \<Rightarrow>
    int \<Rightarrow> int \<Rightarrow> int \<Rightarrow> int \<Rightarrow> int \<Rightarrow> int \<Rightarrow> int option" where
  "os_mktime mktime localtime gmtime year month day hour minute sec =
     (if mktime_rejects year month day hour minute sec then None
      else let t_local = mktime (filled_tm year month day hour minute sec);
               tz_offset = (case localtime t_local of
                   None \<Rightarrow> 0
                 | Some tm1 \<Rightarrow> let t1 = mktime tm1 in
                     (case gmtime t_local of None \<Rightarrow> 0 | Some tm2 \<Rightarrow> mktime tm2 - t1))
           in Some (t_local - tz_offset))"

definition os_gmtime :: "(int \<Rightarrow> tm option) \<Rightarrow> int \<Rightarrow> os_tm option outcome" where
  "os_gmtime gmtime t = (case gmtime t of
       None \<Rightarrow> Ret None
     | Some b \<Rightarrow> if tm_year b + 1900 < 2 ^ 31
         then Ret (Some \<lparr>ot_sec = tm_sec b, ot_min = tm_min b, ot_hour = tm_hour b, ot_day = tm_mday b,
                         ot_month = tm_mon b + 1, ot_year = tm_year b + 1900\<rparr>)
         else Fault BadArith)"

section \<open>What is relied on of the C library\<close>

text \<open>
  \<open>utc\<close> is the number of seconds since the epoch of a broken-down time taken as UTC. Where the
  standard offset of the zone is \<open>std\<close> for long enough around a time (\<open>steady\<close>), \<open>mktime\<close> takes a
  time marked as not summer time in standard time, and it undoes \<open>localtime\<close>; nothing is said of
  other times. \<open>near\<close> is the range of times for which the conversions give a value.
\<close>

locale c_calendar =
  fixes mktime :: "tm \<Rightarrow> int" and localtime :: "int \<Rightarrow> tm option" and gmtime :: "int \<Rightarrow> tm option"
    and utc :: "tm \<Rightarrow> int" and steady :: "int \<Rightarrow> int \<Rightarrow> bool" and near :: "int \<Rightarrow> bool"
  assumes mktime_std: "tm_isdst b = 0 \<Longrightarrow> steady (utc b) std \<Longrightarrow> mktime b = utc b - std"
    and localtime_inverse: "localtime t = Some b \<Longrightarrow> steady t std \<Longrightarrow> mktime b = t"
    and gmtime_inverse: "gmtime t = Some b \<Longrightarrow> utc b = t \<and> tm_isdst b = 0"
    and near_total: "near t \<Longrightarrow> localtime t \<noteq> None \<and> gmtime t \<noteq> None"
begin

lemma os_mktime_utc:
  assumes "\<not> mktime_rejects year month day hour minute sec"
  defines "u \<equiv> utc (filled_tm year month day hour minute sec)"
  assumes "near (u - std)" "steady u std" "steady (u - std) std"
  shows "os_mktime mktime localtime gmtime year month day hour minute sec = Some u"
proof -
  let ?b = "filled_tm year month day hour minute sec"
  have local: "mktime ?b = u - std" unfolding u_def
    by (rule mktime_std) (use assms(4) in \<open>simp_all add: filled_tm_def u_def\<close>)
  obtain b1 b2 where b: "localtime (u - std) = Some b1" "gmtime (u - std) = Some b2"
    using near_total [OF assms(3)] by auto
  have "mktime b1 = u - std" using b(1) assms(5) by (rule localtime_inverse)
  moreover have "mktime b2 = u - std - std" using gmtime_inverse [OF b(2)] assms(5) by (simp add: mktime_std)
  ultimately show ?thesis using assms(1) b local by (simp add: os_mktime_def Let_def)
qed

end

section \<open>The calendar\<close>

definition leap :: "int \<Rightarrow> bool" where
  "leap y = (4 dvd y \<and> (\<not> 100 dvd y \<or> 400 dvd y))"

definition year_days :: "int \<Rightarrow> nat" where
  "year_days y = (if leap y then 366 else 365)"

definition month_days :: "int \<Rightarrow> nat list" where
  "month_days y = [31, if leap y then 29 else 28, 31, 30, 31, 30, 31, 31, 30, 31, 30, 31]"

text \<open>The number of days from 1 January 1970 to 1 January of a year.\<close>

definition days_before_year :: "int \<Rightarrow> int" where
  "days_before_year y = 365 * (y - 1970) + (y - 1) div 4 - (y - 1) div 100 + (y - 1) div 400 - 477"

definition utc_seconds :: "tm \<Rightarrow> int" where
  "utc_seconds b =
     (let y = tm_year b + 1900 + tm_mon b div 12; m = nat (tm_mon b mod 12);
          d = days_before_year y + int (sum_list (take m (month_days y))) + (tm_mday b - 1)
      in d * 86400 + tm_hour b * 3600 + tm_min b * 60 + tm_sec b)"

function year_of :: "int \<Rightarrow> nat \<Rightarrow> int \<times> nat" where
  "year_of y d = (if d < year_days y then (y, d) else year_of (y + 1) (d - year_days y))"
  by pat_completeness auto
termination
  by (relation "measure snd") (auto simp: year_days_def split: if_splits)

declare year_of.simps [simp del]

fun month_of :: "nat list \<Rightarrow> nat \<Rightarrow> nat \<times> nat" where
  "month_of [] d = (0, d)"
| "month_of (l # ls) d = (if d < l then (0, d) else let (m, d') = month_of ls (d - l) in (m + 1, d'))"

text \<open>146097 days make 400 years. The library gives no value when the year is not an \<open>int\<close>.\<close>

definition gmtime :: "int \<Rightarrow> tm option" where
  "gmtime t =
     (let days = t div 86400; s = t mod 86400;
          (y, yd) = year_of (1970 + 400 * (days div 146097)) (nat (days mod 146097));
          (m, d) = month_of (month_days y) yd
      in if - (2 ^ 31) \<le> y - 1900 \<and> y - 1900 < 2 ^ 31
         then Some \<lparr>tm_sec = s mod 60, tm_min = s div 60 mod 60, tm_hour = s div 3600, tm_mday = int d + 1,
                    tm_mon = int m, tm_year = y - 1900, tm_isdst = 0\<rparr>
         else None)"

text \<open>
  A zone: its first standard offset in seconds east of UTC, the times at which that changes and the
  new one, in order; when its summer time is, and what that adds.
\<close>

record zone =
  z_std :: int
  z_changes :: "(int \<times> int) list"
  z_save :: int
  z_summer :: "(int \<times> int) list"

definition std_at :: "zone \<Rightarrow> int \<Rightarrow> int" where
  "std_at z t = fold (\<lambda>(a, s) cur. if a \<le> t then s else cur) (z_changes z) (z_std z)"

definition offsets :: "zone \<Rightarrow> int list" where
  "offsets z = z_std z # map snd (z_changes z)"

definition in_summer :: "zone \<Rightarrow> int \<Rightarrow> bool" where
  "in_summer z t = list_ex (\<lambda>(a, b). a \<le> t \<and> t < b) (z_summer z)"

definition localtime :: "zone \<Rightarrow> int \<Rightarrow> tm option" where
  "localtime z t = (if in_summer z t
     then map_option (\<lambda>b. b\<lparr>tm_isdst := 1\<rparr>) (gmtime (t + std_at z t + z_save z))
     else gmtime (t + std_at z t))"

text \<open>A time whose local time is the given one; else one that has it in standard time; else a guess.\<close>

definition mktime :: "zone \<Rightarrow> tm \<Rightarrow> int" where
  "mktime z b =
     (let n = utc_seconds b - (if 0 < tm_isdst b then z_save z else 0);
          times = map (\<lambda>s. n - s) (offsets z)
      in case find (\<lambda>c. localtime z c = Some b) times of
           Some c \<Rightarrow> c
         | None \<Rightarrow> (case find (\<lambda>c. c + std_at z c = n) times of Some c \<Rightarrow> c | None \<Rightarrow> n - std_at z n))"

text \<open>No offset is beyond a day, and summers end: they take 300 days at most.\<close>

definition zone_ok :: "zone \<Rightarrow> bool" where
  "zone_ok z = (list_all (\<lambda>s. \<bar>s\<bar> \<le> 86400) (offsets z) \<and> \<bar>z_save z\<bar> \<le> 86400
     \<and> list_all (\<lambda>(a, b). b - a \<le> 300 * 86400) (z_summer z))"

text \<open>The standard offset does not change in so many days before and after a time.\<close>

definition unchanged :: "int \<Rightarrow> zone \<Rightarrow> int \<Rightarrow> bool" where
  "unchanged days z t = list_all (\<lambda>(a, s). days * 86400 < \<bar>a - t\<bar>) (z_changes z)"

definition steady_zone :: "zone \<Rightarrow> int \<Rightarrow> int \<Rightarrow> bool" where
  "steady_zone z t s = (zone_ok z \<and> unchanged 400 z t \<and> std_at z t = s)"

section \<open>The calendar is one\<close>

lemma div_prev:
  fixes y k :: int
  assumes "0 < k"
  shows "y div k = (y - 1) div k + (if k dvd y then 1 else 0)"
proof -
  have y: "y = k * (y div k) + y mod k" by simp
  have m: "0 \<le> y mod k" "y mod k < k" using assms by simp_all
  show ?thesis
  proof (cases "k dvd y")
    case True
    then have "y - 1 = k * (y div k - 1) + (k - 1)" by (simp add: algebra_simps)
    then have "(y - 1) div k = y div k - 1" using assms by (intro int_div_pos_eq [where r = "k - 1"]) simp_all
    with True show ?thesis by simp
  next
    case False
    then have "y mod k \<noteq> 0" by (simp add: dvd_eq_mod_eq_0)
    with m have "0 \<le> y mod k - 1" "y mod k - 1 < k" by simp_all
    moreover have "y - 1 = k * (y div k) + (y mod k - 1)" using y by simp
    ultimately have "(y - 1) div k = y div k" by (intro int_div_pos_eq)
    with False show ?thesis by simp
  qed
qed

lemma days_before_next: "days_before_year (y + 1) = days_before_year y + int (year_days y)"
proof -
  have imp: "400 dvd y \<Longrightarrow> 100 dvd y" "100 dvd y \<Longrightarrow> 4 dvd y" by (erule dvd_trans [rotated], simp)+
  have "y div 4 - y div 100 + y div 400 =
    (y - 1) div 4 - (y - 1) div 100 + (y - 1) div 400 + (if leap y then 1 else 0)"
    unfolding leap_def div_prev [of 4 y, simplified] div_prev [of 100 y, simplified] div_prev [of 400 y, simplified]
    using imp by (cases "4 dvd y"; cases "100 dvd y"; cases "400 dvd y") simp_all
  then show ?thesis by (cases "leap y") (simp_all add: days_before_year_def year_days_def)
qed

lemma days_before_mono: "x < y \<Longrightarrow> days_before_year x + int (year_days x) \<le> days_before_year y"
proof -
  have grow: "days_before_year (x + 1) \<le> days_before_year (x + 1 + int n)" for n
  proof (induction n)
    case (Suc n)
    have "x + 1 + int (Suc n) = x + 1 + int n + 1" by simp
    then show ?case using Suc days_before_next [of "x + 1 + int n"] by simp
  qed simp
  assume "x < y"
  then have "y = x + 1 + int (nat (y - x - 1))" by simp
  then show ?thesis using grow [of "nat (y - x - 1)"] days_before_next [of x] by simp
qed

lemma year_of_days:
  "year_of y d = (y', d') \<Longrightarrow> d' < year_days y' \<and> days_before_year y' + int d' = days_before_year y + int d"
proof (induction y d rule: year_of.induct)
  case (1 y d)
  show ?case
  proof (cases "d < year_days y")
    case True
    then show ?thesis using 1(2) by (subst (asm) year_of.simps) simp
  next
    case False
    then have "year_of (y + 1) (d - year_days y) = (y', d')" using 1(2) by (subst (asm) year_of.simps) simp
    from 1(1) [OF False this] False show ?thesis using days_before_next [of y] by simp
  qed
qed

lemma year_unique:
  assumes "days_before_year y + int d = days_before_year y' + int d'" "d < year_days y" "d' < year_days y'"
  shows "y = y' \<and> d = d'"
proof -
  have "\<not> y < y'" "\<not> y' < y" using days_before_mono [of y y'] days_before_mono [of y' y] assms by linarith+
  then have "y = y'" by simp
  with assms show ?thesis by simp
qed

lemma month_of_days:
  "d < sum_list ls \<Longrightarrow> month_of ls d = (m, d') \<Longrightarrow>
   m < length ls \<and> d' < ls ! m \<and> sum_list (take m ls) + d' = d"
proof (induction ls arbitrary: d m)
  case (Cons l ls)
  show ?case
  proof (cases "d < l")
    case False
    then obtain k where k: "month_of ls (d - l) = (k, d')" "m = Suc k"
      using Cons.prems by (auto split: prod.splits)
    have "d - l < sum_list ls" using Cons.prems False by simp
    from Cons.IH [OF this k(1)] k False show ?thesis by auto
  qed (use Cons.prems in auto)
qed simp

lemma month_of_at: "m < length ls \<Longrightarrow> d < ls ! m \<Longrightarrow> month_of ls (sum_list (take m ls) + d) = (m, d)"
proof (induction ls arbitrary: m)
  case (Cons l ls)
  show ?case
  proof (cases m)
    case (Suc k)
    with Cons have "month_of ls (sum_list (take k ls) + d) = (k, d)" by simp
    with Suc show ?thesis by simp
  qed (use Cons.prems in simp)
qed simp

lemma sum_month_days: "sum_list (month_days y) = year_days y"
  by (simp add: month_days_def year_days_def)

lemma days_before_cycle: "days_before_year (1970 + 400 * k) = 146097 * k"
proof -
  have "(1969 + 400 * k) div 4 = 492 + 100 * k" by (rule int_div_pos_eq [where r = 1]) simp_all
  moreover have "(1969 + 400 * k) div 100 = 19 + 4 * k" by (rule int_div_pos_eq [where r = 69]) simp_all
  moreover have "(1969 + 400 * k) div 400 = 4 + k" by (rule int_div_pos_eq [where r = 369]) simp_all
  ultimately show ?thesis by (simp add: days_before_year_def)
qed

lemma gmtime_days:
  fixes t :: int
  defines "days \<equiv> t div 86400"
  assumes "year_of (1970 + 400 * (days div 146097)) (nat (days mod 146097)) = (y, yd)"
  shows "yd < year_days y" "days_before_year y + int yd = days"
proof -
  have "0 \<le> days mod 146097" by simp
  then have "days_before_year (1970 + 400 * (days div 146097)) + int (nat (days mod 146097)) = days"
    by (simp only: days_before_cycle int_nat_eq) simp
  with year_of_days [OF assms(2)] show "yd < year_days y" "days_before_year y + int yd = days" by simp_all
qed

lemma gmtime_eq:
  assumes "yd < year_days y" "days_before_year y + int yd = t div 86400" "month_of (month_days y) yd = (m, d)"
    "- (2 ^ 31) \<le> y - 1900" "y - 1900 < 2 ^ 31"
  shows "gmtime t = Some \<lparr>tm_sec = t mod 86400 mod 60, tm_min = t mod 86400 div 60 mod 60,
    tm_hour = t mod 86400 div 3600, tm_mday = int d + 1, tm_mon = int m, tm_year = y - 1900, tm_isdst = 0\<rparr>"
proof -
  obtain y' yd' where y': "year_of (1970 + 400 * (t div 86400 div 146097)) (nat (t div 86400 mod 146097)) = (y', yd')"
    by fastforce
  from gmtime_days [OF this] year_unique [of y' yd' y yd] assms(1,2) have "y' = y \<and> yd' = yd" by simp
  with y' assms(3,4,5) show ?thesis by (simp add: gmtime_def Let_def)
qed

lemma hms_sum: "s div 3600 * 3600 + s div 60 mod 60 * 60 + s mod 60 = (s :: int)"
proof -
  have "s div 3600 * 60 + s div 60 mod 60 = s div 60"
    using div_mult_mod_eq [of "s div 60" 60] zdiv_zmult2_eq [of 60 s 60] by simp
  with div_mult_mod_eq [of s 60] show ?thesis by linarith
qed

lemma hms_split:
  fixes hour minute sec :: int
  assumes "0 \<le> minute" "minute < 60" "0 \<le> sec" "sec < 60"
  defines "s \<equiv> hour * 3600 + minute * 60 + sec"
  shows "s mod 60 = sec" "s div 60 mod 60 = minute" "s div 3600 = hour"
proof -
  have "s div 60 = hour * 60 + minute" using assms by (intro int_div_pos_eq [where r = sec]) simp_all
  moreover have "(hour * 60 + minute) mod 60 = minute" using assms by (intro int_mod_pos_eq [where q = hour]) simp_all
  ultimately show "s div 60 mod 60 = minute" by simp
  show "s mod 60 = sec" using assms by (intro int_mod_pos_eq [where q = "hour * 60 + minute"]) simp_all
  show "s div 3600 = hour" using assms by (intro int_div_pos_eq [where r = "minute * 60 + sec"]) simp_all
qed

lemma gmtime_utc: "gmtime t = Some b \<Longrightarrow> utc_seconds b = t \<and> tm_isdst b = 0"
proof -
  assume g: "gmtime t = Some b"
  obtain y yd where y: "year_of (1970 + 400 * (t div 86400 div 146097)) (nat (t div 86400 mod 146097)) = (y, yd)"
    by fastforce
  obtain m d where m: "month_of (month_days y) yd = (m, d)" by fastforce
  from g y m have b: "b = \<lparr>tm_sec = t mod 86400 mod 60, tm_min = t mod 86400 div 60 mod 60,
    tm_hour = t mod 86400 div 3600, tm_mday = int d + 1, tm_mon = int m, tm_year = y - 1900, tm_isdst = 0\<rparr>"
    by (simp add: gmtime_def Let_def split: if_splits)
  have md: "m < 12" "sum_list (take m (month_days y)) + d = yd"
    using month_of_days [OF _ m] gmtime_days [OF y] by (simp_all add: sum_month_days) (simp add: month_days_def)
  have mm: "int m div 12 = 0" "int m mod 12 = int m" using md(1) by simp_all
  have "days_before_year y + int yd = t div 86400" using gmtime_days [OF y] by simp
  then have "utc_seconds b = t div 86400 * 86400 + t mod 86400 div 3600 * 3600
     + t mod 86400 div 60 mod 60 * 60 + t mod 86400 mod 60"
    using md(2) by (simp add: b utc_seconds_def mm Let_def)
  also have "\<dots> = t div 86400 * 86400 + t mod 86400" using hms_sum [of "t mod 86400"] by linarith
  also have "\<dots> = t" by simp
  finally show ?thesis by (simp add: b)
qed

lemma std_at_in: "std_at z t \<in> set (offsets z)"
proof -
  have "fold (\<lambda>(a, s) cur. if a \<le> t then s else cur) cs s0 \<in> set (s0 # map snd cs)" for cs s0
  proof (induction cs arbitrary: s0)
    case (Cons c cs)
    then show ?case using Cons.IH [of s0] Cons.IH [of "snd c"] by (cases c) auto
  qed simp
  then show ?thesis by (simp only: std_at_def offsets_def)
qed

lemma std_at_bound: "zone_ok z \<Longrightarrow> \<bar>std_at z t\<bar> \<le> 86400"
  using std_at_in [of z t] by (auto simp: zone_ok_def list_all_iff)

lemma unchanged_near: "unchanged d z t \<Longrightarrow> \<bar>t' - t\<bar> \<le> k * 86400 \<Longrightarrow> unchanged (d - k) z t'"
  unfolding unchanged_def list_all_iff by (fastforce simp: algebra_simps)

lemma std_at_near:
  assumes "unchanged d z t" "\<bar>c - t\<bar> \<le> d * 86400"
  shows "std_at z c = std_at z t"
proof -
  have "list_all (\<lambda>(a, s). d * 86400 < \<bar>a - t\<bar>) cs \<Longrightarrow>
      fold (\<lambda>(a, s) cur. if a \<le> c then s else cur) cs s0 = fold (\<lambda>(a, s) cur. if a \<le> t then s else cur) cs s0" for cs s0
  proof (induction cs arbitrary: s0)
    case (Cons p cs)
    obtain a s where p: "p = (a, s)" by fastforce
    have "a \<le> c \<longleftrightarrow> a \<le> t" using Cons.prems assms(2) by (auto simp: p)
    with Cons show ?case by (simp add: p)
  qed simp
  with assms(1) show ?thesis by (simp add: unchanged_def std_at_def)
qed

text \<open>What a local time says of the time it belongs to.\<close>

lemma localtime_sum:
  "localtime z t = Some b \<Longrightarrow> utc_seconds b - (if 0 < tm_isdst b then z_save z else 0) = t + std_at z t"
proof -
  assume "localtime z t = Some b"
  then consider (summer) b' where "gmtime (t + std_at z t + z_save z) = Some b'" "b = b'\<lparr>tm_isdst := 1\<rparr>"
    | (standard) "gmtime (t + std_at z t) = Some b"
    by (auto simp: localtime_def split: if_splits)
  then show ?thesis
  proof cases
    case summer
    have "utc_seconds (b'\<lparr>tm_isdst := 1\<rparr>) = utc_seconds b'" by (simp add: utc_seconds_def)
    with summer gmtime_utc [OF summer(1)] show ?thesis by simp
  qed (use gmtime_utc in force)
qed

text \<open>Near a time where the standard offset is \<open>s\<close>, only one time can be the answer, and it is found.\<close>

lemma mktime_steady:
  fixes z b
  defines "n \<equiv> utc_seconds b - (if 0 < tm_isdst b then z_save z else 0)"
  assumes "zone_ok z" "unchanged 2 z (n - s)" "std_at z (n - s) = s"
  shows "mktime z b = n - s"
proof -
  let ?times = "map (\<lambda>s. n - s) (offsets z)"
  have s: "s \<in> set (offsets z)" "\<bar>s\<bar> \<le> 86400" using std_at_in [of z "n - s"] std_at_bound [OF assms(2)] assms(4) by metis+
  have only: "c = n - s" if "c \<in> set ?times" "c + std_at z c = n" for c
  proof -
    have "\<bar>c - (n - s)\<bar> \<le> 2 * 86400" using that(1) s(2) assms(2) by (force simp: zone_ok_def list_all_iff)
    with std_at_near [OF assms(3)] assms(4) that(2) show ?thesis by simp
  qed
  show ?thesis
  proof (cases "find (\<lambda>c. localtime z c = Some b) ?times")
    case (Some c)
    then have "c \<in> set ?times" "localtime z c = Some b" by (auto simp: find_Some_iff)
    with only localtime_sum [of z c b] have "c = n - s" by (simp add: n_def)
    with Some show ?thesis by (simp add: mktime_def Let_def n_def)
  next
    case none: None
    have "find (\<lambda>c. c + std_at z c = n) ?times \<noteq> None"
      using s(1) assms(4) by (auto simp: find_None_iff intro!: exI [of _ "n - s"])
    then obtain c where c: "find (\<lambda>c. c + std_at z c = n) ?times = Some c" by blast
    then have "c \<in> set ?times" "c + std_at z c = n" by (auto simp: find_Some_iff)
    with only have "c = n - s" by blast
    with none c show ?thesis by (simp add: mktime_def Let_def n_def)
  qed
qed

lemma gmtime_total:
  assumes "days_before_year 1000 \<le> t div 86400" "t div 86400 < days_before_year (2 ^ 31 + 1000)"
  shows "gmtime t \<noteq> None"
proof -
  obtain y yd where y: "year_of (1970 + 400 * (t div 86400 div 146097)) (nat (t div 86400 mod 146097)) = (y, yd)"
    by fastforce
  obtain m d where m: "month_of (month_days y) yd = (m, d)" by fastforce
  note days = gmtime_days [OF y]
  have "\<not> y < 1000" using days_before_mono [of y 1000] days assms by linarith
  moreover have "\<not> 2 ^ 31 + 1000 < y" using days_before_mono [of "2 ^ 31 + 1000" y] days assms by linarith
  ultimately show ?thesis using gmtime_eq [OF days m] by simp
qed

definition in_calendar :: "int \<Rightarrow> bool" where
  "in_calendar t = (days_before_year 1900 \<le> t div 86400 \<and> t div 86400 < days_before_year (2 ^ 31 + 100))"

lemma gmtime_near:
  assumes "in_calendar t" "\<bar>s\<bar> \<le> 200000"
  shows "gmtime (t + s) \<noteq> None"
proof (rule gmtime_total)
  have "t div 86400 - 3 \<le> (t + s) div 86400" "(t + s) div 86400 \<le> t div 86400 + 3" using assms(2) by linarith+
  with assms(1) show "days_before_year 1000 \<le> (t + s) div 86400"
    "(t + s) div 86400 < days_before_year (2 ^ 31 + 1000)"
    by (simp_all add: in_calendar_def days_before_year_def)
qed

interpretation zoned: c_calendar "mktime z" "localtime z" gmtime utc_seconds "steady_zone z"
  "\<lambda>t. zone_ok z \<and> in_calendar t" for z
proof
  fix t :: int
  assume t: "zone_ok z \<and> in_calendar t"
  then have o: "\<bar>std_at z t\<bar> \<le> 86400" "\<bar>z_save z\<bar> \<le> 86400" using std_at_bound by (auto simp: zone_ok_def)
  have "gmtime (t + 0) \<noteq> None" by (rule gmtime_near) (use t in simp_all)
  moreover have "gmtime (t + std_at z t) \<noteq> None" by (rule gmtime_near) (use t o in simp_all)
  moreover have "gmtime (t + (std_at z t + z_save z)) \<noteq> None" by (rule gmtime_near) (use t o in auto)
  ultimately show "localtime z t \<noteq> None \<and> gmtime t \<noteq> None" by (simp add: localtime_def add.assoc)
next
  fix b std
  assume b: "tm_isdst b = 0" "steady_zone z (utc_seconds b) std"
  then have ok: "zone_ok z" "unchanged 400 z (utc_seconds b)" and std: "std_at z (utc_seconds b) = std"
    by (simp_all add: steady_zone_def)
  have "\<bar>std\<bar> \<le> 86400" using std_at_bound [OF ok(1)] std by metis
  then have "unchanged (400 - 1) z (utc_seconds b - std)" "std_at z (utc_seconds b - std) = std"
    using unchanged_near [OF ok(2), of "utc_seconds b - std" 1] std_at_near [OF ok(2), of "utc_seconds b - std"] std by simp_all
  moreover from this(1) have "unchanged 2 z (utc_seconds b - std)" by (auto simp: unchanged_def list_all_iff)
  ultimately show "mktime z b = utc_seconds b - std" using mktime_steady [OF ok(1), of b std] b(1) by simp
next
  fix t b std
  assume b: "localtime z t = Some b" "steady_zone z t std"
  then have "zone_ok z" "unchanged 2 z t" "std_at z t = std" by (auto simp: steady_zone_def unchanged_def list_all_iff)
  with mktime_steady [of z b std] localtime_sum [OF b(1)] show "mktime z b = t" by simp
qed (use gmtime_utc in auto)

section \<open>What the two functions do\<close>

definition valid_date :: "int \<Rightarrow> int \<Rightarrow> int \<Rightarrow> int \<Rightarrow> int \<Rightarrow> int \<Rightarrow> bool" where
  "valid_date year month day hour minute sec =
     (1970 \<le> year \<and> year < 2 ^ 31 \<and> 1 \<le> month \<and> month \<le> 12 \<and>
      1 \<le> day \<and> day \<le> int (month_days year ! nat (month - 1)) \<and>
      0 \<le> hour \<and> hour < 24 \<and> 0 \<le> minute \<and> minute < 60 \<and> 0 \<le> sec \<and> sec < 60)"

lemma month_days_31: "m < 12 \<Longrightarrow> month_days y ! m \<le> 31"
  by (simp add: month_days_def less_Suc_eq numeral_eq_Suc) auto

lemma valid_not_rejected:
  assumes "valid_date year month day hour minute sec"
  shows "\<not> mktime_rejects year month day hour minute sec"
proof -
  have "nat (month - 1) < 12" using assms by (auto simp: valid_date_def)
  from month_days_31 [OF this, of year] assms show ?thesis by (auto simp: valid_date_def mktime_rejects_def)
qed

text \<open>The day of the year of a date, and the time of the day.\<close>

lemma utc_filled:
  assumes "\<not> mktime_rejects year month day hour minute sec"
  shows "utc_seconds (filled_tm year month day hour minute sec) =
    (days_before_year year + int (sum_list (take (nat (month - 1)) (month_days year))) + (day - 1)) * 86400
      + (hour * 3600 + minute * 60 + sec)"
  using assms by (simp add: utc_seconds_def filled_tm_def mktime_rejects_def Let_def)

lemma days_before_month: "sum_list (take m (month_days y)) \<le> 366"
proof -
  have "sum_list (take m (month_days y)) \<le> sum_list (take m (month_days y)) + sum_list (drop m (month_days y))" by simp
  also have "\<dots> = sum_list (month_days y)" by (simp flip: sum_list_append)
  finally show ?thesis by (simp add: sum_month_days year_days_def split: if_splits)
qed

lemma accepted_near:
  assumes "\<not> mktime_rejects year month day hour minute sec" "year < 2 ^ 31" "\<bar>s\<bar> \<le> 86400"
  shows "in_calendar (utc_seconds (filled_tm year month day hour minute sec) - s)"
proof -
  let ?t = "utc_seconds (filled_tm year month day hour minute sec)"
  let ?D = "days_before_year year"
  have f: "1970 \<le> year" "1 \<le> day" "day \<le> 31" "0 \<le> hour * 3600 + minute * 60 + sec"
    "hour * 3600 + minute * 60 + sec \<le> 86400" using assms(1) by (simp_all add: mktime_rejects_def)
  have "?D * 86400 \<le> ?t" "?t \<le> (?D + 398) * 86400"
    using f days_before_month [of "nat (month - 1)" year] by (simp_all add: utc_filled [OF assms(1)])
  then have "?D - 2 \<le> (?t - s) div 86400" "(?t - s) div 86400 \<le> ?D + 400"
    using assms(3) by simp_all
  moreover have "days_before_year 1970 \<le> ?D" "?D \<le> days_before_year (2 ^ 31)"
    using days_before_mono [of 1970 year] days_before_mono [of year "2 ^ 31"] f assms(2) by force+
  ultimately show ?thesis by (simp add: in_calendar_def days_before_year_def)
qed

lemma gmtime_filled:
  assumes "valid_date year month day hour minute sec"
  shows "gmtime (utc_seconds (filled_tm year month day hour minute sec)) =
    Some (filled_tm year month day hour minute sec)"
proof -
  let ?m = "nat (month - 1)" and ?s = "hour * 3600 + minute * 60 + sec"
  let ?yd = "sum_list (take ?m (month_days year)) + nat (day - 1)"
  let ?t = "utc_seconds (filled_tm year month day hour minute sec)"
  note v = assms [unfolded valid_date_def]
  have m: "?m < 12" and d: "nat (day - 1) < month_days year ! ?m" using v by auto
  have t: "?t = (days_before_year year + int ?yd) * 86400 + ?s"
    using v by (simp add: utc_filled [OF valid_not_rejected [OF assms]])
  have s: "0 \<le> ?s" "?s < 86400" using v by simp_all
  then have td: "?t div 86400 = days_before_year year + int ?yd" "?t mod 86400 = ?s"
    using int_div_pos_eq [of ?t 86400 "days_before_year year + int ?yd" ?s]
      int_mod_pos_eq [of ?t 86400 "days_before_year year + int ?yd" ?s] t by simp_all
  have l: "?m < length (month_days year)" using m by (simp add: month_days_def)
  have "?yd < sum_list (take (Suc ?m) (month_days year))" using d by (simp add: take_Suc_conv_app_nth [OF l])
  also have "\<dots> \<le> sum_list (take (Suc ?m) (month_days year)) + sum_list (drop (Suc ?m) (month_days year))" by simp
  also have "\<dots> = year_days year" by (simp add: sum_month_days flip: sum_list_append)
  finally have "gmtime ?t = Some \<lparr>tm_sec = ?s mod 60, tm_min = ?s div 60 mod 60,
      tm_hour = ?s div 3600, tm_mday = int (nat (day - 1)) + 1, tm_mon = int ?m, tm_year = year - 1900, tm_isdst = 0\<rparr>"
    using gmtime_eq [of ?yd year ?t ?m "nat (day - 1)"] td month_of_at [OF l d] v by simp
  then show ?thesis using v hms_split [of minute sec hour] by (simp add: filled_tm_def)
qed

lemma os_mktime_rejects:
  "mktime_rejects year month day hour minute sec \<Longrightarrow> os_mktime mk lt gt year month day hour minute sec = None"
  by (simp add: os_mktime_def)

text \<open>A day that the month does not have is taken for one of the next month.\<close>

lemma february_30: "utc_seconds (filled_tm 2023 2 30 h m s) = utc_seconds (filled_tm 2023 3 2 h m s)"
  by (simp add: utc_seconds_def filled_tm_def month_days_def leap_def)

text \<open>The library's years count from 1900: the last 1900 of them have no \<open>int\<close> once the code adds that back.\<close>

lemma os_gmtime_overflow: "os_gmtime gmtime (days_before_year (2 ^ 31) * 86400) = Fault BadArith"
proof -
  have "month_of (month_days (2 ^ 31)) 0 = (0, 0)" by (simp add: month_days_def)
  then have "gmtime (days_before_year (2 ^ 31) * 86400) = Some \<lparr>tm_sec = 0, tm_min = 0, tm_hour = 0,
      tm_mday = 1, tm_mon = 0, tm_year = 2 ^ 31 - 1900, tm_isdst = 0\<rparr>"
    by (subst gmtime_eq [where y = "2 ^ 31" and yd = 0]) (simp_all add: year_days_def)
  then show ?thesis by (simp add: os_gmtime_def)
qed

text \<open>
  Moscow moved from four hours east of UTC to three at 22:00 UTC on 25 October 2014, with no summer
  time. In the hours after that the code measures the old offset where the new one is in force, and
  is an hour off.
\<close>

definition moscow :: zone where
  "moscow = \<lparr>z_std = 14400, z_changes = [(1414274400, 10800)], z_save = 3600, z_summer = []\<rparr>"

lemma gmtime_at:
  assumes "valid_date year month day hour minute sec"
    "t = utc_seconds (filled_tm year month day hour minute sec)"
  shows "gmtime t = Some (filled_tm year month day hour minute sec)"
  using gmtime_filled [OF assms(1)] assms(2) by simp

lemma moscow_2014:
  "os_mktime (mktime moscow) (localtime moscow) gmtime 2014 10 26 2 30 0 =
    Some (utc_seconds (filled_tm 2014 10 26 2 30 0) + 3600)"
proof -
  have utc: "utc_seconds (filled_tm 2014 10 26 2 30 0) = 1414290600"
    "utc_seconds (filled_tm 2014 10 26 1 30 0) = 1414287000"
    "utc_seconds (filled_tm 2014 10 25 23 30 0) = 1414279800"
    by (simp_all add: utc_seconds_def filled_tm_def month_days_def leap_def days_before_year_def)
  have gm: "gmtime 1414290600 = Some (filled_tm 2014 10 26 2 30 0)"
    "gmtime 1414287000 = Some (filled_tm 2014 10 26 1 30 0)"
    "gmtime 1414279800 = Some (filled_tm 2014 10 25 23 30 0)"
    by (rule gmtime_at; simp add: utc valid_date_def month_days_def leap_def)+
  have "mktime moscow (filled_tm 2014 10 26 2 30 0) = 1414279800"
    "localtime moscow 1414279800 = Some (filled_tm 2014 10 26 2 30 0)"
    "mktime moscow (filled_tm 2014 10 25 23 30 0) = 1414265400"
    by (simp_all add: mktime_def localtime_def moscow_def std_at_def offsets_def in_summer_def utc gm Let_def)
       (simp_all add: filled_tm_def)
  then show ?thesis by (simp add: os_mktime_def mktime_rejects_def gm utc)
qed

text \<open>
  C25: Where the standard offset of the time zone does not change in the 401 days before and after
  the date, \<open>os_mktime\<close> takes each date of the calendar from 1970 as UTC, with summer time or without,
  and \<open>os_gmtime\<close> gives that date back.
\<close>

theorem os_time_round_trip:
  assumes "zone_ok z" "valid_date year month day hour minute sec"
    "unchanged 401 z (utc_seconds (filled_tm year month day hour minute sec))"
  shows "os_mktime (mktime z) (localtime z) gmtime year month day hour minute sec =
      Some (utc_seconds (filled_tm year month day hour minute sec)) \<and>
    os_gmtime gmtime (utc_seconds (filled_tm year month day hour minute sec)) =
      Ret (Some \<lparr>ot_sec = sec, ot_min = minute, ot_hour = hour, ot_day = day, ot_month = month, ot_year = year\<rparr>)"
proof -
  let ?u = "utc_seconds (filled_tm year month day hour minute sec)"
  note r = valid_not_rejected [OF assms(2)]
  have y: "year < 2 ^ 31" using assms(2) by (simp add: valid_date_def)
  have s: "\<bar>std_at z ?u\<bar> \<le> 86400" using std_at_bound [OF assms(1)] .
  have "unchanged (401 - 1) z ?u" "unchanged (401 - 1) z (?u - std_at z ?u)"
    by (rule unchanged_near [OF assms(3)]; use s in simp)+
  moreover have "std_at z (?u - std_at z ?u) = std_at z ?u" by (rule std_at_near [OF assms(3)]) (use s in simp)
  ultimately have "os_mktime (mktime z) (localtime z) gmtime year month day hour minute sec = Some ?u"
    using accepted_near [OF r y s] assms(1)
    by (intro zoned.os_mktime_utc [OF r, where std = "std_at z ?u"]) (simp_all add: steady_zone_def)
  moreover have "os_gmtime gmtime ?u =
    Ret (Some \<lparr>ot_sec = sec, ot_min = minute, ot_hour = hour, ot_day = day, ot_month = month, ot_year = year\<rparr>)"
    using y by (simp add: os_gmtime_def gmtime_filled [OF assms(2)]) (simp add: filled_tm_def)
  ultimately show ?thesis by blast
qed

text \<open>A zone that once changed its standard offset, and has summer time: Istanbul, before and after 2016.\<close>

definition istanbul :: zone where
  "istanbul = \<lparr>z_std = 7200, z_changes = [(1473195600, 10800)], z_save = 3600,
     z_summer = [(1396141200, 1414285200), (1427590800, 1446944400), (1459040400, 1473195600)]\<rparr>"

theorem os_time_round_trip_witness:
  "os_mktime (mktime istanbul) (localtime istanbul) gmtime 2014 7 29 23 59 58 = Some 1406678398 \<and>
    os_gmtime gmtime 1406678398 = Ret (Some \<lparr>ot_sec = 58, ot_min = 59, ot_hour = 23, ot_day = 29, ot_month = 7, ot_year = 2014\<rparr>)"
proof -
  have utc: "utc_seconds (filled_tm 2014 7 29 23 59 58) = 1406678398"
    by (simp add: utc_seconds_def filled_tm_def month_days_def leap_def days_before_year_def)
  show ?thesis using os_time_round_trip [of istanbul 2014 7 29 23 59 58]
    by (simp add: utc zone_ok_def istanbul_def offsets_def unchanged_def valid_date_def month_days_def leap_def)
qed

end
