(* ===== verification/OsProcess.thy ===== *)
theory OsProcess
  imports OsUnix CNum
begin

text \<open>
  The functions of src/src/wifi/wpa_socket/os_unix.c that pass a question to the operating system:
  sleeping and the clock, the environment, files, the daemon and its pid file, running a program.
  What the system answers is an argument; what is asked of it, and the environment and the files as
  POSIX describes them, are results.
\<close>

section \<open>Sleeping and the clock\<close>

text \<open>The arguments of \<open>sleep\<close> and \<open>usleep\<close> are 32 bits wide.\<close>

datatype pause = Sleep int | USleep int

definition os_sleep :: "int \<Rightarrow> int \<Rightarrow> pause list" where
  "os_sleep sec usec = (if sec \<noteq> 0 then [Sleep (sec mod 2 ^ 32)] else []) @ (if usec \<noteq> 0 then [USleep (usec mod 2 ^ 32)] else [])"

text \<open>The time is copied whatever \<open>gettimeofday\<close> returns.\<close>

definition os_get_time :: "int \<times> int \<times> int \<Rightarrow> int \<times> os_time" where
  "os_get_time tod = (case tod of (res, sec, usec) \<Rightarrow> (res, \<lparr>rt_sec = sec, rt_usec = usec\<rparr>))"

definition os_random :: "int \<Rightarrow> int" where "os_random rnd = rnd"

section \<open>The environment\<close>

type_synonym environment = "string \<Rightarrow> string option"

definition name_refused :: "string \<Rightarrow> bool" where
  "name_refused name = (name = [] \<or> CHR ''='' \<in> set name)"

text \<open>\<open>setenv\<close> and \<open>unsetenv\<close> of POSIX.\<close>

definition os_setenv :: "string \<Rightarrow> string \<Rightarrow> bool \<Rightarrow> environment \<Rightarrow> int \<times> environment" where
  "os_setenv name val overwrite env =
     (if name_refused name then (-1, env)
      else if env name \<noteq> None \<and> \<not> overwrite then (0, env) else (0, env(name \<mapsto> val)))"

text \<open>Where \<open>unsetenv\<close> gives no result, the function returns 0 whatever happened.\<close>

definition os_unsetenv :: "bool \<Rightarrow> string \<Rightarrow> environment \<Rightarrow> int \<times> environment" where
  "os_unsetenv bsd name env =
     (if name_refused name then (if bsd then 0 else -1, env) else (0, env(name := None)))"

section \<open>Files\<close>

type_synonym files = "string \<Rightarrow> string option"

definition os_file_exists :: "files \<Rightarrow> string \<Rightarrow> bool" where
  "os_file_exists fs fname = (fs fname \<noteq> None)"

text \<open>The results of \<open>fflush\<close> and \<open>fdatasync\<close>; the second is asked only after a flush.\<close>

definition os_fdatasync :: "int \<Rightarrow> int \<Rightarrow> int" where
  "os_fdatasync flushed synced = (if flushed = 0 then synced else -1)"

section \<open>Daemons\<close>

text \<open>\<open>os_daemon\<close> where the system has no \<open>daemon\<close>: \<open>devnull\<close> is the descriptor, \<open>dups\<close> tells for each
  of the standard streams whether it can be redirected. The descriptors closed again are the second result.\<close>

definition os_daemon :: "bool \<Rightarrow> int \<Rightarrow> (nat \<Rightarrow> bool) \<Rightarrow> int \<times> int list" where
  "os_daemon chdir_ok devnull dups =
     (if \<not> chdir_ok then (-1, [])
      else if devnull < 0 then (-1, [])
      else if \<not> dups 0 then (-1, [devnull])
      else if \<not> dups 1 then (-1, [devnull])
      else if \<not> dups 2 then (-1, [devnull])
      else (0, []))"

text \<open>A pid file that cannot be opened is ignored; \<open>writable\<close> tells which can.\<close>

definition os_daemonize :: "bool \<Rightarrow> nat \<Rightarrow> (string \<Rightarrow> bool) \<Rightarrow> string option \<Rightarrow> files \<Rightarrow> int \<times> files" where
  "os_daemonize daemon_fails getpid writable pid_file fs =
     (if daemon_fails then (-1, fs)
      else (0, (case pid_file of
         None \<Rightarrow> fs
       | Some p \<Rightarrow> if writable p then fs(p \<mapsto> show_nat getpid @ [LF]) else fs)))"

definition os_daemonize_terminate :: "string option \<Rightarrow> files \<Rightarrow> files" where
  "os_daemonize_terminate pid_file fs = (case pid_file of None \<Rightarrow> fs | Some p \<Rightarrow> fs(p := None))"

text \<open>On Android the program gives up its privileges; every failure there is ignored.\<close>

datatype privilege = SetGroups "string list" | KeepCaps | SetGid string | SetUid string | CapSet "string list"

definition os_program_init :: "bool \<Rightarrow> int \<times> privilege list" where
  "os_program_init android = (0, if android
     then [SetGroups [''AID_INET'', ''AID_WIFI'', ''AID_KEYSTORE''], KeepCaps, SetGid ''AID_WIFI'', SetUid ''AID_WIFI'',
           CapSet [''CAP_NET_ADMIN'', ''CAP_NET_RAW'']]
     else [])"

section \<open>Running a program\<close>

text \<open>What the processes do: the child replaces itself, or leaves with 0 when it cannot; the parent may wait.\<close>

datatype process = Execv string "string list" | ChildExit int | WaitPid

datatype forked = ForkFails | InChild | InParent

text \<open>The result, None in a process that does not come back.\<close>

definition os_exec :: "forked \<Rightarrow> bool \<Rightarrow> string \<Rightarrow> string \<Rightarrow> bool \<Rightarrow> int option \<times> process list" where
  "os_exec pid execv_ok program arg wait_completion = (case pid of
       ForkFails \<Rightarrow> (Some (-1), [])
     | InChild \<Rightarrow> (None, Execv program (os_exec_argv program arg) # (if execv_ok then [] else [ChildExit 0]))
     | InParent \<Rightarrow> (Some 0, if wait_completion then [WaitPid] else []))"

section \<open>What they do\<close>

lemma setenv_then_get:
  assumes "\<not> name_refused name"
  shows "fst (os_setenv name val True env) = 0 \<and> snd (os_setenv name val True env) name = Some val"
    and "snd (os_setenv name val False env) name = Some (case env name of None \<Rightarrow> val | Some old \<Rightarrow> old)"
    and "snd (os_unsetenv bsd name (snd (os_setenv name val True env))) = env(name := None)"
  using assms by (auto simp: os_setenv_def os_unsetenv_def split: option.splits)

lemma setenv_others: "other \<noteq> name \<Longrightarrow> snd (os_setenv name val ov env) other = env other"
  by (simp add: os_setenv_def)

text \<open>Terminating takes away what daemonizing wrote.\<close>

lemma daemonize_pid_file:
  assumes "os_daemonize False n writable (Some p) fs = (ret, fs')"
  shows "ret = 0" "writable p \<Longrightarrow> fs' p = Some (show_nat n @ [LF])"
    "os_daemonize_terminate (Some p) fs' = fs(p := None)" "\<not> os_file_exists (os_daemonize_terminate (Some p) fs') p"
  using assms by (auto simp: os_daemonize_def os_daemonize_terminate_def os_file_exists_def split: if_splits)

text \<open>No descriptor is closed twice, and a failure after the open closes it.\<close>

lemma daemon_closes: "os_daemon c d ds = (-1, cs) \<Longrightarrow> c \<Longrightarrow> 0 \<le> d \<Longrightarrow> cs = [d]"
  by (auto simp: os_daemon_def split: if_splits)

text \<open>The words of the argument string: at most 29, none empty, none with a space.\<close>

lemma exec_words_proper:
  "length (exec_words n pos) \<le> n" "w \<in> set (exec_words n pos) \<Longrightarrow> w \<noteq> [] \<and> CHR '' '' \<notin> set w"
proof -
  show "length (exec_words n pos) \<le> n"
    by (induction n pos rule: exec_words.induct) (auto split: list.splits)
  show "w \<in> set (exec_words n pos) \<Longrightarrow> w \<noteq> [] \<and> CHR '' '' \<notin> set w"
  proof (induction n pos rule: exec_words.induct)
    case (2 n pos)
    show ?case
    proof (cases "dropWhile (\<lambda>c. c = CHR '' '') pos")
      case (Cons c s)
      have "c \<noteq> CHR '' ''" using hd_dropWhile [of "\<lambda>c. c = CHR '' ''" pos] Cons by simp
      with 2 Cons show ?thesis by (auto dest: set_takeWhileD)
    next
      case Nil
      then have "exec_words (Suc n) pos = []" by (simp only: exec_words.simps list.case)
      with 2(2) have "w \<in> set []" by (simp only:)
      then show ?thesis by simp
    qed
  qed simp
qed

text \<open>A program that cannot be run is not told from one that was: the parent returns 0 either way.\<close>

lemma exec_failure_unseen:
  "os_exec InParent execv_ok program arg w = (Some 0, if w then [WaitPid] else [])"
  "snd (os_exec InChild False program arg w) = [Execv program (os_exec_argv program arg), ChildExit 0]"
  by (simp_all add: os_exec_def)

end
