(* ===== verification/WpaVariants.thy ===== *)
theory WpaVariants
  imports WpaCtrl
begin

text \<open>
  The other variants of the control interface in src/src/wifi/wpa_socket/wpa_ctrl.c, chosen by the
  configuration: UDP (\<open>CONFIG_CTRL_IFACE_UDP\<close>, local or to a remote host, IPv4 or IPv6), the named
  pipe of Windows, and what \<open>ANDROID\<close> adds to the UNIX socket; and a request with a \<open>msg_cb\<close>.
\<close>

section \<open>A request that reports the unsolicited messages\<close>

text \<open>The loop of \<open>await_reply\<close> with a \<open>msg_cb\<close>; the messages it was called with are the last component.\<close>

fun await_reply_cb :: "sock_ev list \<Rightarrow> mem \<Rightarrow> nat \<Rightarrow> string list
    \<Rightarrow> (int \<times> mem \<times> nat \<times> sock_ev list \<times> string list) outcome" where
  "await_reply_cb [] reply reply_len told = Ret (-2, reply, reply_len, [], told)"
| "await_reply_cb (SelQuiet # r) reply reply_len told = Ret (-2, reply, reply_len, r, told)"
| "await_reply_cb (SelEintr # r) reply reply_len told = await_reply_cb r reply reply_len told"
| "await_reply_cb (SelErr # r) reply reply_len told = Ret (-1, reply, reply_len, r, told)"
| "await_reply_cb (RecvErr # r) reply reply_len told = Ret (-1, reply, reply_len, r, told)"
| "await_reply_cb (Datagram bs # r) reply reply_len told = (let got = take reply_len bs in
     if reply_len > length reply then Fault OutOfBounds
     else let reply' = got @ drop (length got) reply in
       if is_unsolicited got
       then let res = (if length got = reply_len then reply_len - 1 else length got) in
         obind (wr reply' res NUL) (\<lambda>reply''. await_reply_cb r reply'' reply_len (told @ [take res reply'']))
       else Ret (0, reply', length got, r, told))"

section \<open>UDP\<close>

datatype udp_mode = UdpLocal4 | UdpLocal6 | UdpRemote4 | UdpRemote6

text \<open>What can be allocated; a ledger records what was obtained and given back.\<close>

datatype udp_res = CtrlMem | Sock | NameMem | RemoteIp | Cookie | RemoteIfname | CmdBuf

datatype udp_ev = Got udp_res | Gave udp_res

record udp_ctrl =
  u_addr :: string
  u_port :: nat
  u_scope :: "string option"
  cookie :: "string option"
  remote_ifname :: "string option"
  remote_ip :: "string option"
  u_sends :: "send_res list"
  u_in :: "sock_ev list"
  u_sent :: "string list"

record udp_env =
  u_alloc :: "udp_res \<Rightarrow> bool"
  u_socket :: bool
  u_bind :: bool
  u_host :: "string \<Rightarrow> string option"
  u_connect :: bool
  u_buf :: "nat \<Rightarrow> char"
  u_socket_in :: "sock_ev list"
  u_socket_sends :: "send_res list"

definition WPA_CTRL_IFACE_PORT :: int where "WPA_CTRL_IFACE_PORT = 9877"

definition htons_arg :: "int \<Rightarrow> nat" where "htons_arg p = nat (p mod 65536)"

text \<open>The command behind the cookie and a space, built in a buffer of its own.\<close>

definition udp_cmd :: "string \<Rightarrow> string \<Rightarrow> string outcome" where
  "udp_cmd ck cmd = (let n = length ck + 1 + length cmd in
     obind (os_strlcpy (replicate n NUL) (ck @ [NUL]) n) (\<lambda>(_, b).
     obind (wr b (length ck) (CHR '' '')) (\<lambda>b'. mem_fill b' (length ck + 1) cmd)))"

definition udp_exchange :: "udp_ctrl \<Rightarrow> string \<Rightarrow> mem \<Rightarrow> nat \<Rightarrow> (int \<times> mem \<times> nat \<times> udp_ctrl) outcome" where
  "udp_exchange c cmd reply reply_len =
     (case send_retry (u_sends c) \<lparr>rt_sec = 0, rt_usec = 0\<rparr> of (ok, ss) \<Rightarrow>
        if \<not> ok then Ret (-1, reply, reply_len, c\<lparr>u_sends := ss\<rparr>)
        else obind (await_reply (u_in c) reply reply_len) (\<lambda>(ret, reply', len', r).
          Ret (ret, reply', len', c\<lparr>u_sends := ss, u_in := r, u_sent := u_sent c @ [cmd]\<rparr>)))"

definition udp_request :: "udp_env \<Rightarrow> udp_ctrl \<Rightarrow> string \<Rightarrow> mem \<Rightarrow> nat
    \<Rightarrow> (int \<times> mem \<times> nat \<times> udp_ctrl \<times> udp_ev list) outcome" where
  "udp_request env c cmd reply reply_len = (case cookie c of
       None \<Rightarrow> obind (udp_exchange c cmd reply reply_len) (\<lambda>(ret, m, n, c'). Ret (ret, m, n, c', []))
     | Some ck \<Rightarrow>
         if \<not> u_alloc env CmdBuf then Ret (-1, reply, reply_len, c, [])
         else obind (udp_cmd ck cmd) (\<lambda>cmd'. obind (udp_exchange c cmd' reply reply_len) (\<lambda>(ret, m, n, c').
           Ret (ret, m, n, c', [Got CmdBuf, Gave CmdBuf]))))"

text \<open>Opening: where to connect to. The text behind the separator is the port, behind \<open>%\<close> the scope.\<close>

definition udp_sep :: "udp_mode \<Rightarrow> char" where
  "udp_sep mode = (if mode = UdpRemote6 then CHR '','' else CHR '':'')"

definition udp_target :: "udp_mode \<Rightarrow> string \<Rightarrow> string \<times> int \<times> string option" where
  "udp_target mode path =
     (let sep = udp_sep mode; name = takeWhile (\<lambda>c. c \<noteq> sep) path;
          port_id = (case dropWhile (\<lambda>c. c \<noteq> sep) path of
              [] \<Rightarrow> WPA_CTRL_IFACE_PORT | _ # p \<Rightarrow> c_int (fst (strtol 10 p)))
      in if mode = UdpRemote6
         then (takeWhile (\<lambda>c. c \<noteq> CHR ''%'') name, port_id,
               (case dropWhile (\<lambda>c. c \<noteq> CHR ''%'') name of [] \<Rightarrow> None | _ # s \<Rightarrow> Some s))
         else (name, port_id, None))"

definition loopback :: "udp_mode \<Rightarrow> string" where
  "loopback mode = (if mode = UdpLocal6 \<or> mode = UdpRemote6 then ''::1'' else ''127.0.0.1'')"

definition new_udp :: "udp_env \<Rightarrow> udp_mode \<Rightarrow> udp_ctrl" where
  "new_udp env mode = \<lparr>u_addr = loopback mode, u_port = nat WPA_CTRL_IFACE_PORT, u_scope = None, cookie = None,
     remote_ifname = None, remote_ip = None, u_sends = u_socket_sends env, u_in = u_socket_in env, u_sent = []\<rparr>"

definition got_opt :: "udp_res \<Rightarrow> 'a option \<Rightarrow> udp_ev list" where
  "got_opt r x = (if x = None then [] else [Got r])"

definition gave_opt :: "udp_res \<Rightarrow> 'a option \<Rightarrow> udp_ev list" where
  "gave_opt r x = (if x = None then [] else [Gave r])"

text \<open>\<open>buf[len] = 0; os_strdup(buf)\<close>\<close>

definition dup_reply :: "udp_env \<Rightarrow> udp_res \<Rightarrow> mem \<Rightarrow> nat \<Rightarrow> (mem \<times> string option) outcome" where
  "dup_reply env r buf len =
     obind (wr buf len NUL) (\<lambda>buf'. obind (str_at buf' 0) (\<lambda>s. Ret (buf', if u_alloc env r then Some s else None)))"

text \<open>After the connection: the cookie, then the name of the interface. \<open>len\<close> is not set anew.\<close>

definition udp_ask :: "udp_env \<Rightarrow> udp_ctrl \<Rightarrow> (udp_ctrl \<times> udp_ev list) outcome" where
  "udp_ask env c =
     obind (udp_request env c ''GET_COOKIE'' (map (u_buf env) [0..<128]) 127) (\<lambda>(ret, buf, len, c1, ev1).
     obind (if ret = 0
            then obind (dup_reply env Cookie buf len) (\<lambda>(buf', s). Ret (buf', c1\<lparr>cookie := s\<rparr>, got_opt Cookie s))
            else Ret (buf, c1, [])) (\<lambda>(buf, c2, ev2).
     obind (udp_request env c2 ''IFNAME'' buf len) (\<lambda>(ret, buf, len, c3, ev3).
     obind (if ret = 0
            then obind (dup_reply env RemoteIfname buf len) (\<lambda>(buf', s). Ret (c3\<lparr>remote_ifname := s\<rparr>, got_opt RemoteIfname s))
            else Ret (c3, [])) (\<lambda>(c4, ev4).
     Ret (c4, ev1 @ ev2 @ ev3 @ ev4)))))"

definition udp_connect :: "udp_env \<Rightarrow> udp_ctrl \<Rightarrow> udp_ev list \<Rightarrow> (udp_ctrl option \<times> udp_ev list) outcome" where
  "udp_connect env c evs =
     (if \<not> u_connect env then Ret (None, evs @ [Gave Sock] @ gave_opt RemoteIp (remote_ip c) @ [Gave CtrlMem])
      else obind (udp_ask env c) (\<lambda>(c', evs'). Ret (Some c', evs @ evs')))"

definition udp_open :: "udp_env \<Rightarrow> udp_mode \<Rightarrow> string option \<Rightarrow> (udp_ctrl option \<times> udp_ev list) outcome" where
  "udp_open env mode ctrl_path =
     (if \<not> u_alloc env CtrlMem then Ret (None, [])
      else if \<not> u_socket env then Ret (None, [Got CtrlMem, Gave CtrlMem])
      else if \<not> u_bind env then Ret (None, [Got CtrlMem, Got Sock, Gave Sock, Gave CtrlMem])
      else if mode = UdpLocal4 \<or> mode = UdpLocal6 then udp_connect env (new_udp env mode) [Got CtrlMem, Got Sock]
      else (case ctrl_path of
          None \<Rightarrow> let ip = (if u_alloc env RemoteIp then Some ''localhost'' else None) in
            udp_connect env ((new_udp env mode)\<lparr>remote_ip := ip\<rparr>) ([Got CtrlMem, Got Sock] @ got_opt RemoteIp ip)
        | Some path \<Rightarrow>
            if \<not> u_alloc env NameMem then Ret (None, [Got CtrlMem, Got Sock, Gave Sock, Gave CtrlMem])
            else (case udp_target mode path of (name, port_id, scope) \<Rightarrow>
              let ip = (if u_alloc env RemoteIp then Some name else None);
                  evs = [Got CtrlMem, Got Sock, Got NameMem] @ got_opt RemoteIp ip @ [Gave NameMem]
              in case u_host env name of
                  None \<Rightarrow> Ret (None, evs @ [Gave Sock] @ gave_opt RemoteIp ip @ [Gave CtrlMem])
                | Some a \<Rightarrow> udp_connect env ((new_udp env mode)\<lparr>u_addr := a, u_port := htons_arg port_id,
                    u_scope := scope, remote_ip := ip\<rparr>) evs)))"

definition udp_close :: "udp_ctrl \<Rightarrow> udp_ev list" where
  "udp_close c = [Gave Sock] @ gave_opt Cookie (cookie c) @ gave_opt RemoteIfname (remote_ifname c) @
     gave_opt RemoteIp (remote_ip c) @ [Gave CtrlMem]"

text \<open>\<open>%s\<close> of a null pointer is undefined.\<close>

definition wpa_ctrl_get_remote_ifname :: "udp_ctrl \<Rightarrow> string outcome" where
  "wpa_ctrl_get_remote_ifname c = (case (remote_ip c, remote_ifname c) of
       (Some ip, Some ifname) \<Rightarrow> Ret (take 99 (ip @ ''/'' @ ifname))
     | _ \<Rightarrow> Fault NullDeref)"

section \<open>The named pipe\<close>

datatype pipe_res = PipeOpen | PipeBusy | PipeErr

definition NAMED_PIPE_PREFIX :: string where
  "NAMED_PIPE_PREFIX = [CHR 0x5C, CHR 0x5C, CHR ''.'', CHR 0x5C] @ ''pipe'' @ [CHR 0x5C] @ ''WpaSupplicant''"

definition pipe_name :: "string option \<Rightarrow> string" where
  "pipe_name ctrl_path = (case ctrl_path of None \<Rightarrow> NAMED_PIPE_PREFIX | Some p \<Rightarrow> NAMED_PIPE_PREFIX @ ''-'' @ p)"

text \<open>\<open>left\<close> rounds of the loop, each waiting once when the pipe is busy; the number of waits is counted.\<close>

fun pipe_tries :: "nat \<Rightarrow> pipe_res list \<Rightarrow> bool \<times> nat" where
  "pipe_tries 0 rs = (False, 0)"
| "pipe_tries (Suc left) (PipeBusy # rs) = (case pipe_tries left rs of (ok, w) \<Rightarrow> (ok, w + 1))"
| "pipe_tries (Suc left) (PipeErr # rs) = (False, 0)"
| "pipe_tries (Suc left) (PipeOpen # rs) = (True, 0)"
| "pipe_tries (Suc left) [] = (True, 0)"

text \<open>The result, with the name that was opened, and how often the loop waited.\<close>

definition pipe_open :: "pipe_res list \<Rightarrow> bool \<Rightarrow> string option \<Rightarrow> string option \<times> nat" where
  "pipe_open rs mode_set ctrl_path =
     (if os_snprintf_error 256 (int (length (pipe_name ctrl_path))) then (None, 0)
      else case pipe_tries 10 rs of (ok, w) \<Rightarrow>
        (if ok \<and> mode_set then Some (pipe_name ctrl_path) else None, w))"

definition pipe_recv :: "string option \<Rightarrow> mem \<Rightarrow> nat \<Rightarrow> (int \<times> mem \<times> nat) outcome" where
  "pipe_recv msg reply reply_len = (case msg of
       None \<Rightarrow> Ret (-1, reply, reply_len)
     | Some bs \<Rightarrow> if reply_len > length reply then Fault OutOfBounds
         else let got = take reply_len bs in Ret (0, got @ drop (length got) reply, length got))"

definition pipe_request :: "bool \<Rightarrow> string option \<Rightarrow> mem \<Rightarrow> nat \<Rightarrow> (int \<times> mem \<times> nat) outcome" where
  "pipe_request written msg reply reply_len =
     (if \<not> written then Ret (-1, reply, reply_len) else pipe_recv msg reply reply_len)"

definition pipe_pending :: "nat option \<Rightarrow> int" where
  "pipe_pending peeked = (case peeked of None \<Rightarrow> -1 | Some left \<Rightarrow> if left \<noteq> 0 then 1 else 0)"

section \<open>Android\<close>

text \<open>The name in the reserved namespace, or a path in the file system.\<close>

definition android_reserved :: "string \<Rightarrow> string option" where
  "android_reserved cp =
     (if starts_with cp ''@android:'' then Some (drop 9 cp)
      else if cp = [] \<or> hd cp \<noteq> CHR ''/'' then Some (take 20 (''wpa_'' @ cp)) else None)"

definition wpa_ctrl_open2_android :: "string option \<Rightarrow> string option \<Rightarrow> int \<Rightarrow> open_env \<Rightarrow> (string \<Rightarrow> bool)
    \<Rightarrow> wpa_ctrl option \<times> int \<times> sys_ev list" where
  "wpa_ctrl_open2_android ctrl_path cli_path counter env connects_to = (case ctrl_path of
       None \<Rightarrow> (None, counter, [])
     | Some cp \<Rightarrow> (case android_reserved cp of
         None \<Rightarrow> wpa_ctrl_open2 ctrl_path cli_path counter env
       | Some name \<Rightarrow>
           if \<not> gets_socket env then (None, counter, [])
           else let n = counter + 1; path = client_path cli_path (pid env) n in
             if length path \<ge> SUN_PATH_SIZE then (None, n, [Closed])
             else (case bind_retry (binds env) path 1 of (ok, l) \<Rightarrow>
               if \<not> ok then (None, n, l @ [Closed])
               else if \<not> connects_to name then (None, n, l @ [Closed, Unlinked path])
               else (Some \<lparr>ctrl_local = path, ctrl_dest = [], sends = [], sock_in = [], requests = []\<rparr>, n, l))))"

text \<open>The entries of the directory, and what is unlinked.\<close>

definition PATH_MAX :: nat where "PATH_MAX = 4096"

definition wpa_ctrl_cleanup :: "string list option \<Rightarrow> string list" where
  "wpa_ctrl_cleanup dir = (case dir of
       None \<Rightarrow> []
     | Some entries \<Rightarrow> let d = CONFIG_CTRL_IFACE_CLIENT_DIR @ ''/'' in
         if length d \<ge> PATH_MAX then []
         else map (\<lambda>e. d @ e) (filter (\<lambda>e. length e < PATH_MAX - length d) entries))"

section \<open>The callback changes nothing\<close>

lemma await_reply_cb_same:
  assumes "n \<le> length m" "length m' = length m"
  shows "\<exists>ret b b' k r told'. await_reply es m n = Ret (ret, b, k, r) \<and> await_reply_cb es m' n told = Ret (ret, b', k, r, told')
    \<and> (ret = 0 \<longrightarrow> take k b' = take k b)"
  using assms
proof (induction es arbitrary: m m' told)
  case (Cons e es)
  show ?case
  proof (cases e)
    case (Datagram bs)
    let ?got = "take n bs"
    let ?over = "\<lambda>b. ?got @ drop (length ?got) b"
    show ?thesis
    proof (cases "is_unsolicited ?got")
      case True
      let ?res = "if length ?got = n then n - 1 else length ?got"
      have got: "0 < length ?got" "length ?got \<le> n" using True by (auto simp: is_unsolicited_def)
      have res: "?res < length m"
      proof (cases "length ?got = n")
        case False
        then show ?thesis using got Cons.prems(1) by (subst if_not_P) linarith+
      next
        case True
        then show ?thesis using got Cons.prems(1) by (subst if_P) linarith+
      qed
      have l: "length (?over m) = length m" "length ((?over m')[?res := NUL]) = length (?over m)"
        using Cons.prems by simp_all
      have "wr (?over m') ?res NUL = Ret ((?over m')[?res := NUL])" using res Cons.prems by (simp add: wr_def)
      with Cons.IH [of "?over m" "(?over m')[?res := NUL]" "told @ [take ?res ((?over m')[?res := NUL])]"] Cons.prems l True Datagram
      show ?thesis by (simp add: Let_def)
    qed (use Cons.prems Datagram in \<open>simp add: Let_def\<close>)
  qed (use Cons in simp_all)
qed simp

section \<open>Opening and closing give back what they took\<close>

text \<open>What is held after a series of events; obtaining twice or giving back twice has no result.\<close>

fun ledger :: "udp_ev list \<Rightarrow> udp_res set \<Rightarrow> udp_res set option" where
  "ledger [] held = Some held"
| "ledger (Got r # es) held = (if r \<in> held then None else ledger es (insert r held))"
| "ledger (Gave r # es) held = (if r \<in> held then ledger es (held - {r}) else None)"

lemma ledger_append [simp]: "ledger (a @ b) held = Option.bind (ledger a held) (ledger b)"
  by (induction a held rule: ledger.induct) auto

lemma ledger_opt [simp]:
  "ledger (got_opt r x) held = (if x = None then Some held else if r \<in> held then None else Some (insert r held))"
  "ledger (gave_opt r x) held = (if x = None then Some held else if r \<in> held then Some (held - {r}) else None)"
  by (auto simp: got_opt_def gave_opt_def)

definition udp_held :: "udp_ctrl option \<Rightarrow> udp_res set" where
  "udp_held res = (case res of None \<Rightarrow> {}
     | Some c \<Rightarrow> {CtrlMem, Sock} \<union> (if cookie c = None then {} else {Cookie})
         \<union> (if remote_ifname c = None then {} else {RemoteIfname}) \<union> (if remote_ip c = None then {} else {RemoteIp}))"

lemma close_gives_back: "ledger (udp_close c) (udp_held (Some c)) = Some {}"
  by (auto simp: udp_close_def udp_held_def)

lemma terminated_str_at: "NUL \<in> set m \<Longrightarrow> str_at m 0 = Ret (arr_str m)"
proof -
  assume t: "NUL \<in> set m"
  then obtain c r where d: "dropWhile (\<lambda>c. c \<noteq> NUL) m = c # r" by (cases "dropWhile (\<lambda>c. c \<noteq> NUL) m") auto
  then have "c = NUL" using hd_dropWhile [of "\<lambda>c. c \<noteq> NUL" m] by simp
  with d have "m = [] @ arr_str m @ NUL # r"
    using takeWhile_dropWhile_id [of "\<lambda>c. c \<noteq> NUL" m] by (simp add: arr_str_def)
  moreover have "NUL \<notin> set (arr_str m)" by (auto simp: arr_str_def dest: set_takeWhileD)
  ultimately have "holds_at m 0 (arr_str m)" unfolding holds_at_iff by fastforce
  then show ?thesis by (rule str_at_holds)
qed

lemma dup_reply_returns:
  assumes "n < length buf"
  shows "dup_reply env r buf n = Ret (buf[n := NUL], if u_alloc env r then Some (arr_str (buf[n := NUL])) else None)"
proof -
  have "NUL \<in> set (buf[n := NUL])" using assms by (rule set_update_memI)
  then show ?thesis using assms by (simp add: dup_reply_def wr_def terminated_str_at)
qed

lemma udp_cmd_is: "NUL \<notin> set ck \<Longrightarrow> udp_cmd ck cmd = Ret (ck @ CHR '' '' # cmd)"
proof -
  assume "NUL \<notin> set ck"
  then have h: "holds_at (ck @ [NUL]) 0 ck" by (simp add: holds_at_iff)
  let ?n = "length ck + 1 + length cmd"
  have "os_strlcpy (replicate ?n NUL) (ck @ [NUL]) ?n = Ret (length ck, ck @ NUL # replicate (length cmd) NUL)"
    if "0 < length cmd"
    using that by (subst os_strlcpy_spec [OF h]) (simp_all add: min_def)
  moreover have "os_strlcpy (replicate ?n NUL) (ck @ [NUL]) ?n = Ret (length ck, ck @ [NUL])" if "cmd = []"
    using that by (subst os_strlcpy_spec [OF h]) (simp_all add: min_def)
  ultimately show ?thesis
    by (cases "cmd = []") (simp_all add: udp_cmd_def Let_def wr_def mem_fill_def list_update_append)
qed

definition no_nul :: "string option \<Rightarrow> bool" where
  "no_nul s = (case s of None \<Rightarrow> True | Some t \<Rightarrow> NUL \<notin> set t)"

lemma udp_exchange_returns:
  assumes "n \<le> length m"
  shows "\<exists>ret m' k c'. udp_exchange c cmd m n = Ret (ret, m', k, c') \<and> length m' = length m \<and> k \<le> n \<and>
    cookie c' = cookie c \<and> remote_ifname c' = remote_ifname c \<and> remote_ip c' = remote_ip c"
  using await_reply_returns [OF assms, of "u_in c"]
  by (auto simp: udp_exchange_def split: prod.splits)

lemma udp_request_returns:
  assumes "n \<le> length m" "no_nul (cookie c)"
  shows "\<exists>ret m' k c' evs. udp_request env c cmd m n = Ret (ret, m', k, c', evs) \<and> length m' = length m \<and> k \<le> n \<and>
    cookie c' = cookie c \<and> remote_ifname c' = remote_ifname c \<and> remote_ip c' = remote_ip c \<and>
    (evs = [] \<or> evs = [Got CmdBuf, Gave CmdBuf])"
proof (cases "cookie c")
  case None
  then show ?thesis using udp_exchange_returns [OF assms(1), of c cmd] by (auto simp: udp_request_def)
next
  case (Some ck)
  then have "udp_cmd ck cmd = Ret (ck @ CHR '' '' # cmd)" using assms(2) by (intro udp_cmd_is) (simp add: no_nul_def)
  then show ?thesis using Some udp_exchange_returns [OF assms(1), of c "ck @ CHR '' '' # cmd"]
    by (auto simp: udp_request_def)
qed

lemma udp_ask_returns:
  assumes "cookie c = None" "remote_ifname c = None"
  shows "\<exists>c' evs. udp_ask env c = Ret (c', evs) \<and> ledger evs (udp_held (Some c)) = Some (udp_held (Some c'))"
proof -
  let ?m = "map (u_buf env) [0..<128]"
  obtain ret m1 k c1 e1 where r1: "udp_request env c ''GET_COOKIE'' ?m 127 = Ret (ret, m1, k, c1, e1)" "length m1 = 128" "k \<le> 127"
    "cookie c1 = None" "remote_ifname c1 = None" "remote_ip c1 = remote_ip c" "e1 = []"
    using udp_request_returns [of 127 ?m c env "''GET_COOKIE''"] assms
    by (auto simp: no_nul_def udp_request_def outcome_simps)
  define s2 where "s2 = (if ret = 0 \<and> u_alloc env Cookie then Some (arr_str (m1[k := NUL])) else None)"
  define m2 where "m2 = (if ret = 0 then m1[k := NUL] else m1)"
  have step2: "(if ret = 0
            then obind (dup_reply env Cookie m1 k) (\<lambda>(buf', s). Ret (buf', c1\<lparr>cookie := s\<rparr>, got_opt Cookie s))
            else Ret (m1, c1, [])) = Ret (m2, c1\<lparr>cookie := s2\<rparr>, got_opt Cookie s2)"
    using r1 by (auto simp: s2_def m2_def dup_reply_returns got_opt_def)
  have m2: "length m2 = 128" using r1 by (simp add: m2_def)
  have s2: "no_nul s2" by (auto simp: no_nul_def s2_def arr_str_def dest: set_takeWhileD)
  obtain ret3 m3 k3 c3 e3 where r3: "udp_request env (c1\<lparr>cookie := s2\<rparr>) ''IFNAME'' m2 k = Ret (ret3, m3, k3, c3, e3)"
    "length m3 = 128" "k3 \<le> 127" "cookie c3 = s2" "remote_ifname c3 = None" "remote_ip c3 = remote_ip c"
    "e3 = [] \<or> e3 = [Got CmdBuf, Gave CmdBuf]"
    using udp_request_returns [of k m2 "c1\<lparr>cookie := s2\<rparr>" env "''IFNAME''"] r1 m2 s2 by fastforce
  define s4 where "s4 = (if ret3 = 0 \<and> u_alloc env RemoteIfname then Some (arr_str (m3[k3 := NUL])) else None)"
  have step4: "(if ret3 = 0
            then obind (dup_reply env RemoteIfname m3 k3) (\<lambda>(buf', s). Ret (c3\<lparr>remote_ifname := s\<rparr>, got_opt RemoteIfname s))
            else Ret (c3, [])) = Ret (c3\<lparr>remote_ifname := s4\<rparr>, got_opt RemoteIfname s4)"
    using r3 by (auto simp: s4_def dup_reply_returns got_opt_def)
  have "udp_ask env c = Ret (c3\<lparr>remote_ifname := s4\<rparr>, e1 @ got_opt Cookie s2 @ e3 @ got_opt RemoteIfname s4)"
    by (simp add: udp_ask_def r1(1) step2 r3(1) step4 del: upt_rec_numeral)
  moreover have "ledger (e1 @ got_opt Cookie s2 @ e3 @ got_opt RemoteIfname s4) (udp_held (Some c)) =
    Some (udp_held (Some (c3\<lparr>remote_ifname := s4\<rparr>)))"
    using r1(7) r3 assms by (auto simp: udp_held_def)
  ultimately show ?thesis by blast
qed

definition opened :: "(udp_ctrl option \<times> udp_ev list) outcome \<Rightarrow> bool" where
  "opened x = (\<exists>res evs. x = Ret (res, evs) \<and> ledger evs {} = Some (udp_held res))"

lemma opened_failed: "opened (Ret (None, evs)) \<longleftrightarrow> ledger evs {} = Some {}"
  by (simp add: opened_def udp_held_def)

lemma opened_connect:
  assumes "cookie c = None" "remote_ifname c = None" "ledger evs {} = Some (udp_held (Some c))"
  shows "opened (udp_connect env c evs)"
  using udp_ask_returns [OF assms(1,2), of env] assms
  by (auto simp: udp_connect_def opened_def) (auto simp: udp_held_def)

lemma udp_open_opened: "opened (udp_open env mode path)"
  unfolding udp_open_def Let_def
  by (auto simp: opened_failed new_udp_def udp_held_def got_opt_def gave_opt_def
      split: option.split prod.split intro!: opened_connect)

text \<open>
  C26: Opening over UDP always returns, whatever allocation, the system and the peer do; on every
  path it has given back all it took when it fails, and otherwise holds exactly the memory and the
  socket that closing gives back, nothing twice.
\<close>

theorem udp_open_close_balanced:
  "\<exists>res evs. udp_open env mode path = Ret (res, evs) \<and> ledger evs {} = Some (udp_held res) \<and>
     ledger (evs @ (case res of None \<Rightarrow> [] | Some c \<Rightarrow> udp_close c)) {} = Some {}"
proof -
  obtain res evs where o: "udp_open env mode path = Ret (res, evs)" "ledger evs {} = Some (udp_held res)"
    "\<And>c. res = Some c \<Longrightarrow> ledger (evs @ udp_close c) {} = Some {}"
    using udp_open_opened [of env mode path] close_gives_back by (auto simp: opened_def)
  then have "ledger (evs @ (case res of None \<Rightarrow> [] | Some c \<Rightarrow> udp_close c)) {} = Some {}"
    by (cases res) (simp_all add: udp_held_def)
  with o show ?thesis by blast
qed

text \<open>The second request is cut to the length of the first reply.\<close>

lemma ifname_cut_to_cookie:
  assumes "u_alloc env = (\<lambda>_. True)" "cookie c = None" "u_sends c = []"
    "u_in c = [Datagram ck, Datagram ifn]" "NUL \<notin> set ck" "NUL \<notin> set ifn" "length ck \<le> 127"
    "\<not> is_unsolicited ck" "\<not> is_unsolicited (take (length ck) ifn)"
  shows "\<exists>c' evs. udp_ask env c = Ret (c', evs) \<and> cookie c' = Some ck \<and> remote_ifname c' = Some (take (length ck) ifn)
    \<and> u_sent c' = u_sent c @ [''GET_COOKIE'', ck @ CHR '' '' # ''IFNAME'']"
proof -
  have cut: "arr_str ((s @ m)[length s := NUL]) = s" if "NUL \<notin> set s" "m \<noteq> []" for s m
    using that by (cases m) (simp_all add: list_update_append arr_str_append, simp add: arr_str_def)
  let ?m = "map (u_buf env) [0..<128]"
  have "take 127 ck = ck" using assms(7) by simp
  then have r1: "udp_request env c ''GET_COOKIE'' ?m 127 = Ret (0, ck @ drop (length ck) ?m, length ck,
      c\<lparr>u_sends := [], u_in := [Datagram ifn], u_sent := u_sent c @ [''GET_COOKIE'']\<rparr>, [])"
    using assms by (simp add: udp_request_def udp_exchange_def Let_def del: upt_rec_numeral)
  let ?m1 = "(ck @ drop (length ck) ?m)[length ck := NUL]"
  have m1: "length ck < length (ck @ drop (length ck) ?m)" "length ?m1 = 128" using assms(7) by (simp_all del: upt_rec_numeral)
  have c1: "arr_str ?m1 = ck" using assms(5,7) by (intro cut) (simp_all del: upt_rec_numeral)
  note d1 = dup_reply_returns [OF m1(1), of env Cookie, unfolded c1]
  let ?if = "take (length ck) ifn"
  let ?c1 = "c\<lparr>u_sends := [], u_in := [Datagram ifn], u_sent := u_sent c @ [''GET_COOKIE''], cookie := Some ck\<rparr>"
  have r2: "udp_request env ?c1 ''IFNAME'' ?m1 (length ck) = Ret (0, ?if @ drop (length ?if) ?m1, length ?if,
      ?c1\<lparr>u_in := [], u_sent := u_sent c @ [''GET_COOKIE'', ck @ CHR '' '' # ''IFNAME'']\<rparr>, [Got CmdBuf, Gave CmdBuf])"
    using assms m1 by (simp add: udp_request_def udp_exchange_def Let_def udp_cmd_is del: upt_rec_numeral)
  have i: "NUL \<notin> set ?if" using assms(6) by (auto dest: in_set_takeD)
  have m2: "length ?if < length (?if @ drop (length ?if) ?m1)" using m1 assms(7) by simp
  have "drop (length ?if) ?m1 \<noteq> []" using m1 assms(7) by simp
  note c2 = cut [OF i this]
  note d2 = dup_reply_returns [OF m2, of env RemoteIfname, unfolded c2]
  show ?thesis using assms(1) by (simp add: udp_ask_def r1 d1 r2 d2 [unfolded length_take] del: upt_rec_numeral list_update.simps)
qed

section \<open>The pipe is tried ten times\<close>

lemma pipe_tries_busy: "pipe_tries n (replicate k PipeBusy @ PipeOpen # rs) = (if k < n then (True, k) else (False, n))"
proof (induction n arbitrary: k)
  case (Suc n)
  then show ?case by (cases k) auto
qed simp

lemma pipe_tries_bound: "snd (pipe_tries n rs) \<le> n"
  by (induction n rs rule: pipe_tries.induct) (auto split: prod.splits)

lemma cleanup_whole_paths:
  "p \<in> set (wpa_ctrl_cleanup dir) \<Longrightarrow> length p < PATH_MAX \<and> starts_with p (CONFIG_CTRL_IFACE_CLIENT_DIR @ ''/'')"
  by (auto simp: wpa_ctrl_cleanup_def Let_def starts_with_def split: option.splits if_splits)

lemma cleanup_everything:
  "e \<in> set es \<Longrightarrow> length e < 4000 \<Longrightarrow> CONFIG_CTRL_IFACE_CLIENT_DIR @ ''/'' @ e \<in> set (wpa_ctrl_cleanup (Some es))"
  by (auto simp: wpa_ctrl_cleanup_def Let_def PATH_MAX_def CONFIG_CTRL_IFACE_CLIENT_DIR_def)

text \<open>On Android too a failure to connect leaves no socket file behind.\<close>

lemma android_connect_fails:
  assumes "android_reserved cp = Some name" "\<not> connects_to name" "gets_socket env"
    "wpa_ctrl_open2_android (Some cp) cli n env connects_to = (res, n', l)" "fst (bind_retry (binds env) (client_path cli (pid env) (n + 1)) 1)"
  shows "res = None \<and> (length (client_path cli (pid env) (n + 1)) < SUN_PATH_SIZE \<longrightarrow> client_path cli (pid env) (n + 1) \<notin> files_after l fs)"
  using assms by (auto simp: wpa_ctrl_open2_android_def Let_def files_after_append split: prod.splits if_splits)

end
