(* ===== verification/WpaTrace.thy ===== *)
theory WpaTrace
  imports Prelude "HOL-Library.Sublist" "HOL-Library.Word"
begin

text \<open>
  The tracing allocator of the control library, src/src/wifi/wpa_socket/os_unix.c under
  \<open>WPA_TRACE\<close>: every block carries a header with a magic number and is on one list; what is on the
  list at the end has leaked. The list of list.h and the back traces of trace.h are not in the
  repository: they are arguments, and what is relied on of the list is the locale \<open>dl_list\<close>.
\<close>

section \<open>Failing on purpose\<close>

text \<open>
  One round of the loop in \<open>testing_fail_alloc\<close> and \<open>testing_test_fail\<close>: \<open>pos\<close> is the rest of the
  configured text, the list holds the functions from \<open>func[i]\<close> on. An entry is compared over its own
  length, so it stands for every function that it is a prefix of.
\<close>

definition entry_mark :: "string \<Rightarrow> bool \<times> bool \<times> string" where
  "entry_mark pos = (case pos of
       c # p \<Rightarrow> if c = CHR ''='' then (False, False, p) else if c = CHR ''?'' then (True, True, p) else (True, False, pos)
     | [] \<Rightarrow> (True, False, []))"

lemma entry_mark_shorter: "entry_mark pos = (a, m, p) \<Longrightarrow> length p \<le> length pos"
  by (auto simp: entry_mark_def split: list.splits if_splits)

lemma entry_rest_shorter:
  "(a, y) = entry_mark pos \<Longrightarrow> (m, p) = y \<Longrightarrow> rest = dropWhile P p \<Longrightarrow> length rest \<le> length pos \<and> length p \<le> length pos"
  using entry_mark_shorter [of pos a m p] length_dropWhile_le [of P p] by auto

function match_loop :: "string \<Rightarrow> string list \<Rightarrow> bool" where
  "match_loop pos [] = False"
| "match_loop pos (f # fs) = (case entry_mark pos of (allow_skip, maybe, p) \<Rightarrow>
     let entry = takeWhile (\<lambda>c. c \<noteq> CHR '';'') p; rest = dropWhile (\<lambda>c. c \<noteq> CHR '';'') p in
     if \<not> prefix entry f
     then (if maybe \<and> rest \<noteq> [] then match_loop (tl rest) (f # fs)
           else if allow_skip then match_loop p fs else False)
     else if rest = [] then True else match_loop (tl rest) fs)"
  by pat_completeness auto
termination
proof (relation "measure (\<lambda>(pos, fs). length pos + length fs)", goal_cases)
  case (2 pos f fs a y m p entry rest)
  then have "0 < length rest" by simp
  moreover have "length rest \<le> length pos" using entry_rest_shorter [OF 2(1,2,4)] by simp
  ultimately show ?case by (cases rest) simp_all
next
  case (3 pos f fs a y m p entry rest)
  then show ?case using entry_rest_shorter [OF 3(1,2,4)] by auto
next
  case (4 pos f fs a y m p entry rest)
  then show ?case using entry_rest_shorter [OF 4(1,2,4)] by (cases rest) auto
qed simp

declare match_loop.simps(2) [simp del]

fun skip_names :: "string list \<Rightarrow> string list \<Rightarrow> string list" where
  "skip_names [] fs = fs"
| "skip_names (n # ns) fs = (case fs of [] \<Rightarrow> [] | f # r \<Rightarrow> if f = n then skip_names ns r else skip_names ns fs)"

definition own_names :: "string list" where
  "own_names = [''testing_fail_alloc'', ''os_malloc'', ''os_zalloc'', ''os_calloc'', ''os_realloc'',
     ''os_realloc_array'', ''os_strdup'', ''os_memdup'']"

text \<open>Whether to fail, and the counter after that. \<open>bt\<close> is the back trace.\<close>

definition testing_fail_alloc :: "string \<Rightarrow> string list \<Rightarrow> nat \<Rightarrow> bool \<times> nat" where
  "testing_fail_alloc fail_func bt fail_after =
     (if fail_after = 0 then (False, 0)
      else if \<not> match_loop fail_func (skip_names own_names bt) then (False, fail_after)
      else (fail_after - 1 = 0, fail_after - 1))"

definition testing_test_fail :: "string \<Rightarrow> string list \<Rightarrow> nat \<Rightarrow> bool \<times> nat" where
  "testing_test_fail fail_func bt fail_after =
     (if fail_after = 0 then (False, 0)
      else if \<not> match_loop fail_func (skip_names [''testing_test_fail''] bt) then (False, fail_after)
      else (fail_after - 1 = 0, fail_after - 1))"

section \<open>Blocks\<close>

definition ALLOC_MAGIC :: "32 word" where "ALLOC_MAGIC = 0xa84ef1b2"
definition FREED_MAGIC :: "32 word" where "FREED_MAGIC = 0x67fd487a"

text \<open>A block stays readable when it is given back, with whatever \<open>free\<close> leaves in its header.\<close>

record os_alloc_trace =
  magic :: "32 word"
  len :: nat
  data :: string
  live :: bool

record 'l trace =
  blocks :: "nat \<Rightarrow> os_alloc_trace option"
  alloc_list :: 'l
  fail_func :: string
  fail_after :: nat

text \<open>The list, the size of the header, and what the rest of the world answers to one call: \<open>malloc\<close>
  (an address with what the memory holds), the back trace, and what \<open>free\<close> leaves of the magic number.\<close>

record 'l list_ops =
  l_add :: "'l \<Rightarrow> nat \<Rightarrow> 'l"
  l_del :: "'l \<Rightarrow> nat \<Rightarrow> 'l"
  l_items :: "'l \<Rightarrow> nat list"
  header_size :: nat

record answer =
  malloced :: "(nat \<times> (nat \<Rightarrow> char)) option"
  func :: "string list"
  left_behind :: "32 word"

text \<open>\<open>abort\<close>, with whether \<open>(already freed)\<close> is reported.\<close>

datatype aborted = InvalidFree bool | InvalidRealloc bool

definition os_malloc :: "'l list_ops \<Rightarrow> answer \<Rightarrow> nat \<Rightarrow> 'l trace \<Rightarrow> (nat option \<times> 'l trace) outcome" where
  "os_malloc ops ans sz s =
     (case testing_fail_alloc (fail_func s) (func ans) (fail_after s) of (failing, n) \<Rightarrow>
        let s1 = s\<lparr>fail_after := n\<rparr> in
        if failing then Ret (None, s1)
        else (case malloced ans of
            None \<Rightarrow> Ret (None, s1)
          | Some (a, bytes) \<Rightarrow>
              if header_size ops + sz \<ge> 2 ^ 64 then Fault OutOfBounds
              else Ret (Some a, s1\<lparr>
                blocks := (blocks s1)(a \<mapsto> \<lparr>magic = ALLOC_MAGIC, len = sz, data = map bytes [0..<sz], live = True\<rparr>),
                alloc_list := l_add ops (alloc_list s1) a\<rparr>)))"

definition os_free :: "'l list_ops \<Rightarrow> answer \<Rightarrow> nat option \<Rightarrow> 'l trace \<Rightarrow> (aborted + 'l trace) outcome" where
  "os_free ops ans ptr s = (case ptr of
       None \<Rightarrow> Ret (Inr s)
     | Some a \<Rightarrow> (case blocks s a of
         None \<Rightarrow> Fault OutOfBounds
       | Some b \<Rightarrow>
           if magic b \<noteq> ALLOC_MAGIC then Ret (Inl (InvalidFree (magic b = FREED_MAGIC)))
           else if \<not> live b then Fault UseAfterFree
           else Ret (Inr (s\<lparr>alloc_list := l_del ops (alloc_list s) a,
                  blocks := (blocks s)(a \<mapsto> b\<lparr>magic := left_behind ans, live := False\<rparr>)\<rparr>))))"

definition set_data :: "nat \<Rightarrow> string \<Rightarrow> 'l trace \<Rightarrow> 'l trace" where
  "set_data a bs s = (case blocks s a of
       None \<Rightarrow> s
     | Some b \<Rightarrow> s\<lparr>blocks := (blocks s)(a \<mapsto> b\<lparr>data := bs @ drop (length bs) (data b)\<rparr>)\<rparr>)"

definition os_realloc :: "'l list_ops \<Rightarrow> answer \<Rightarrow> nat option \<Rightarrow> nat \<Rightarrow> 'l trace
    \<Rightarrow> (aborted + nat option \<times> 'l trace) outcome" where
  "os_realloc ops ans ptr sz s = (case ptr of
       None \<Rightarrow> obind (os_malloc ops ans sz s) (\<lambda>r. Ret (Inr r))
     | Some a \<Rightarrow> (case blocks s a of
         None \<Rightarrow> Fault OutOfBounds
       | Some b \<Rightarrow>
           if magic b \<noteq> ALLOC_MAGIC then Ret (Inl (InvalidRealloc (magic b = FREED_MAGIC)))
           else if \<not> live b then Fault UseAfterFree
           else obind (os_malloc ops ans sz s) (\<lambda>(n, s1). (case n of
               None \<Rightarrow> Ret (Inr (None, s1))
             | Some n' \<Rightarrow> let copy_len = (if len b > sz then sz else len b) in
                 obind (os_free ops ans (Some a) (set_data n' (take copy_len (data b)) s1)) (\<lambda>f. (case f of
                   Inl e \<Rightarrow> Ret (Inl e) | Inr s2 \<Rightarrow> Ret (Inr (Some n', s2))))))))"

definition os_zalloc :: "'l list_ops \<Rightarrow> answer \<Rightarrow> nat \<Rightarrow> 'l trace \<Rightarrow> (nat option \<times> 'l trace) outcome" where
  "os_zalloc ops ans sz s = obind (os_malloc ops ans sz s) (\<lambda>(ptr, s1). (case ptr of
       None \<Rightarrow> Ret (None, s1) | Some a \<Rightarrow> Ret (Some a, set_data a (replicate sz NUL) s1)))"

definition os_strdup :: "'l list_ops \<Rightarrow> answer \<Rightarrow> string \<Rightarrow> 'l trace \<Rightarrow> (nat option \<times> 'l trace) outcome" where
  "os_strdup ops ans str s = obind (os_malloc ops ans (length str + 1) s) (\<lambda>(ptr, s1). (case ptr of
       None \<Rightarrow> Ret (None, s1) | Some a \<Rightarrow> Ret (Some a, set_data a (str @ [NUL]) s1)))"

definition os_memdup :: "'l list_ops \<Rightarrow> answer \<Rightarrow> string option \<Rightarrow> nat \<Rightarrow> 'l trace \<Rightarrow> (nat option \<times> 'l trace) outcome" where
  "os_memdup ops ans src n s = obind (os_malloc ops ans n s) (\<lambda>(r, s1). (case (r, src) of
       (Some a, Some bs) \<Rightarrow> if length bs < n then Fault OutOfBounds else Ret (Some a, set_data a (take n bs) s1)
     | _ \<Rightarrow> Ret (r, s1)))"

section \<open>The report at the end\<close>

datatype report = InvalidMagic nat "32 word" nat | MemLeak nat nat | LeakTotal nat

text \<open>A block that is on the list without memory behind it cannot be read.\<close>

fun report_loop :: "(nat \<Rightarrow> os_alloc_trace option) \<Rightarrow> nat list \<Rightarrow> nat \<Rightarrow> (report list \<times> nat) outcome" where
  "report_loop mem [] total_len = Ret ([], total_len)"
| "report_loop mem (a # as) total_len = (case mem a of
     None \<Rightarrow> Fault OutOfBounds
   | Some b \<Rightarrow> obind (report_loop mem as ((total_len + len b) mod 2 ^ 64)) (\<lambda>(rs, t). Ret
       ((if magic b \<noteq> ALLOC_MAGIC then InvalidMagic a (magic b) (len b) else MemLeak a (len b)) # rs, t)))"

definition os_program_deinit :: "'l list_ops \<Rightarrow> 'l trace \<Rightarrow> report list outcome" where
  "os_program_deinit ops s = obind (report_loop (blocks s) (l_items ops (alloc_list s)) 0) (\<lambda>(rs, total_len).
     Ret (rs @ (if total_len \<noteq> 0 then [LeakTotal total_len] else [])))"

section \<open>Which calls fail\<close>

text \<open>The entries of a text without marks.\<close>

definition plain :: "string \<Rightarrow> bool" where
  "plain p = (CHR '';'' \<notin> set p \<and> p \<noteq> [] \<and> hd p \<noteq> CHR ''='' \<and> hd p \<noteq> CHR ''?'')"

fun joined :: "string list \<Rightarrow> string" where
  "joined [] = []"
| "joined [p] = p"
| "joined (p # q # ps) = p @ CHR '';'' # joined (q # ps)"

lemma joined_parts:
  assumes "plain p"
  shows "entry_mark (joined (p # ps)) = (True, False, joined (p # ps))"
    "takeWhile (\<lambda>c. c \<noteq> CHR '';'') (joined (p # ps)) = p"
    "dropWhile (\<lambda>c. c \<noteq> CHR '';'') (joined (p # ps)) = (if ps = [] then [] else CHR '';'' # joined ps)"
proof -
  obtain c cs where p: "p = c # cs" "c \<noteq> CHR ''=''" "c \<noteq> CHR ''?''" "CHR '';'' \<notin> set p"
    using assms by (cases p) (auto simp: plain_def)
  then show "entry_mark (joined (p # ps)) = (True, False, joined (p # ps))"
    by (cases ps) (simp_all add: entry_mark_def)
  show "takeWhile (\<lambda>c. c \<noteq> CHR '';'') (joined (p # ps)) = p"
    "dropWhile (\<lambda>c. c \<noteq> CHR '';'') (joined (p # ps)) = (if ps = [] then [] else CHR '';'' # joined ps)"
    using p(4) by (cases ps; simp add: cstr_simps)+
qed

lemma subseq_skip:
  "\<not> prefix p f \<Longrightarrow> list_all2 prefix (p # ps) xs \<Longrightarrow> subseq xs (f # fs) \<longleftrightarrow> subseq xs fs"
  by (cases xs) auto

lemma match_loop_plain:
  assumes "pats \<noteq> []" "\<forall>p \<in> set pats. plain p"
  shows "match_loop (joined pats) fs \<longleftrightarrow> (\<exists>xs. subseq xs fs \<and> list_all2 prefix pats xs)"
  using assms
proof (induction fs arbitrary: pats)
  case (Cons f fs)
  obtain p ps where ps: "pats = p # ps" using Cons.prems by (cases pats) auto
  then have p: "plain p" using Cons.prems by simp
  note step = match_loop.simps(2) [of "joined (p # ps)" f fs]
  show ?case
  proof (cases "prefix p f")
    case False
    have "match_loop (joined pats) (f # fs) = match_loop (joined pats) fs"
      using False by (simp add: step ps joined_parts [OF p])
    also have "\<dots> \<longleftrightarrow> (\<exists>xs. subseq xs fs \<and> list_all2 prefix pats xs)" by (rule Cons.IH [OF Cons.prems])
    also have "\<dots> \<longleftrightarrow> (\<exists>xs. subseq xs (f # fs) \<and> list_all2 prefix pats xs)"
      unfolding ps using subseq_skip [OF False] by blast
    finally show ?thesis .
  next
    case True
    show ?thesis
    proof (cases "ps = []")
      case True
      then have "match_loop (joined pats) (f # fs)"
        unfolding ps using \<open>prefix p f\<close> by (subst step) (simp add: joined_parts [OF p] del: joined.simps)
      moreover have "subseq [f] (f # fs) \<and> list_all2 prefix pats [f]" using True \<open>prefix p f\<close> ps by simp
      ultimately show ?thesis by blast
    next
      case False
      then have "match_loop (joined pats) (f # fs) = match_loop (joined ps) fs"
        using \<open>prefix p f\<close> by (simp add: step ps joined_parts [OF p] del: joined.simps)
      also have "\<dots> \<longleftrightarrow> (\<exists>xs. subseq xs fs \<and> list_all2 prefix ps xs)"
        using Cons.IH [of ps] Cons.prems False ps by simp
      also have "\<dots> \<longleftrightarrow> (\<exists>xs. subseq xs (f # fs) \<and> list_all2 prefix pats xs)"
      proof
        assume "\<exists>xs. subseq xs fs \<and> list_all2 prefix ps xs"
        then obtain xs where "subseq xs fs" "list_all2 prefix ps xs" by blast
        then have "subseq (f # xs) (f # fs) \<and> list_all2 prefix pats (f # xs)" using ps \<open>prefix p f\<close> by simp
        then show "\<exists>xs. subseq xs (f # fs) \<and> list_all2 prefix pats xs" by blast
      next
        assume "\<exists>xs. subseq xs (f # fs) \<and> list_all2 prefix pats xs"
        then obtain x xs where "subseq (x # xs) (f # fs)" "list_all2 prefix ps xs" using ps by (auto simp: list_all2_Cons1)
        moreover from this(1) have "subseq xs fs" by (cases "x = f") (auto dest: subseq_Cons')
        ultimately show "\<exists>xs. subseq xs fs \<and> list_all2 prefix ps xs" by blast
      qed
      finally show ?thesis .
    qed
  qed
qed (auto dest: list_emb_Nil2)

text \<open>A series of allocations with their back traces: which of them fail.\<close>

fun failures :: "string \<Rightarrow> string list list \<Rightarrow> nat \<Rightarrow> bool list" where
  "failures cfg [] n = []"
| "failures cfg (bt # bts) n = (case testing_fail_alloc cfg bt n of (failing, n') \<Rightarrow> failing # failures cfg bts n')"

definition matches :: "string \<Rightarrow> string list \<Rightarrow> bool" where
  "matches cfg bt = match_loop cfg (skip_names own_names bt)"

lemma failures_off: "failures cfg bts 0 = map (\<lambda>_. False) bts"
  by (induction bts) (simp_all add: testing_fail_alloc_def)

lemma failures_nth:
  "i < length bts \<Longrightarrow> failures cfg bts n ! i \<longleftrightarrow>
     matches cfg (bts ! i) \<and> length (filter (matches cfg) (take (Suc i) bts)) = n"
proof (induction bts arbitrary: n i)
  case (Cons bt bts)
  consider (off) "n = 0" | (no) "n \<noteq> 0" "\<not> matches cfg bt" | (yes) k where "n = Suc k" "matches cfg bt"
    by (cases n) auto
  then show ?case
  proof cases
    case off
    have "(bt # bts) ! i \<in> set (take (Suc i) (bt # bts))"
      using Cons.prems by (subst take_Suc_conv_app_nth) simp_all
    then have "matches cfg ((bt # bts) ! i) \<Longrightarrow> filter (matches cfg) (take (Suc i) (bt # bts)) \<noteq> []"
      unfolding filter_empty_conv by blast
    moreover have "\<not> failures cfg (bt # bts) 0 ! i"
      using Cons.prems by (simp only: failures_off nth_map simp_thms)
    ultimately show ?thesis using off by auto
  next
    case no
    then have "testing_fail_alloc cfg bt n = (False, n)" by (simp add: testing_fail_alloc_def matches_def)
    with no Cons.IH [of "i - 1" n] Cons.prems show ?thesis by (cases i) auto
  next
    case (yes k)
    then have "testing_fail_alloc cfg bt n = (k = 0, k)" by (simp add: testing_fail_alloc_def matches_def)
    with yes Cons.IH [of "i - 1" k] Cons.prems show ?thesis by (cases i) auto
  qed
qed simp

section \<open>The list and the blocks agree\<close>

locale dl_list =
  fixes ops :: "'l list_ops"
  assumes items_add: "distinct (l_items ops l) \<Longrightarrow> a \<notin> set (l_items ops l) \<Longrightarrow>
      distinct (l_items ops (l_add ops l a)) \<and> set (l_items ops (l_add ops l a)) = insert a (set (l_items ops l))"
    and items_del: "distinct (l_items ops l) \<Longrightarrow>
      distinct (l_items ops (l_del ops l a)) \<and> set (l_items ops (l_del ops l a)) = set (l_items ops l) - {a}"

text \<open>The contents of the blocks that have not been given back.\<close>

definition held :: "'l trace \<Rightarrow> nat \<Rightarrow> string option" where
  "held s a = (case blocks s a of Some b \<Rightarrow> if live b then Some (data b) else None | None \<Rightarrow> None)"

definition block_ok :: "os_alloc_trace \<Rightarrow> bool" where
  "block_ok b = (if live b then magic b = ALLOC_MAGIC \<and> length (data b) = len b else magic b \<noteq> ALLOC_MAGIC)"

definition trace_ok :: "'l list_ops \<Rightarrow> 'l trace \<Rightarrow> bool" where
  "trace_ok ops s = (distinct (l_items ops (alloc_list s)) \<and> set (l_items ops (alloc_list s)) = dom (held s) \<and>
     (\<forall>a b. blocks s a = Some b \<longrightarrow> block_ok b))"

text \<open>\<open>malloc\<close> gives memory that is not in use, and \<open>free\<close> destroys the magic number or leaves that of a
  freed block.\<close>

definition answer_ok :: "answer \<Rightarrow> 'l trace \<Rightarrow> bool" where
  "answer_ok ans s = (left_behind ans \<noteq> ALLOC_MAGIC \<and>
     (case malloced ans of None \<Rightarrow> True | Some (a, bytes) \<Rightarrow> held s a = None))"

lemma held_Some: "trace_ok ops s \<Longrightarrow> held s a = Some bs \<Longrightarrow>
    \<exists>b. blocks s a = Some b \<and> live b \<and> magic b = ALLOC_MAGIC \<and> data b = bs \<and> len b = length bs"
  by (auto simp: trace_ok_def held_def block_ok_def split: option.splits if_splits)

lemma held_upd: "held (s\<lparr>blocks := (blocks s)(a \<mapsto> b), alloc_list := l\<rparr>) =
    (held s)(a := if live b then Some (data b) else None)"
  by (auto simp: held_def)

lemma trace_ok_upd:
  assumes "trace_ok ops s" "block_ok b" "distinct (l_items ops l)"
    "set (l_items ops l) = (if live b then insert a (dom (held s)) else dom (held s) - {a})"
  shows "trace_ok ops (s\<lparr>blocks := (blocks s)(a \<mapsto> b), alloc_list := l\<rparr>)"
  using assms by (auto simp: trace_ok_def held_upd)

lemma fail_after_irrelevant [simp]:
  "held (s\<lparr>fail_after := n\<rparr>) = held s" "trace_ok ops (s\<lparr>fail_after := n\<rparr>) = trace_ok ops s"
  by (simp_all add: held_def [abs_def] trace_ok_def)

lemma set_data_ok:
  assumes "trace_ok ops s" "held s a = Some old" "length bs \<le> length old"
  shows "trace_ok ops (set_data a bs s)" "held (set_data a bs s) = (held s)(a \<mapsto> bs @ drop (length bs) old)"
proof -
  obtain b where b: "blocks s a = Some b" "live b" "magic b = ALLOC_MAGIC" "data b = old" "len b = length old"
    using held_Some [OF assms(1,2)] by blast
  let ?b = "b\<lparr>data := bs @ drop (length bs) old\<rparr>"
  have s: "set_data a bs s = s\<lparr>blocks := (blocks s)(a \<mapsto> ?b), alloc_list := alloc_list s\<rparr>"
    using b by (simp add: set_data_def)
  show "held (set_data a bs s) = (held s)(a \<mapsto> bs @ drop (length bs) old)" unfolding s held_upd using b by simp
  show "trace_ok ops (set_data a bs s)"
    unfolding s using assms b by (intro trace_ok_upd) (auto simp: block_ok_def trace_ok_def)
qed

text \<open>An allocation can always fail; otherwise there is one more block, where none was.\<close>

definition new_block :: "(nat \<Rightarrow> string option) \<Rightarrow> nat option \<Rightarrow> (string \<Rightarrow> bool) \<Rightarrow> (nat \<Rightarrow> string option) \<Rightarrow> bool" where
  "new_block h r P h' = (case r of None \<Rightarrow> h' = h | Some a \<Rightarrow> h a = None \<and> (\<exists>bs. P bs \<and> h' = h(a \<mapsto> bs)))"

context dl_list
begin

lemma malloc_ok:
  assumes "trace_ok ops s" "answer_ok ans s" "header_size ops + n < 2 ^ 64"
  shows "\<exists>r s'. os_malloc ops ans n s = Ret (r, s') \<and> trace_ok ops s' \<and>
    new_block (held s) r (\<lambda>bs. length bs = n) (held s')"
proof -
  obtain f k where t: "testing_fail_alloc (fail_func s) (func ans) (fail_after s) = (f, k)" by fastforce
  show ?thesis
  proof (cases "f \<or> malloced ans = None")
    case True
    with t assms show ?thesis by (auto simp: os_malloc_def new_block_def Let_def)
  next
    case False
    then obtain a bytes where a: "malloced ans = Some (a, bytes)" by auto
    let ?b = "\<lparr>magic = ALLOC_MAGIC, len = n, data = map bytes [0..<n], live = True\<rparr>"
    let ?s = "s\<lparr>fail_after := k\<rparr>"
    let ?s' = "?s\<lparr>blocks := (blocks ?s)(a \<mapsto> ?b), alloc_list := l_add ops (alloc_list ?s) a\<rparr>"
    have fresh: "held s a = None" using assms(2) a by (simp add: answer_ok_def)
    have "trace_ok ops ?s'"
      using assms(1) fresh items_add [of "alloc_list s" a]
      by (intro trace_ok_upd) (auto simp: block_ok_def trace_ok_def)
    moreover have "\<exists>bs. length bs = n \<and> held ?s' = (held s)(a \<mapsto> bs)"
      unfolding held_upd by (intro exI [of _ "map bytes [0..<n]"]) simp
    moreover have "os_malloc ops ans n s = Ret (Some a, ?s')"
      using t a False assms(3) by (simp add: os_malloc_def Let_def)
    ultimately show ?thesis using fresh by (intro exI [of _ "Some a"] exI [of _ ?s']) (simp add: new_block_def)
  qed
qed

lemma free_ok:
  assumes "trace_ok ops s" "left_behind ans \<noteq> ALLOC_MAGIC" "held s a = Some bs"
  shows "\<exists>s'. os_free ops ans (Some a) s = Ret (Inr s') \<and> trace_ok ops s' \<and> held s' = (held s)(a := None)"
proof -
  obtain b where b: "blocks s a = Some b" "live b" "magic b = ALLOC_MAGIC" using held_Some [OF assms(1,3)] by blast
  let ?b = "b\<lparr>magic := left_behind ans, live := False\<rparr>"
  let ?s' = "s\<lparr>blocks := (blocks s)(a \<mapsto> ?b), alloc_list := l_del ops (alloc_list s) a\<rparr>"
  have "trace_ok ops ?s'"
    using assms(1,2) items_del [of "alloc_list s" a] by (intro trace_ok_upd) (auto simp: block_ok_def trace_ok_def)
  moreover have "held ?s' = (held s)(a := None)" unfolding held_upd by simp
  moreover have "os_free ops ans (Some a) s = Ret (Inr ?s')" using b by (simp add: os_free_def)
  ultimately show ?thesis by blast
qed

text \<open>A block is given back once: a second time is found out.\<close>

lemma free_twice:
  assumes "trace_ok ops s" "blocks s a = Some b" "held s a = None"
  shows "os_free ops ans (Some a) s = Ret (Inl (InvalidFree (magic b = FREED_MAGIC)))"
    "os_realloc ops ans (Some a) n s = Ret (Inl (InvalidRealloc (magic b = FREED_MAGIC)))"
proof -
  have "magic b \<noteq> ALLOC_MAGIC" using assms by (auto simp: trace_ok_def held_def block_ok_def split: if_splits)
  then show "os_free ops ans (Some a) s = Ret (Inl (InvalidFree (magic b = FREED_MAGIC)))"
    "os_realloc ops ans (Some a) n s = Ret (Inl (InvalidRealloc (magic b = FREED_MAGIC)))"
    using assms(2) by (simp_all add: os_free_def os_realloc_def)
qed

end

section \<open>The calls and what they promise\<close>

datatype call = Malloc nat | Zalloc nat | Strdup string | Memdup string nat | Realloc "nat option" nat | Free "nat option"

fun run_call :: "'l list_ops \<Rightarrow> answer \<Rightarrow> call \<Rightarrow> 'l trace \<Rightarrow> (aborted + nat option \<times> 'l trace) outcome" where
  "run_call ops ans (Malloc n) s = obind (os_malloc ops ans n s) (\<lambda>r. Ret (Inr r))"
| "run_call ops ans (Zalloc n) s = obind (os_zalloc ops ans n s) (\<lambda>r. Ret (Inr r))"
| "run_call ops ans (Strdup str) s = obind (os_strdup ops ans str s) (\<lambda>r. Ret (Inr r))"
| "run_call ops ans (Memdup bs n) s = obind (os_memdup ops ans (Some bs) n s) (\<lambda>r. Ret (Inr r))"
| "run_call ops ans (Realloc p n) s = os_realloc ops ans p n s"
| "run_call ops ans (Free p) s = obind (os_free ops ans p s) (\<lambda>f. Ret (case f of Inl e \<Rightarrow> Inl e | Inr s' \<Rightarrow> Inr (None, s')))"

text \<open>What a caller may ask for, and the heap before and after it, when an allocation can always fail.\<close>

fun allowed :: "nat \<Rightarrow> call \<Rightarrow> (nat \<Rightarrow> string option) \<Rightarrow> bool" where
  "allowed hdr (Malloc n) h = (hdr + n < 2 ^ 64)"
| "allowed hdr (Zalloc n) h = (hdr + n < 2 ^ 64)"
| "allowed hdr (Strdup str) h = (hdr + length str + 1 < 2 ^ 64)"
| "allowed hdr (Memdup bs n) h = (hdr + n < 2 ^ 64 \<and> n \<le> length bs)"
| "allowed hdr (Realloc p n) h = (hdr + n < 2 ^ 64 \<and> (\<forall>a. p = Some a \<longrightarrow> h a \<noteq> None))"
| "allowed hdr (Free p) h = (\<forall>a. p = Some a \<longrightarrow> h a \<noteq> None)"

fun call_spec :: "call \<Rightarrow> nat option \<Rightarrow> (nat \<Rightarrow> string option) \<Rightarrow> (nat \<Rightarrow> string option) \<Rightarrow> bool" where
  "call_spec (Malloc n) r h h' = new_block h r (\<lambda>bs. length bs = n) h'"
| "call_spec (Zalloc n) r h h' = new_block h r (\<lambda>bs. bs = replicate n NUL) h'"
| "call_spec (Strdup str) r h h' = new_block h r (\<lambda>bs. bs = str @ [NUL]) h'"
| "call_spec (Memdup src n) r h h' = new_block h r (\<lambda>bs. bs = take n src) h'"
| "call_spec (Realloc None n) r h h' = new_block h r (\<lambda>bs. length bs = n) h'"
| "call_spec (Realloc (Some p) n) r h h' = (case r of
     None \<Rightarrow> h' = h
   | Some a \<Rightarrow> h a = None \<and> (\<exists>bs. length bs = n \<and> prefix (take n (the (h p))) bs \<and>
       h' = h(a \<mapsto> bs, p := None)))"
| "call_spec (Free None) r h h' = (r = None \<and> h' = h)"
| "call_spec (Free (Some p)) r h h' = (r = None \<and> h' = h(p := None))"

context dl_list
begin

text \<open>An allocation that is filled at once.\<close>

lemma malloc_fill_ok:
  assumes "trace_ok ops s" "answer_ok ans s" "header_size ops + length bs < 2 ^ 64"
  shows "\<exists>r s'. obind (os_malloc ops ans (length bs) s) (\<lambda>(ptr, s1). case ptr of
      None \<Rightarrow> Ret (None, s1) | Some a \<Rightarrow> Ret (Some a, set_data a bs s1)) = Ret (r, s') \<and>
    trace_ok ops s' \<and> new_block (held s) r (\<lambda>x. x = bs) (held s')"
proof -
  obtain r s1 where m: "os_malloc ops ans (length bs) s = Ret (r, s1)" "trace_ok ops s1"
    "new_block (held s) r (\<lambda>x. length x = length bs) (held s1)"
    using malloc_ok [OF assms] by blast
  show ?thesis
  proof (cases r)
    case None
    with m show ?thesis by (simp add: new_block_def)
  next
    case (Some a)
    then obtain x where x: "held s a = None" "length x = length bs" "held s1 = (held s)(a \<mapsto> x)" using m(3) by (auto simp: new_block_def)
    then have "held s1 a = Some x" by simp
    from set_data_ok [OF m(2) this, of bs] x m(1) Some show ?thesis by (simp add: new_block_def)
  qed
qed

lemma realloc_ok:
  assumes "trace_ok ops s" "answer_ok ans s" "header_size ops + n < 2 ^ 64" "held s p = Some old"
  shows "\<exists>r s'. os_realloc ops ans (Some p) n s = Ret (Inr (r, s')) \<and> trace_ok ops s' \<and>
    call_spec (Realloc (Some p) n) r (held s) (held s')"
proof -
  obtain b where b: "blocks s p = Some b" "live b" "magic b = ALLOC_MAGIC" "data b = old" "len b = length old"
    using held_Some [OF assms(1,4)] by blast
  obtain r s1 where m: "os_malloc ops ans n s = Ret (r, s1)" "trace_ok ops s1"
    "new_block (held s) r (\<lambda>x. length x = n) (held s1)"
    using malloc_ok [OF assms(1,2,3)] by blast
  show ?thesis
  proof (cases r)
    case None
    with m b show ?thesis by (simp add: os_realloc_def new_block_def)
  next
    case (Some a)
    then obtain x where x: "held s a = None" "length x = n" "held s1 = (held s)(a \<mapsto> x)" using m(3) by (auto simp: new_block_def)
    let ?c = "take (if len b > n then n else len b) (data b)"
    let ?s2 = "set_data a ?c s1"
    have c: "?c = take n old" using b by simp
    have "held s1 a = Some x" "length ?c \<le> length x" using x by (simp_all add: c)
    note s2 = set_data_ok [OF m(2) this]
    have "a \<noteq> p" using x(1) assms(4) by auto
    then have "held ?s2 p = Some old" using s2(2) x(3) assms(4) by simp
    moreover have "left_behind ans \<noteq> ALLOC_MAGIC" using assms(2) by (simp add: answer_ok_def)
    ultimately obtain s3 where s3: "os_free ops ans (Some p) ?s2 = Ret (Inr s3)" "trace_ok ops s3"
      "held s3 = (held ?s2)(p := None)" using free_ok [OF s2(1)] by blast
    have "os_realloc ops ans (Some p) n s = Ret (Inr (Some a, s3))"
      using b m(1) Some s3(1) by (simp add: os_realloc_def Let_def)
    moreover have "call_spec (Realloc (Some p) n) (Some a) (held s) (held s3)"
      using x s2(2) s3(3) assms(4) by (auto simp: c intro!: exI [of _ "take n old @ drop (length (take n old)) x"])
    ultimately show ?thesis using s3(2) by blast
  qed
qed

lemma call_ok:
  assumes "trace_ok ops s" "answer_ok ans s" "allowed (header_size ops) call (held s)"
  shows "\<exists>r s'. run_call ops ans call s = Ret (Inr (r, s')) \<and> trace_ok ops s' \<and> call_spec call r (held s) (held s')"
proof (cases call)
  case (Malloc n)
  with malloc_ok [OF assms(1,2), of n] assms(3) show ?thesis
    by auto
next
  case (Zalloc n)
  with malloc_fill_ok [OF assms(1,2), of "replicate n NUL"] assms(3) show ?thesis by (auto simp: os_zalloc_def)
next
  case (Strdup str)
  with malloc_fill_ok [OF assms(1,2), of "str @ [NUL]"] assms(3) show ?thesis by (auto simp: os_strdup_def add.assoc)
next
  case (Memdup bs n)
  then have n: "header_size ops + n < 2 ^ 64" "n \<le> length bs" using assms(3) by simp_all
  then have "length (take n bs) = n" by simp
  with malloc_fill_ok [OF assms(1,2), of "take n bs"] n
  obtain r s' where "obind (os_malloc ops ans n s) (\<lambda>(ptr, s1). case ptr of
      None \<Rightarrow> Ret (None, s1) | Some a \<Rightarrow> Ret (Some a, set_data a (take n bs) s1)) = Ret (r, s')"
    "trace_ok ops s'" "new_block (held s) r (\<lambda>x. x = take n bs) (held s')" by metis
  moreover from this(1) have "os_memdup ops ans (Some bs) n s = Ret (r, s')"
    using n(2) by (auto simp: os_memdup_def outcome_simps split: option.splits)
  ultimately show ?thesis using Memdup by simp
next
  case (Realloc p n)
  show ?thesis
  proof (cases p)
    case None
    with Realloc malloc_ok [OF assms(1,2), of n] assms(3) show ?thesis
      by (auto simp: os_realloc_def)
  next
    case (Some a)
    then obtain old where "held s a = Some old" using Realloc assms(3) by auto
    with realloc_ok [OF assms(1,2)] assms(3) Realloc Some show ?thesis by simp
  qed
next
  case (Free p)
  show ?thesis
  proof (cases p)
    case (Some a)
    then obtain bs where "held s a = Some bs" using Free assms(3) by auto
    moreover have "left_behind ans \<noteq> ALLOC_MAGIC" using assms(2) by (simp add: answer_ok_def)
    ultimately obtain s' where "os_free ops ans (Some a) s = Ret (Inr s')" "trace_ok ops s'" "held s' = (held s)(a := None)"
      using free_ok [OF assms(1)] by blast
    with Free Some show ?thesis by simp
  qed (use Free assms(1) in \<open>simp add: os_free_def\<close>)
qed

end

section \<open>What leaks\<close>

lemma report_loop_held:
  assumes "trace_ok ops s" "\<forall>a \<in> set as. held s a \<noteq> None"
  shows "report_loop (blocks s) as t = Ret (map (\<lambda>a. MemLeak a (length (the (held s a)))) as,
    (if as = [] then t else (t + (\<Sum>a\<leftarrow>as. length (the (held s a)))) mod 2 ^ 64))"
  using assms(2)
proof (induction as arbitrary: t)
  case (Cons a as)
  then obtain bs where bs: "held s a = Some bs" by auto
  from held_Some [OF assms(1) bs] obtain b where "blocks s a = Some b" "magic b = ALLOC_MAGIC" "len b = length bs" by auto
  with Cons bs show ?case by (auto simp: mod_simps ac_simps)
qed simp

fun run_calls :: "'l list_ops \<Rightarrow> (answer \<times> call) list \<Rightarrow> 'l trace \<Rightarrow> (aborted + 'l trace) outcome" where
  "run_calls ops [] s = Ret (Inr s)"
| "run_calls ops ((ans, c) # cs) s = obind (run_call ops ans c s) (\<lambda>x. case x of
     Inl e \<Rightarrow> Ret (Inl e) | Inr (r, s') \<Rightarrow> run_calls ops cs s')"

text \<open>A program whose calls are all allowed where they are made, and a system that answers properly.\<close>

fun proper :: "'l list_ops \<Rightarrow> (answer \<times> call) list \<Rightarrow> 'l trace \<Rightarrow> bool" where
  "proper ops [] s = True"
| "proper ops ((ans, c) # cs) s = (answer_ok ans s \<and> allowed (header_size ops) c (held s) \<and>
     (case run_call ops ans c s of Ret (Inr (r, s')) \<Rightarrow> proper ops cs s' | _ \<Rightarrow> True))"

context dl_list
begin

lemma run_calls_ok:
  "trace_ok ops s \<Longrightarrow> proper ops cs s \<Longrightarrow> \<exists>s'. run_calls ops cs s = Ret (Inr s') \<and> trace_ok ops s'"
proof (induction cs arbitrary: s)
  case (Cons c cs)
  obtain ans x where c: "c = (ans, x)" by (cases c)
  with Cons.prems call_ok [of s ans x] obtain r s1 where "run_call ops ans x s = Ret (Inr (r, s1))" "trace_ok ops s1" by auto
  with c Cons show ?case by simp
qed simp

end

definition stack_list :: "nat list list_ops" where
  "stack_list = \<lparr>l_add = (\<lambda>l a. a # l), l_del = (\<lambda>l a. remove1 a l), l_items = (\<lambda>l. l), header_size = 48\<rparr>"

interpretation stack: dl_list stack_list
  by unfold_locales (auto simp: stack_list_def)

section \<open>The properties\<close>

text \<open>
  C27: The tracing allocator is an allocator: on a heap in order, every call that is allowed returns
  without an abort and without a fault, keeps the list and the headers in order, and changes the
  blocks in use as \<open>malloc\<close>, \<open>calloc\<close>, \<open>strdup\<close>, \<open>realloc\<close> and \<open>free\<close> promise, failing or not.
\<close>

theorem tracing_refines:
  assumes "dl_list ops" "trace_ok ops s" "answer_ok ans s" "allowed (header_size ops) call (held s)"
  shows "\<exists>r s'. run_call ops ans call s = Ret (Inr (r, s')) \<and> trace_ok ops s' \<and> call_spec call r (held s) (held s')"
  by (rule dl_list.call_ok [OF assms])

definition one_block :: "nat list trace" where
  "one_block = \<lparr>blocks = [7 \<mapsto> \<lparr>magic = ALLOC_MAGIC, len = 3, data = ''abc'', live = True\<rparr>],
     alloc_list = [7], fail_func = ''wpa_ctrl_open'', fail_after = 0\<rparr>"

definition gives_9 :: answer where
  "gives_9 = \<lparr>malloced = Some (9, \<lambda>_. CHR ''x''), func = [''os_malloc'', ''main''], left_behind = FREED_MAGIC\<rparr>"

lemma one_block_ok: "trace_ok stack_list one_block" "answer_ok gives_9 one_block"
  by (auto simp: trace_ok_def one_block_def stack_list_def held_def [abs_def] block_ok_def gives_9_def answer_ok_def
      ALLOC_MAGIC_def FREED_MAGIC_def split: if_splits)

theorem tracing_refines_witness:
  "\<exists>r s'. run_call stack_list gives_9 (Realloc (Some 7) 5) one_block = Ret (Inr (r, s')) \<and> trace_ok stack_list s' \<and>
     call_spec (Realloc (Some 7) 5) r (held one_block) (held s')"
  by (rule tracing_refines [OF stack.dl_list_axioms one_block_ok])
    (simp add: stack_list_def one_block_def held_def)

text \<open>
  After a program whose calls are allowed where it makes them, the report at the end names
  exactly the blocks that have not been given back, each once with its length, and their total.
\<close>

theorem leak_report:
  assumes "dl_list ops" "trace_ok ops s" "proper ops cs s"
  shows "\<exists>s' as. run_calls ops cs s = Ret (Inr s') \<and> distinct as \<and> set as = dom (held s') \<and>
    os_program_deinit ops s' = Ret (map (\<lambda>a. MemLeak a (length (the (held s' a)))) as @
      (let t = (\<Sum>a\<leftarrow>as. length (the (held s' a))) mod 2 ^ 64 in if t = 0 then [] else [LeakTotal t]))"
proof -
  obtain s' where s': "run_calls ops cs s = Ret (Inr s')" "trace_ok ops s'"
    using dl_list.run_calls_ok [OF assms] by blast
  let ?as = "l_items ops (alloc_list s')"
  have l: "distinct ?as" "set ?as = dom (held s')" using s'(2) by (simp_all add: trace_ok_def)
  then have "\<forall>a \<in> set ?as. held s' a \<noteq> None" by auto
  from report_loop_held [OF s'(2) this, of 0] l s'(1) show ?thesis
    by (intro exI [of _ s'] exI [of _ ?as]) (auto simp: os_program_deinit_def Let_def)
qed

definition leaky_calls :: "(answer \<times> call) list" where
  "leaky_calls = [(gives_9, Realloc (Some 7) 5), (gives_9\<lparr>malloced := None\<rparr>, Malloc 2)]"

lemma leaky_run:
  "run_call stack_list gives_9 (Realloc (Some 7) 5) one_block =
     Ret (Inr (Some 9, one_block\<lparr>alloc_list := [9], blocks := [7 \<mapsto> \<lparr>magic = FREED_MAGIC, len = 3, data = ''abc'', live = False\<rparr>,
       9 \<mapsto> \<lparr>magic = ALLOC_MAGIC, len = 5, data = ''abcxx'', live = True\<rparr>]\<rparr>))"
  by (auto simp: one_block_def stack_list_def gives_9_def os_realloc_def os_malloc_def os_free_def set_data_def
      testing_fail_alloc_def Let_def fun_eq_iff) (simp add: eval_nat_numeral)

theorem leak_report_witness:
  "\<exists>s' as. run_calls stack_list leaky_calls one_block = Ret (Inr s') \<and> distinct as \<and> set as = dom (held s') \<and>
    os_program_deinit stack_list s' = Ret (map (\<lambda>a. MemLeak a (length (the (held s' a)))) as @
      (let t = (\<Sum>a\<leftarrow>as. length (the (held s' a))) mod 2 ^ 64 in if t = 0 then [] else [LeakTotal t]))"
proof (rule leak_report [OF stack.dl_list_axioms one_block_ok(1)])
  have "answer_ok (gives_9\<lparr>malloced := None\<rparr>) t" for t :: "nat list trace"
    by (simp add: answer_ok_def gives_9_def FREED_MAGIC_def ALLOC_MAGIC_def)
  then show "proper stack_list leaky_calls one_block"
    using one_block_ok(2) by (auto simp: leaky_calls_def leaky_run split: outcome.split sum.split)
      (simp_all add: stack_list_def one_block_def held_def)
qed

text \<open>
  With a text of plain entries, exactly the \<open>n\<close>-th of the allocations whose callers contain
  the entries in this order, each as the beginning of a name, is the one that fails.
\<close>

definition called_through :: "string list \<Rightarrow> string list \<Rightarrow> bool" where
  "called_through pats bt = (\<exists>xs. subseq xs (skip_names own_names bt) \<and> list_all2 prefix pats xs)"

theorem nth_match_fails:
  assumes "pats \<noteq> []" "\<forall>p \<in> set pats. plain p" "i < length bts"
  shows "failures (joined pats) bts n ! i \<longleftrightarrow>
    called_through pats (bts ! i) \<and> length (filter (called_through pats) (take (Suc i) bts)) = n"
proof -
  have "matches (joined pats) = called_through pats"
    by (simp add: fun_eq_iff matches_def called_through_def match_loop_plain [OF assms(1,2)])
  then show ?thesis using failures_nth [OF assms(3), of "joined pats" n] by simp
qed

definition two_allocations :: "string list list" where
  "two_allocations = [[''os_malloc'', ''main''], [''os_zalloc'', ''wpa_ctrl_open2'', ''main'']]"

theorem nth_match_fails_witness:
  "failures (joined [''wpa_ctrl_open'', ''main'']) two_allocations 1 ! 1 \<longleftrightarrow>
    called_through [''wpa_ctrl_open'', ''main''] (two_allocations ! 1) \<and>
    length (filter (called_through [''wpa_ctrl_open'', ''main'']) (take (Suc 1) two_allocations)) = 1"
  by (rule nth_match_fails) (simp_all add: plain_def two_allocations_def)

end
