(* ===== verification/WpaBuf.thy ===== *)
theory WpaBuf
  imports WpaBytes
begin

text \<open>
  The dynamic buffer of src/src/wifi/wpa_socket/wpabuf.h, the hex dump wrappers of wpa_debug.h and
  the byte swapping of common.h. \<open>wpabuf_put\<close>, which makes room at the end of a buffer, is not in
  the repository: it is an argument, and what its callers rely on is the locale \<open>buffer_end\<close>.
\<close>

unbundle bit_operations_syntax

section \<open>Byte swapping\<close>

definition bswap_16 :: "16 word \<Rightarrow> 16 word" where
  "bswap_16 v = push_bit 8 (v AND 0xff) OR drop_bit 8 v"

definition bswap_32 :: "32 word \<Rightarrow> 32 word" where
  "bswap_32 v = push_bit 24 (v AND 0xff) OR push_bit 8 (v AND 0xff00) OR drop_bit 8 (v AND 0xff0000) OR drop_bit 24 v"

text \<open>The macros for \<open>CONFIG_ANSI_C_EXTRA\<close>, and the inline functions for Windows.\<close>

definition ansi_bswap_16 :: "16 word \<Rightarrow> 16 word" where
  "ansi_bswap_16 a = (push_bit 8 a AND 0xff00) OR (drop_bit 8 a AND 0xff)"

definition ansi_bswap_32 :: "32 word \<Rightarrow> 32 word" where
  "ansi_bswap_32 a = (push_bit 24 a AND 0xff000000) OR (push_bit 8 a AND 0xff0000) OR
     (drop_bit 8 a AND 0xff00) OR (drop_bit 24 a AND 0xff)"

definition wpa_swap_16 :: "16 word \<Rightarrow> 16 word" where
  "wpa_swap_16 v = push_bit 8 (v AND 0xff) OR drop_bit 8 v"

definition wpa_swap_32 :: "32 word \<Rightarrow> 32 word" where
  "wpa_swap_32 v = push_bit 24 (v AND 0xff) OR push_bit 8 (v AND 0xff00) OR drop_bit 8 (v AND 0xff0000) OR drop_bit 24 v"

datatype byte_order = LittleEndian | BigEndian

fun host_to_le16 :: "byte_order \<Rightarrow> 16 word \<Rightarrow> 16 word" where
  "host_to_le16 LittleEndian n = n" | "host_to_le16 BigEndian n = bswap_16 n"

fun host_to_be16 :: "byte_order \<Rightarrow> 16 word \<Rightarrow> 16 word" where
  "host_to_be16 LittleEndian n = bswap_16 n" | "host_to_be16 BigEndian n = n"

fun host_to_le32 :: "byte_order \<Rightarrow> 32 word \<Rightarrow> 32 word" where
  "host_to_le32 LittleEndian n = n" | "host_to_le32 BigEndian n = bswap_32 n"

fun host_to_be32 :: "byte_order \<Rightarrow> 32 word \<Rightarrow> 32 word" where
  "host_to_be32 LittleEndian n = bswap_32 n" | "host_to_be32 BigEndian n = n"

text \<open>How the machine stores a number: the bytes at increasing addresses.\<close>

fun stored16 :: "byte_order \<Rightarrow> 16 word \<Rightarrow> u8 list" where
  "stored16 LittleEndian n = [ucast n, ucast (drop_bit 8 n)]"
| "stored16 BigEndian n = [ucast (drop_bit 8 n), ucast n]"

fun stored32 :: "byte_order \<Rightarrow> 32 word \<Rightarrow> u8 list" where
  "stored32 LittleEndian n = [ucast n, ucast (drop_bit 8 n), ucast (drop_bit 16 n), ucast (drop_bit 24 n)]"
| "stored32 BigEndian n = [ucast (drop_bit 24 n), ucast (drop_bit 16 n), ucast (drop_bit 8 n), ucast n]"

text \<open>The bits of the masks.\<close>

lemma mask_bits:
  "bit (0xff :: 'a::len word) n \<longleftrightarrow> n < 8 \<and> n < LENGTH('a)"
  "bit (0xff00 :: 32 word) n \<longleftrightarrow> 8 \<le> n \<and> n < 16" "bit (0xff0000 :: 32 word) n \<longleftrightarrow> 16 \<le> n \<and> n < 24"
  "bit (0xff000000 :: 32 word) n \<longleftrightarrow> 24 \<le> n \<and> n < 32" "bit (0xff00 :: 16 word) n \<longleftrightarrow> 8 \<le> n \<and> n < 16"
proof -
  have m: "(0xff :: 'a::len word) = mask 8" "(0xff00 :: 32 word) = push_bit 8 (mask 8)" "(0xff0000 :: 32 word) = push_bit 16 (mask 8)"
    "(0xff000000 :: 32 word) = push_bit 24 (mask 8)" "(0xff00 :: 16 word) = push_bit 8 (mask 8)"
    by (simp_all add: mask_eq_exp_minus_1 push_bit_eq_mult)
  have l: "possible_bit TYPE('b::len word) n \<longleftrightarrow> n < LENGTH('b)" for n by (simp add: bit_simps)
  show "bit (0xff :: 'a::len word) n \<longleftrightarrow> n < 8 \<and> n < LENGTH('a)"
    by (subst m(1)) (auto simp only: bit_mask_iff l)
  show "bit (0xff00 :: 32 word) n \<longleftrightarrow> 8 \<le> n \<and> n < 16" "bit (0xff0000 :: 32 word) n \<longleftrightarrow> 16 \<le> n \<and> n < 24"
    "bit (0xff000000 :: 32 word) n \<longleftrightarrow> 24 \<le> n \<and> n < 32"
    by ((subst m(2,3,4)), simp only: bit_push_bit_iff bit_mask_iff l, simp, linarith)+
  show "bit (0xff00 :: 16 word) n \<longleftrightarrow> 8 \<le> n \<and> n < 16"
    by ((subst m(5)), simp only: bit_push_bit_iff bit_mask_iff l, simp, linarith)
qed

text \<open>The three ways to swap agree, and swapping twice changes nothing.\<close>

lemma swaps_agree:
  "ansi_bswap_16 = bswap_16" "ansi_bswap_32 = bswap_32" "wpa_swap_16 = bswap_16" "wpa_swap_32 = bswap_32"
proof -
  show "ansi_bswap_16 = bswap_16"
    by (intro ext bit_word_eqI) (auto simp: ansi_bswap_16_def bswap_16_def bit_simps mask_bits simp del: bit_numeral_word_iff dest: bit_imp_le_length)
  show "ansi_bswap_32 = bswap_32"
    by (intro ext bit_word_eqI) (auto simp: ansi_bswap_32_def bswap_32_def bit_simps mask_bits simp del: bit_numeral_word_iff dest: bit_imp_le_length)
  show "wpa_swap_16 = bswap_16" "wpa_swap_32 = bswap_32"
    by (auto simp: wpa_swap_16_def bswap_16_def wpa_swap_32_def bswap_32_def)
qed

lemma bswap_bytes16:
  "(ucast (bswap_16 v) :: u8) = ucast (drop_bit 8 v)" "(ucast (drop_bit 8 (bswap_16 v)) :: u8) = ucast v"
  by (rule bit_word_eqI, auto simp: bswap_16_def bit_simps mask_bits simp del: bit_numeral_word_iff dest: bit_imp_le_length)+

lemma bswap_bytes32:
  "(ucast (bswap_32 v) :: u8) = ucast (drop_bit 24 v)" "(ucast (drop_bit 8 (bswap_32 v)) :: u8) = ucast (drop_bit 16 v)"
  "(ucast (drop_bit 16 (bswap_32 v)) :: u8) = ucast (drop_bit 8 v)" "(ucast (drop_bit 24 (bswap_32 v)) :: u8) = ucast v"
  by (rule bit_word_eqI, auto simp: bswap_32_def bit_simps mask_bits simp del: bit_numeral_word_iff dest: bit_imp_le_length)+

text \<open>On every machine the stored bytes are those that the unaligned helpers write.\<close>

lemma host_order_stored:
  "stored16 bo (host_to_le16 bo n) = [ucast n, ucast (drop_bit 8 n)]"
  "stored16 bo (host_to_be16 bo n) = [ucast (drop_bit 8 n), ucast n]"
  "stored32 bo (host_to_le32 bo m) = [ucast m, ucast (drop_bit 8 m), ucast (drop_bit 16 m), ucast (drop_bit 24 m)]"
  "stored32 bo (host_to_be32 bo m) = [ucast (drop_bit 24 m), ucast (drop_bit 16 m), ucast (drop_bit 8 m), ucast m]"
  by (cases bo; simp add: bswap_bytes16 bswap_bytes32)+

section \<open>The buffer\<close>

text \<open>\<open>b_data\<close> is the memory that \<open>buf\<close> points to.\<close>

record wpabuf =
  b_size :: nat
  b_used :: nat
  b_data :: "u8 list"
  b_ext :: bool

definition wpabuf_size :: "wpabuf \<Rightarrow> nat" where "wpabuf_size b = b_size b"
definition wpabuf_len :: "wpabuf \<Rightarrow> nat" where "wpabuf_len b = b_used b"
definition wpabuf_head :: "wpabuf \<Rightarrow> u8 list" where "wpabuf_head b = b_data b"

text \<open>The difference is taken in \<open>size_t\<close>.\<close>

definition wpabuf_tailroom :: "wpabuf \<Rightarrow> size_t" where
  "wpabuf_tailroom b = of_nat (b_size b) - of_nat (b_used b)"

text \<open>What \<open>wpabuf_put\<close> gives: the place of the room in the buffer, and the buffer. A number is stored there.\<close>

type_synonym room = "wpabuf \<Rightarrow> nat \<Rightarrow> (nat \<times> wpabuf) outcome"

definition store :: "(nat \<times> wpabuf) outcome \<Rightarrow> (u8 list \<Rightarrow> u8 list outcome) \<Rightarrow> wpabuf outcome" where
  "store p f = obind p (\<lambda>(pos, b). obind (f (drop pos (b_data b))) (\<lambda>bs. Ret (b\<lparr>b_data := take pos (b_data b) @ bs\<rparr>)))"

definition wpabuf_put_u8 :: "room \<Rightarrow> wpabuf \<Rightarrow> u8 \<Rightarrow> wpabuf outcome" where
  "wpabuf_put_u8 put b v = store (put b 1) (put_bytes [v])"

definition wpabuf_put_le16 :: "room \<Rightarrow> wpabuf \<Rightarrow> 16 word \<Rightarrow> wpabuf outcome" where
  "wpabuf_put_le16 put b v = store (put b 2) (WPA_PUT_LE16 v)"

definition wpabuf_put_le32 :: "room \<Rightarrow> wpabuf \<Rightarrow> 32 word \<Rightarrow> wpabuf outcome" where
  "wpabuf_put_le32 put b v = store (put b 4) (WPA_PUT_LE32 v)"

definition wpabuf_put_be16 :: "room \<Rightarrow> wpabuf \<Rightarrow> 16 word \<Rightarrow> wpabuf outcome" where
  "wpabuf_put_be16 put b v = store (put b 2) (WPA_PUT_BE16 v)"

definition wpabuf_put_be24 :: "room \<Rightarrow> wpabuf \<Rightarrow> 32 word \<Rightarrow> wpabuf outcome" where
  "wpabuf_put_be24 put b v = store (put b 3) (WPA_PUT_BE24 v)"

definition wpabuf_put_be32 :: "room \<Rightarrow> wpabuf \<Rightarrow> 32 word \<Rightarrow> wpabuf outcome" where
  "wpabuf_put_be32 put b v = store (put b 4) (WPA_PUT_BE32 v)"

definition wpabuf_put_data :: "room \<Rightarrow> wpabuf \<Rightarrow> u8 list option \<Rightarrow> nat \<Rightarrow> wpabuf outcome" where
  "wpabuf_put_data put b src n = (case src of
       None \<Rightarrow> Ret b
     | Some bs \<Rightarrow> if length bs < n then Fault OutOfBounds else store (put b n) (put_bytes (take n bs)))"

definition wpabuf_put_buf :: "room \<Rightarrow> wpabuf \<Rightarrow> wpabuf \<Rightarrow> wpabuf outcome" where
  "wpabuf_put_buf put dst src = wpabuf_put_data put dst (Some (wpabuf_head src)) (wpabuf_len src)"

definition wpabuf_put_str :: "room \<Rightarrow> wpabuf \<Rightarrow> string \<Rightarrow> wpabuf outcome" where
  "wpabuf_put_str put dst str = wpabuf_put_data put dst (Some (map of_char str)) (length str)"

definition wpabuf_set :: "u8 list \<Rightarrow> nat \<Rightarrow> wpabuf \<Rightarrow> wpabuf" where
  "wpabuf_set bs n b = b\<lparr>b_data := bs, b_ext := True, b_size := n, b_used := n\<rparr>"

text \<open>What is handed to \<open>wpa_hexdump\<close> and \<open>wpa_hexdump_key\<close>; no buffer is a null pointer and no bytes.\<close>

definition wpa_hexdump_buf :: "(int \<Rightarrow> string \<Rightarrow> u8 list option \<Rightarrow> nat \<Rightarrow> 'a) \<Rightarrow> int \<Rightarrow> string \<Rightarrow> wpabuf option \<Rightarrow> 'a" where
  "wpa_hexdump_buf hexdump level title buf = hexdump level title (map_option wpabuf_head buf)
     (case buf of None \<Rightarrow> 0 | Some b \<Rightarrow> wpabuf_len b)"

definition wpa_hexdump_buf_key :: "(int \<Rightarrow> string \<Rightarrow> u8 list option \<Rightarrow> nat \<Rightarrow> 'a) \<Rightarrow> int \<Rightarrow> string \<Rightarrow> wpabuf option \<Rightarrow> 'a" where
  "wpa_hexdump_buf_key hexdump_key level title buf = hexdump_key level title (map_option wpabuf_head buf)
     (case buf of None \<Rightarrow> 0 | Some b \<Rightarrow> wpabuf_len b)"

section \<open>A message written field by field\<close>

datatype field = F8 u8 | Le16 "16 word" | Le32 "32 word" | Be16 "16 word" | Be24 "32 word" | Be32 "32 word"
  | Bytes "u8 list"

fun put_field :: "room \<Rightarrow> field \<Rightarrow> wpabuf \<Rightarrow> wpabuf outcome" where
  "put_field put (F8 v) b = wpabuf_put_u8 put b v"
| "put_field put (Le16 v) b = wpabuf_put_le16 put b v"
| "put_field put (Le32 v) b = wpabuf_put_le32 put b v"
| "put_field put (Be16 v) b = wpabuf_put_be16 put b v"
| "put_field put (Be24 v) b = wpabuf_put_be24 put b v"
| "put_field put (Be32 v) b = wpabuf_put_be32 put b v"
| "put_field put (Bytes bs) b = wpabuf_put_data put b (Some bs) (length bs)"

fun put_fields :: "room \<Rightarrow> field list \<Rightarrow> wpabuf \<Rightarrow> wpabuf outcome" where
  "put_fields put [] b = Ret b"
| "put_fields put (f # fs) b = obind (put_field put f b) (put_fields put fs)"

text \<open>Reading a field of the same kind back from the bytes.\<close>

fun field_len :: "field \<Rightarrow> nat" where
  "field_len (F8 _) = 1" | "field_len (Le16 _) = 2" | "field_len (Le32 _) = 4" | "field_len (Be16 _) = 2"
| "field_len (Be24 _) = 3" | "field_len (Be32 _) = 4" | "field_len (Bytes bs) = length bs"

fun get_field :: "field \<Rightarrow> u8 list \<Rightarrow> field outcome" where
  "get_field (F8 _) a = get_bytes 1 a (\<lambda>a. F8 (a ! 0))"
| "get_field (Le16 _) a = obind (WPA_GET_LE16 a) (\<lambda>v. Ret (Le16 v))"
| "get_field (Le32 _) a = obind (WPA_GET_LE32 a) (\<lambda>v. Ret (Le32 v))"
| "get_field (Be16 _) a = obind (WPA_GET_BE16 a) (\<lambda>v. Ret (Be16 v))"
| "get_field (Be24 _) a = obind (WPA_GET_BE24 a) (\<lambda>v. Ret (Be24 v))"
| "get_field (Be32 _) a = obind (WPA_GET_BE32 a) (\<lambda>v. Ret (Be32 v))"
| "get_field (Bytes bs) a = get_bytes (length bs) a (\<lambda>a. Bytes (take (length bs) a))"

fun get_fields :: "field list \<Rightarrow> u8 list \<Rightarrow> field list outcome" where
  "get_fields [] a = Ret []"
| "get_fields (k # ks) a = obind (get_field k a) (\<lambda>f. obind (get_fields ks (drop (field_len k) a)) (\<lambda>fs. Ret (f # fs)))"

text \<open>Only the low 24 bits of a \<open>Be24\<close> are stored.\<close>

fun stored_field :: "field \<Rightarrow> field" where
  "stored_field (Be24 v) = Be24 (take_bit 24 v)"
| "stored_field f = f"

fun field_bytes :: "field \<Rightarrow> u8 list" where
  "field_bytes (F8 v) = [v]"
| "field_bytes (Le16 v) = [ucast v, ucast (drop_bit 8 v)]"
| "field_bytes (Le32 v) = [ucast v, ucast (drop_bit 8 v), ucast (drop_bit 16 v), ucast (drop_bit 24 v)]"
| "field_bytes (Be16 v) = [ucast (drop_bit 8 v), ucast v]"
| "field_bytes (Be24 v) = [ucast (drop_bit 16 v), ucast (drop_bit 8 v), ucast v]"
| "field_bytes (Be32 v) = [ucast (drop_bit 24 v), ucast (drop_bit 16 v), ucast (drop_bit 8 v), ucast v]"
| "field_bytes (Bytes bs) = bs"

lemma length_field_bytes [simp]: "length (field_bytes f) = field_len f"
  by (cases f) simp_all

lemma get_field_bytes: "get_field f (field_bytes f @ r) = Ret (stored_field f)"
  by (cases f) (simp_all add: wpa_get_defs join16 join32 nth_append, simp add: join24)

lemma get_fields_bytes: "get_fields fs (concat (map field_bytes fs) @ r) = Ret (map stored_field fs)"
  by (induction fs) (simp_all add: get_field_bytes)

lemma put_field_is: "put_field put f b = store (put b (field_len f)) (put_bytes (field_bytes f))"
  by (cases f) (simp_all add: wpabuf_put_u8_def wpabuf_put_le16_def wpabuf_put_le32_def wpabuf_put_be16_def
      wpabuf_put_be24_def wpabuf_put_be32_def wpabuf_put_data_def wpa_put_defs and_ff)

definition buf_ok :: "wpabuf \<Rightarrow> bool" where
  "buf_ok b = (b_used b \<le> b_size b \<and> b_size b \<le> length (b_data b) \<and> b_size b < 2 ^ 64)"

definition contents :: "wpabuf \<Rightarrow> u8 list" where
  "contents b = take (b_used b) (b_data b)"

lemma tailroom_exact: "buf_ok b \<Longrightarrow> unat (wpabuf_tailroom b) = b_size b - b_used b"
proof -
  assume b: "buf_ok b"
  then have "wpabuf_tailroom b = of_nat (b_size b - b_used b)" by (simp add: wpabuf_tailroom_def buf_ok_def)
  moreover have "b_size b - b_used b < 2 ^ 64"
    using b unfolding buf_ok_def by (intro le_less_trans [OF diff_le_self]) simp
  ultimately show ?thesis by (simp add: unat_of_nat)
qed

locale buffer_end =
  fixes put :: room
  assumes put_room: "buf_ok b \<Longrightarrow> b_used b + n \<le> b_size b \<Longrightarrow> put b n = Ret (b_used b, b\<lparr>b_used := b_used b + n\<rparr>)"
begin

lemma store_at_end:
  assumes "buf_ok b" "b_used b + length bs \<le> b_size b"
  shows "\<exists>b'. store (put b (length bs)) (put_bytes bs) = Ret b' \<and> buf_ok b' \<and> contents b' = contents b @ bs \<and>
    b_size b' = b_size b \<and> b_used b' = b_used b + length bs"
  using assms put_room [OF assms] by (auto simp: store_def put_bytes_def buf_ok_def contents_def)

lemma put_fields_at_end:
  assumes "buf_ok b" "b_used b + sum_list (map field_len fs) \<le> b_size b"
  shows "\<exists>b'. put_fields put fs b = Ret b' \<and> buf_ok b' \<and> contents b' = contents b @ concat (map field_bytes fs)"
  using assms
proof (induction fs arbitrary: b)
  case (Cons f fs)
  then obtain b1 where b1: "put_field put f b = Ret b1" "buf_ok b1" "contents b1 = contents b @ field_bytes f"
    "b_size b1 = b_size b" "b_used b1 = b_used b + field_len f"
    using store_at_end [of b "field_bytes f"] by (auto simp: put_field_is)
  with Cons.IH [of b1] Cons.prems show ?case by auto
qed simp

end

text \<open>The room of the library: the end of the data, when it fits; otherwise the program is stopped.\<close>

definition put_or_stop :: room where
  "put_or_stop b n = (if b_used b + n \<le> b_size b then Ret (b_used b, b\<lparr>b_used := b_used b + n\<rparr>) else Blocked)"

interpretation stopping: buffer_end put_or_stop
  by unfold_locales (simp add: put_or_stop_def)

text \<open>
  Fields written one after another into a buffer with room for them follow what the buffer held,
  which stays, and reading them back in the same order gives the numbers and bytes that were
  written, in either byte order; of a 24-bit field the low 24 bits.
\<close>

theorem fields_read_back:
  assumes "buffer_end put" "buf_ok b" "sum_list (map field_len fs) \<le> unat (wpabuf_tailroom b)"
  shows "\<exists>b'. put_fields put fs b = Ret b' \<and> buf_ok b' \<and> take (b_used b) (contents b') = contents b \<and>
    get_fields fs (drop (b_used b) (contents b')) = Ret (map stored_field fs)"
proof -
  have "b_used b + sum_list (map field_len fs) \<le> b_size b"
    using assms(3) unfolding tailroom_exact [OF assms(2)] using assms(2) unfolding buf_ok_def by linarith
  from buffer_end.put_fields_at_end [OF assms(1,2) this] obtain b' where
    b': "put_fields put fs b = Ret b'" "buf_ok b'" "contents b' = contents b @ concat (map field_bytes fs)" by blast
  have "length (contents b) = b_used b" using assms(2) by (simp add: contents_def buf_ok_def)
  with b' get_fields_bytes [of fs "[]"] show ?thesis by simp
qed

theorem fields_read_back_witness:
  "\<exists>b'. put_fields put_or_stop [F8 7, Be24 0x1020304, Le16 0xabcd] \<lparr>b_size = 8, b_used = 1, b_data = replicate 8 9, b_ext = False\<rparr> = Ret b' \<and>
    buf_ok b' \<and> take 1 (contents b') = [9] \<and>
    get_fields [F8 7, Be24 0x1020304, Le16 0xabcd] (drop 1 (contents b')) = Ret [F8 7, Be24 0x20304, Le16 0xabcd]"
  using fields_read_back [OF stopping.buffer_end_axioms, of "\<lparr>b_size = 8, b_used = 1, b_data = replicate 8 9, b_ext = False\<rparr>"
      "[F8 7, Be24 0x1020304, Le16 0xabcd]"]
  by (simp add: buf_ok_def contents_def wpabuf_tailroom_def take_bit_eq_mod)

end
