(* ===== verification/HalDebug.thy ===== *)
theory HalDebug
  imports Prelude
begin

text \<open>
  The log lines of src/inc/debug.h: the sub-system names, the mask that selects them, and the
  layout of a line. The time is what \<open>ctime\<close> gives.
\<close>

unbundle bit_operations_syntax

definition HAL_DBG_WIFI :: "32 word" where "HAL_DBG_WIFI = 0x1"
definition HAL_DBG_MODEM :: "32 word" where "HAL_DBG_MODEM = 0x2"
definition HAL_DBG_BT :: "32 word" where "HAL_DBG_BT = 0x4"
definition HAL_DBG_COMMON :: "32 word" where "HAL_DBG_COMMON = 0x8"
definition HAL_DBG_ANY :: "32 word" where "HAL_DBG_ANY = 0xffffffff"

lemmas hal_dbg_defs = HAL_DBG_WIFI_def HAL_DBG_MODEM_def HAL_DBG_BT_def HAL_DBG_COMMON_def HAL_DBG_ANY_def

definition hal_debug_to_string :: "32 word \<Rightarrow> string" where
  "hal_debug_to_string d =
     (if d = HAL_DBG_WIFI then ''WIFI'' else if d = HAL_DBG_MODEM then ''MODEM''
      else if d = HAL_DBG_BT then ''BT'' else if d = HAL_DBG_COMMON then ''COMMON'' else ''ANY'')"

text \<open>\<open>%-<n>s\<close> and the first line of what \<open>ctime\<close> gives.\<close>

definition padded :: "nat \<Rightarrow> string \<Rightarrow> string" where
  "padded n s = s @ replicate (n - length s) (CHR '' '')"

definition timestamp :: "string \<Rightarrow> string" where
  "timestamp ct = takeWhile (\<lambda>c. c \<noteq> LF) ct"

definition line_head :: "string \<Rightarrow> string \<Rightarrow> 32 word \<Rightarrow> string" where
  "line_head ct pre sub = padded 25 (timestamp ct) @ '':'' @ padded 5 pre @ '':'' @ padded 6 (hal_debug_to_string sub) @ '': ''"

text \<open>What goes to a stream; None is nothing.\<close>

datatype stream = Stdout string | Stderr string

definition hal_print :: "32 word \<Rightarrow> string \<Rightarrow> 32 word \<Rightarrow> string \<Rightarrow> string \<Rightarrow> stream option" where
  "hal_print debug_radio_mask ct sub pre msg =
     (if debug_radio_mask AND sub \<noteq> 0 then Some (Stdout (line_head ct pre sub @ msg)) else None)"

definition hal_print_critical :: "string \<Rightarrow> string \<Rightarrow> 32 word \<Rightarrow> string \<Rightarrow> string \<Rightarrow> stream option" where
  "hal_print_critical ct place sub pre msg = Some (Stderr (line_head ct pre sub @ place @ ''(): '' @ msg))"

definition hal_print_debug :: "bool \<Rightarrow> 32 word \<Rightarrow> string \<Rightarrow> 32 word \<Rightarrow> string \<Rightarrow> string \<Rightarrow> stream option" where
  "hal_print_debug DEBUG debug_radio_mask ct sub pre msg =
     (if DEBUG \<and> debug_radio_mask AND sub \<noteq> 0 then Some (Stdout (line_head ct pre sub @ msg)) else None)"

definition RLOGE :: "string \<Rightarrow> string \<Rightarrow> stream option" where
  "RLOGE ct msg = Some (Stdout (padded 25 (timestamp ct) @ '':ERROR:MODEM : AT error:'' @ msg))"

definition RLOGD :: "bool \<Rightarrow> string \<Rightarrow> string \<Rightarrow> stream option" where
  "RLOGD DEBUG ct msg =
     (if DEBUG then Some (Stdout (padded 25 (timestamp ct) @ '':INFO :MODEM : AT debug:'' @ msg)) else None)"

datatype log_level = LogErr | LogWarn | LogDebug | LogInfo

text \<open>\<open>hal_err\<close>, \<open>hal_warn\<close>, \<open>hal_debug\<close> and \<open>hal_info\<close>; \<open>DEBUG\<close> is 1 in the file.\<close>

fun hal_log :: "log_level \<Rightarrow> 32 word \<Rightarrow> string \<Rightarrow> string \<Rightarrow> 32 word \<Rightarrow> string \<Rightarrow> stream option" where
  "hal_log LogErr sel ct place sub msg = hal_print_critical ct place sub ''ERROR'' msg"
| "hal_log LogWarn sel ct place sub msg = hal_print sel ct sub ''WARN'' msg"
| "hal_log LogDebug sel ct place sub msg = hal_print_debug True sel ct sub ''DBG'' msg"
| "hal_log LogInfo sel ct place sub msg = hal_print sel ct sub ''INFO'' msg"

section \<open>What is printed\<close>

text \<open>Each sub-system has a name of its own, so the name says where a line comes from.\<close>

lemma debug_names_distinct:
  "distinct (map hal_debug_to_string [HAL_DBG_WIFI, HAL_DBG_MODEM, HAL_DBG_BT, HAL_DBG_COMMON, HAL_DBG_ANY])"
  by (simp add: hal_debug_to_string_def hal_dbg_defs)

text \<open>A mask that is the sum of some sub-systems prints their lines and no others; an error is always
  printed, and with the mask of the file everything is.\<close>

lemma mask_selects:
  assumes "sel = (if w then HAL_DBG_WIFI else 0) OR (if m then HAL_DBG_MODEM else 0) OR
    (if b then HAL_DBG_BT else 0) OR (if c then HAL_DBG_COMMON else 0)" "lv \<noteq> LogErr"
  shows "hal_log lv sel ct p HAL_DBG_WIFI msg \<noteq> None \<longleftrightarrow> w" "hal_log lv sel ct p HAL_DBG_MODEM msg \<noteq> None \<longleftrightarrow> m"
    "hal_log lv sel ct p HAL_DBG_BT msg \<noteq> None \<longleftrightarrow> b" "hal_log lv sel ct p HAL_DBG_COMMON msg \<noteq> None \<longleftrightarrow> c"
  using assms(2) unfolding assms(1)
  by (cases lv; cases w; cases m; cases b; cases c; simp add: hal_print_def hal_print_debug_def hal_dbg_defs)+

lemma error_always_printed: "hal_log LogErr sel ct p sub msg \<noteq> None"
  by (simp add: hal_print_critical_def)

lemma any_prints_all: "sub \<noteq> 0 \<Longrightarrow> hal_log lv HAL_DBG_ANY ct p sub msg \<noteq> None"
proof -
  have any: "HAL_DBG_ANY = - 1" by (simp add: HAL_DBG_ANY_def)
  have "HAL_DBG_ANY AND sub = sub" by (subst any) simp
  then show "sub \<noteq> 0 \<Longrightarrow> hal_log lv HAL_DBG_ANY ct p sub msg \<noteq> None"
    by (cases lv) (simp_all add: hal_print_def hal_print_debug_def hal_print_critical_def)
qed

text \<open>The columns line up when the time, the level and the name fit.\<close>

lemma columns_line_up:
  "length (timestamp ct) \<le> 25 \<Longrightarrow> length pre \<le> 5 \<Longrightarrow> length (line_head ct pre sub) = 40"
  by (simp add: line_head_def padded_def hal_debug_to_string_def)

end
